(* ===== verification/Prelude.thy ===== *)
theory Prelude
  imports Main "HOL-Library.Word" "HOL-Library.Finite_Map" "HOL-Library.Char_ord"
    "HOL-Library.List_Lexorder"
begin

text \<open>
  The vocabulary every component shares: the machine integers of the Rust sources, their
  saturating addition, byte strings, little- and big-endian integers, and the operations of
  \<open>HashMap\<close> that \<open>Finite_Map\<close> does not have under that name (\<open>retain\<close>, \<open>len\<close>).
  A Rust \<open>String\<close> is a \<^typ>\<open>string\<close> whose characters are its UTF-8 bytes, so that
  \<open>length\<close> is Rust's \<open>len()\<close>; a \<open>Vec<u8>\<close> is a list of 8-bit words.
\<close>

unbundle bit_operations_syntax

type_synonym u8 = "8 word"
type_synonym u16 = "16 word"
type_synonym u32 = "32 word"
type_synonym u64 = "64 word"
type_synonym i32 = "32 word" \<comment> \<open>read with \<^const>\<open>sint\<close>\<close>
type_synonym bytes = "u8 list"

named_theorems auth_simps and lifecycle_simps and codec_simps

section \<open>Saturating arithmetic\<close>

text \<open>\<open>uN::saturating_add\<close> and \<open>uN::saturating_sub\<close>; \<open>- 1\<close> is the type's \<open>MAX\<close>.\<close>

definition sat_add :: "'a::len word \<Rightarrow> 'a word \<Rightarrow> 'a word" where
  "sat_add x y = (if 2 ^ LENGTH('a) \<le> unat x + unat y then - 1 else x + y)"

definition sat_sub :: "'a::len word \<Rightarrow> 'a word \<Rightarrow> 'a word" where
  "sat_sub x y = (if x < y then 0 else x - y)"

lemma unat_max_word: "unat (- 1 :: 'a::len word) = 2 ^ LENGTH('a) - 1"
  by (simp add: unsigned_minus_1_eq_mask mask_eq_exp_minus_1)

lemma unat_less_max: "unat x \<le> 2 ^ LENGTH('a) - 1"
  for x :: "'a::len word"
  using unsigned_less [of x, where ?'a = nat] by linarith

lemma unat_sat_add: "unat (sat_add x y) = min (unat x + unat y) (2 ^ LENGTH('a) - 1)"
  for x y :: "'a::len word"
proof (cases "2 ^ LENGTH('a) \<le> unat x + unat y")
  case True
  then show ?thesis by (simp add: sat_add_def unat_max_word)
next
  case False
  then have "unat (x + y) = unat x + unat y"
    by (simp add: unat_word_ariths)
  with False show ?thesis by (simp add: sat_add_def)
qed

lemma unat_sat_sub: "unat (sat_sub x y) = unat x - unat y"
  by (simp add: sat_sub_def word_less_nat_alt not_less unat_sub word_le_nat_alt)

lemma sat_sub_1_less: "0 < sat_sub x 1 \<Longrightarrow> sat_sub x 1 < x"
  by (simp add: word_less_nat_alt unat_sat_sub)

lemma sat_add_ge [simp, intro]: "x \<le> sat_add x y"
proof -
  have "unat x \<le> unat (sat_add x y)"
    using unat_less_max [of x] by (simp add: unat_sat_add)
  then show ?thesis by (simp add: word_le_nat_alt)
qed

lemma sat_add_mono_le: "z \<le> x \<Longrightarrow> z \<le> sat_add x y"
  by (meson order_trans sat_add_ge)

lemma sat_inc_gt: "x \<noteq> - 1 \<Longrightarrow> x < sat_add x 1"
  for x :: "'a::len word"
proof -
  assume "x \<noteq> - 1"
  then have "unat x \<noteq> unat (- 1 :: 'a word)" by (simp add: word_unat_eq_iff)
  then have "unat x < 2 ^ LENGTH('a) - 1"
    using unat_less_max [of x] by (simp add: unat_max_word)
  then have "unat x < unat (sat_add x 1)" by (auto simp: unat_sat_add)
  then show ?thesis by (simp add: word_less_nat_alt)
qed

lemma sat_inc_neq [simp]: "x < - 1 \<Longrightarrow> sat_add x 1 \<noteq> x"
  for x :: "'a::len word"
  by (metis less_irrefl sat_inc_gt)

lemma less_max_word: "x \<noteq> - 1 \<Longrightarrow> x < - 1"
  for x :: "'a::len word"
  by (simp add: order.strict_iff_order)

text \<open>Where \<open>e\<close> is not the maximum and \<open>e \<le> x\<close>, the successor of \<open>x\<close> is above \<open>e\<close>,
  saturated or not: this is what keeps minted epochs fresh.\<close>

lemma sat_inc_fresh: "e \<le> x \<Longrightarrow> e \<noteq> - 1 \<Longrightarrow> e < sat_add x 1"
  for e x :: "'a::len word"
  by (metis less_max_word order.strict_trans1 order.strict_trans2 sat_add_ge sat_inc_gt)

lemma sat_inc_pos: "(0::'a::len word) < sat_add x 1"
  by (rule sat_inc_fresh) (simp_all add: word_zero_le)

section \<open>Hash maps\<close>

text \<open>\<open>HashMap::retain\<close> and \<open>HashMap::len\<close>.\<close>

definition fm_retain :: "('k \<Rightarrow> 'v \<Rightarrow> bool) \<Rightarrow> ('k, 'v) fmap \<Rightarrow> ('k, 'v) fmap" where
  "fm_retain P m = fmfilter (\<lambda>k. case fmlookup m k of None \<Rightarrow> False | Some v \<Rightarrow> P k v) m"

definition fm_len :: "('k, 'v) fmap \<Rightarrow> nat" where
  "fm_len m = fcard (fmdom m)"

lemma fmlookup_retain [simp]:
  "fmlookup (fm_retain P m) k =
     (case fmlookup m k of None \<Rightarrow> None | Some v \<Rightarrow> if P k v then Some v else None)"
  by (simp add: fm_retain_def split: option.splits)

lemma fm_retain_empty [simp]: "fm_retain P fmempty = fmempty"
  by (rule fmap_ext) simp

lemma fmdom_retain: "fmdom (fm_retain P m) |\<subseteq>| fmdom m"
  by (auto simp: fmlookup_dom_iff split: option.splits if_splits)

lemma fm_len_retain_le: "fm_len (fm_retain P m) \<le> fm_len m"
  by (simp add: fm_len_def fcard_mono fmdom_retain)

lemma fm_len_empty [simp]: "fm_len fmempty = 0"
  by (simp add: fm_len_def)

lemma fm_len_upd: "fm_len (fmupd k v m) = (if fmlookup m k = None then Suc (fm_len m) else fm_len m)"
  by (auto simp: fm_len_def fcard_finsert_if fmlookup_dom_iff)

lemma fm_len_drop_le: "fm_len (fmdrop k m) \<le> fm_len m"
  unfolding fm_len_def by (rule fcard_mono) auto

lemma fm_len_0: "fm_len m = 0 \<longleftrightarrow> m = fmempty"
proof
  assume "fm_len m = 0"
  then have "fmdom m = {||}" by (simp add: fm_len_def)
  then have "fmlookup m k = None" for k by (simp add: fmdom_notD)
  then show "m = fmempty" by (intro fmap_ext) simp
qed simp

lemma fm_len_upd_pos [simp]: "0 < fm_len (fmupd k v m)"
proof (rule ccontr)
  assume "\<not> 0 < fm_len (fmupd k v m)"
  then have "fmupd k v m = fmempty" by (simp add: fm_len_0)
  then have "fmlookup (fmupd k v m) k = None" by simp
  then show False by simp
qed

section \<open>Fixed-width integers as bytes\<close>

text \<open>\<open>to_le_bytes\<close>, \<open>to_be_bytes\<close> and their inverses, for any width of whole bytes.\<close>

fun le_bytes :: "nat \<Rightarrow> nat \<Rightarrow> bytes" where
  "le_bytes 0 n = []"
| "le_bytes (Suc k) n = of_nat n # le_bytes k (n div 256)"

fun le_value :: "bytes \<Rightarrow> nat" where
  "le_value [] = 0"
| "le_value (b # bs) = unat b + 256 * le_value bs"

definition u16_le :: "u16 \<Rightarrow> bytes" where "u16_le x = le_bytes 2 (unat x)"
definition u32_le :: "u32 \<Rightarrow> bytes" where "u32_le x = le_bytes 4 (unat x)"
definition u64_le :: "u64 \<Rightarrow> bytes" where "u64_le x = le_bytes 8 (unat x)"
definition u16_be :: "u16 \<Rightarrow> bytes" where "u16_be x = rev (u16_le x)"
definition u32_be :: "u32 \<Rightarrow> bytes" where "u32_be x = rev (u32_le x)"
definition be_value :: "bytes \<Rightarrow> nat" where "be_value bs = le_value (rev bs)"

lemma length_le_bytes [simp]: "length (le_bytes k n) = k"
  by (induction k arbitrary: n) auto

lemma le_value_le_bytes: "le_value (le_bytes k n) = n mod 256 ^ k"
proof (induction k arbitrary: n)
  case 0
  then show ?case by simp
next
  case (Suc k)
  have "unat (of_nat n :: u8) = n mod 256"
    by (simp add: unat_of_nat)
  then show ?case
    by (simp add: Suc mod_mult2_eq)
qed

lemma length_uint_bytes [simp]:
  "length (u16_le a) = 2" "length (u32_le b) = 4" "length (u64_le c) = 8"
  "length (u16_be a) = 2" "length (u32_be b) = 4"
  by (simp_all add: u16_le_def u32_le_def u64_le_def u16_be_def u32_be_def)

lemma le_value_u16 [simp]: "le_value (u16_le x) = unat x"
  using unsigned_less [of x, where ?'a = nat] by (simp add: u16_le_def le_value_le_bytes)

lemma le_value_u32 [simp]: "le_value (u32_le x) = unat x"
  using unsigned_less [of x, where ?'a = nat] by (simp add: u32_le_def le_value_le_bytes)

lemma le_value_u64 [simp]: "le_value (u64_le x) = unat x"
  using unsigned_less [of x, where ?'a = nat] by (simp add: u64_le_def le_value_le_bytes)

lemma be_value_uint [simp]: "be_value (u16_be a) = unat a" "be_value (u32_be b) = unat b"
  by (simp_all add: be_value_def u16_be_def u32_be_def)

text \<open>The bytes themselves, for evaluation on concrete values.\<close>

lemma le_bytes_2: "le_bytes 2 n = [of_nat n, of_nat (n div 256)]"
proof -
  have "2 = Suc (Suc 0)" by simp
  then show ?thesis by (simp only: le_bytes.simps)
qed

lemma le_bytes_4:
  "le_bytes 4 n = [of_nat n, of_nat (n div 256), of_nat (n div 256 div 256), of_nat (n div 256 div 256 div 256)]"
proof -
  have "4 = Suc (Suc (Suc (Suc 0)))" by simp
  then show ?thesis by (simp only: le_bytes.simps)
qed

lemmas uint_bytes = u16_be_def u32_be_def u16_le_def u32_le_def le_bytes_2 le_bytes_4

text \<open>The UTF-8 bytes of a string (\<open>str::as_bytes\<close>).\<close>

definition str_bytes :: "string \<Rightarrow> bytes" where
  "str_bytes s = map of_char s"

lemma length_str_bytes [simp]: "length (str_bytes s) = length s"
  by (simp add: str_bytes_def)

definition bytes_str :: "bytes \<Rightarrow> string" where
  "bytes_str bs = map (\<lambda>b. char_of (unat b)) bs"

lemma bytes_str_str_bytes [simp]: "bytes_str (str_bytes s) = s"
proof -
  have "char_of (unat (of_char c :: u8)) = c" for c
  proof -
    have "(of_char c :: u8) = of_nat (of_char c)" by (simp add: of_nat_of_char)
    moreover have "(of_char c :: nat) < 256" by simp
    ultimately have "unat (of_char c :: u8) = of_char c" by (simp add: unat_of_nat)
    then show ?thesis by simp
  qed
  then show ?thesis by (simp add: bytes_str_def str_bytes_def comp_def)
qed

text \<open>Reading the field that starts at \<open>i\<close> and is \<open>n\<close> bytes long.\<close>

definition slice :: "nat \<Rightarrow> nat \<Rightarrow> 'a list \<Rightarrow> 'a list" where
  "slice i n xs = take n (drop i xs)"

lemma slice_append_left: "i + n \<le> length xs \<Longrightarrow> slice i n (xs @ ys) = slice i n xs"
  by (simp add: slice_def)

lemma slice_append_right: "length xs \<le> i \<Longrightarrow> slice i n (xs @ ys) = slice (i - length xs) n ys"
  by (simp add: slice_def)

lemma slice_0_all: "length xs = n \<Longrightarrow> slice 0 n (xs @ ys) = xs"
  by (simp add: slice_def)

section \<open>Text\<close>

text \<open>Decimal (\<open>{n}\<close>) and two-digit hexadecimal (\<open>{b:02x}\<close>) formatting.\<close>

definition digit_char :: "nat \<Rightarrow> char" where
  "digit_char d = (if d < 10 then char_of (48 + d) else char_of (87 + d))"

fun decimal :: "nat \<Rightarrow> string" where
  "decimal n = (if n < 10 then [digit_char n] else decimal (n div 10) @ [digit_char (n mod 10)])"

declare decimal.simps [simp del]

definition hex_byte :: "u8 \<Rightarrow> string" where
  "hex_byte b = [digit_char (unat b div 16), digit_char (unat b mod 16)]"

definition is_digit :: "char \<Rightarrow> bool" where
  "is_digit c \<longleftrightarrow> (48::nat) \<le> of_char c \<and> (of_char c :: nat) \<le> 57"

definition digit_value :: "char \<Rightarrow> nat" where
  "digit_value c = of_char c - 48"

definition decimal_value :: "string \<Rightarrow> nat" where
  "decimal_value ds = fold (\<lambda>c n. 10 * n + digit_value c) ds 0"

text \<open>\<open>str::rsplit_once\<close> and \<open>str::strip_prefix\<close>.\<close>

primrec rsplit_once :: "string \<Rightarrow> string \<Rightarrow> (string \<times> string) option" where
  "rsplit_once pat [] = (if pat = [] then Some ([], []) else None)"
| "rsplit_once pat (c # cs) =
     (case rsplit_once pat cs of
        Some (before, after) \<Rightarrow> Some (c # before, after)
      | None \<Rightarrow>
          if take (length pat) (c # cs) = pat then Some ([], drop (length pat) (c # cs)) else None)"

definition strip_prefix :: "string \<Rightarrow> string \<Rightarrow> string option" where
  "strip_prefix pat s = (if take (length pat) s = pat then Some (drop (length pat) s) else None)"

lemma digit_char_digit: "d < 10 \<Longrightarrow> is_digit (digit_char d) \<and> digit_value (digit_char d) = d"
  by (simp add: digit_char_def is_digit_def digit_value_def of_char_of)

lemma decimal_digits [simp]: "list_all is_digit (decimal n)"
  by (induction n rule: decimal.induct)
    (subst decimal.simps, simp add: digit_char_digit)

lemma decimal_not_Nil [simp]: "decimal n \<noteq> []"
  by (subst decimal.simps) simp

lemma decimal_value_decimal [simp]: "decimal_value (decimal n) = n"
  by (induction n rule: decimal.induct)
    (subst decimal.simps, simp add: decimal_value_def digit_char_digit)

lemma decimal_inject [simp]: "decimal m = decimal n \<longleftrightarrow> m = n"
  by (metis decimal_value_decimal)

lemma decimal_length: "n < 10 ^ k \<Longrightarrow> 0 < k \<Longrightarrow> length (decimal n) \<le> k"
proof (induction k arbitrary: n)
  case 0
  then show ?case by simp
next
  case (Suc k)
  show ?case
  proof (cases "n < 10")
    case True
    then show ?thesis by (subst decimal.simps) simp
  next
    case False
    with Suc.prems have "0 < k" by (cases k) auto
    moreover have "n div 10 < 10 ^ k" using Suc.prems by (simp add: less_mult_imp_div_less mult.commute)
    ultimately have "length (decimal (n div 10)) \<le> k" by (rule Suc.IH [rotated])
    with False show ?thesis by (subst decimal.simps) simp
  qed
qed

lemma length_hex_byte [simp]: "length (hex_byte b) = 2"
  by (simp add: hex_byte_def)

section \<open>Results\<close>

text \<open>\<open>?\<close> and \<open>collect::<Result<_>>()\<close>: the first error ends the computation.\<close>

definition bind_res :: "'e + 'a \<Rightarrow> ('a \<Rightarrow> 'e + 'b) \<Rightarrow> 'e + 'b" where
  "bind_res r f = (case r of Inl e \<Rightarrow> Inl e | Inr x \<Rightarrow> f x)"

fun collect_res :: "('e + 'a) list \<Rightarrow> 'e + 'a list" where
  "collect_res [] = Inr []"
| "collect_res (r # rs) = bind_res r (\<lambda>x. bind_res (collect_res rs) (\<lambda>xs. Inr (x # xs)))"

fun collect_opt :: "'a option list \<Rightarrow> 'a list option" where
  "collect_opt [] = Some []"
| "collect_opt (r # rs) = Option.bind r (\<lambda>x. Option.bind (collect_opt rs) (\<lambda>xs. Some (x # xs)))"

lemma bind_res_simps [simp]: "bind_res (Inl e) f = Inl e" "bind_res (Inr x) f = f x"
  by (simp_all add: bind_res_def)

lemma bind_res_Inr: "bind_res r f = Inr y \<longleftrightarrow> (\<exists>x. r = Inr x \<and> f x = Inr y)"
  by (cases r) simp_all

lemma collect_res_Inr: "collect_res rs = Inr xs \<longleftrightarrow> rs = map Inr xs"
  by (induction rs arbitrary: xs) (auto simp: bind_res_Inr)

lemma collect_res_Inl: "collect_res rs = Inl e \<Longrightarrow> Inl e \<in> set rs"
  by (induction rs) (auto simp: bind_res_def split: sum.splits)

lemma collect_opt_Some: "collect_opt rs = Some xs \<longleftrightarrow> rs = map Some xs"
  by (induction rs arbitrary: xs) (auto simp: bind_eq_Some_conv)

end
