(* ===== verification/Step_Systems.thy ===== *)
theory Step_Systems
  imports Prelude
begin

text \<open>
  The contracts the stateful components share. A component is a step function over its
  operations; its clients issue any sequence of them. \<open>step_system\<close> is an invariant every
  operation keeps (\<open>guarded_system\<close> only the operations a guard admits),
  \<open>ranked_system\<close> adds a counter no operation lowers, and
  \<open>versioned_system\<close> a value that cannot change unless the counter grows, which is what a
  compare-and-swap on the counter relies on. Each component interprets them on its own
  operations, in its own theory.
\<close>

fun answers :: "('op \<Rightarrow> 's \<Rightarrow> 'out \<times> 's) \<Rightarrow> 'op list \<Rightarrow> 's \<Rightarrow> 'out list \<times> 's" where
  "answers f [] s = ([], s)"
| "answers f (x # xs) s = (let (y, s) = f x s; (ys, s) = answers f xs s in (y # ys, s))"

lemma snd_answers: "snd (answers f xs s) = fold (\<lambda>x s. snd (f x s)) xs s"
  by (induction xs arbitrary: s) (simp_all add: case_prod_beta Let_def)

locale guarded_system =
  fixes step :: "'op \<Rightarrow> 's \<Rightarrow> 's"
    and ok :: "'op \<Rightarrow> bool"
    and inv :: "'s \<Rightarrow> bool"
  assumes guarded_step: "ok x \<Longrightarrow> inv s \<Longrightarrow> inv (step x s)"
begin

lemma guarded_run: "list_all ok xs \<Longrightarrow> inv s \<Longrightarrow> inv (fold step xs s)"
  by (induction xs arbitrary: s) (auto intro: guarded_step)

end

locale step_system =
  fixes step :: "'op \<Rightarrow> 's \<Rightarrow> 's"
    and inv :: "'s \<Rightarrow> bool"
  assumes inv_step: "inv s \<Longrightarrow> inv (step x s)"

sublocale step_system \<subseteq> guarded_system step "\<lambda>_. True" inv
  by unfold_locales (rule inv_step)

context step_system
begin

lemma inv_run: "inv s \<Longrightarrow> inv (fold step xs s)"
  by (rule guarded_run) (simp_all add: list.pred_True)

end

locale ranked_system = step_system step inv
  for step :: "'op \<Rightarrow> 's \<Rightarrow> 's" and inv :: "'s \<Rightarrow> bool" +
  fixes rank :: "'s \<Rightarrow> 'r::linorder"
  assumes rank_step: "inv s \<Longrightarrow> rank s \<le> rank (step x s)"
begin

lemma rank_run: "inv s \<Longrightarrow> rank s \<le> rank (fold step xs s)"
proof (induction xs arbitrary: s)
  case Nil
  then show ?case by simp
next
  case (Cons x xs)
  then have "rank (step x s) \<le> rank (fold step xs (step x s))"
    by (simp add: inv_step)
  with rank_step [OF Cons.prems] show ?case
    by (auto intro: order_trans)
qed

end

locale versioned_system = ranked_system step inv rank
  for step :: "'op \<Rightarrow> 's \<Rightarrow> 's" and inv :: "'s \<Rightarrow> bool" and rank :: "'s \<Rightarrow> 'r::linorder" +
  fixes val :: "'s \<Rightarrow> 'v" and top :: 'r
  assumes val_step: "inv s \<Longrightarrow> rank s < top \<Longrightarrow> rank (step x s) = rank s \<Longrightarrow> val (step x s) = val s"
begin

lemma same_rank_same_val:
  "inv s \<Longrightarrow> rank s < top \<Longrightarrow> rank (fold step xs s) = rank s \<Longrightarrow> val (fold step xs s) = val s"
proof (induction xs arbitrary: s)
  case Nil
  then show ?case by simp
next
  case (Cons x xs)
  have le: "rank s \<le> rank (step x s)" by (rule rank_step [OF Cons.prems(1)])
  have "rank (step x s) \<le> rank (fold step xs (step x s))"
    by (rule rank_run [OF inv_step [OF Cons.prems(1)]])
  with le Cons.prems(3) have eq: "rank (step x s) = rank s"
    by (metis antisym fold_simps(2))
  have "val (step x s) = val s"
    by (rule val_step [OF Cons.prems(1,2) eq])
  moreover have "val (fold step xs (step x s)) = val (step x s)"
    using Cons.IH [OF inv_step [OF Cons.prems(1)]] Cons.prems(2,3) eq by simp
  ultimately show ?case by simp
qed

end

text \<open>
  A component with an abstract specification: step by step it gives the answers of the
  specification and reaches the state the specification reaches, through an abstraction function.
\<close>

locale refined_system =
  fixes step :: "'op \<Rightarrow> 's \<Rightarrow> 'out \<times> 's"
    and spec :: "'op \<Rightarrow> 'a \<Rightarrow> 'out \<times> 'a"
    and inv :: "'s \<Rightarrow> bool"
    and abs :: "'s \<Rightarrow> 'a"
  assumes inv_kept: "inv s \<Longrightarrow> inv (snd (step x s))"
    and simulates: "inv s \<Longrightarrow> spec x (abs s) = (fst (step x s), abs (snd (step x s)))"

sublocale refined_system \<subseteq> steps: step_system "\<lambda>x s. snd (step x s)" inv
  by unfold_locales (rule inv_kept)

context refined_system
begin

lemma answers_agree:
  "inv s \<Longrightarrow> answers spec xs (abs s) = (fst (answers step xs s), abs (snd (answers step xs s)))"
proof (induction xs arbitrary: s)
  case Nil
  then show ?case by simp
next
  case (Cons x xs)
  from Cons.IH [OF inv_kept [OF Cons.prems]] simulates [OF Cons.prems] show ?case
    by (simp add: case_prod_beta Let_def)
qed

end

end
