(* ===== verification/Session_Lifecycle.thy ===== *)
theory Session_Lifecycle
  imports Step_Systems
begin

text \<open>
  The serialized owner of one open remote session: \<open>SessionLifecycle\<close>, \<open>LifecycleState\<close>
  and \<open>ViewRecord\<close> of \<open>ghosttea-truffle/src/lib.rs\<close>, with the event records of
  \<open>ghosttea/src/mesh.rs\<close> they publish. Each method holds the state's mutex for its whole body,
  so it is one step; its result carries the events it broadcasts and the engine it aborts.
  \<open>Instant::now()\<close> is an argument of the methods that read the clock, an instant and a
  \<open>Duration\<close> are natural numbers of nanoseconds, and the SHA-256 of the \<open>sha2\<close> crate is a
  parameter. A \<open>HashMap\<close> is iterated in unspecified order: the model takes the sorted one.
\<close>

section \<open>Data\<close>

datatype lifecycle_state = Opening | Live | Synchronizing | Reconnecting | Suspended | Ended

datatype ended_reason =
  SessionClosed | SessionExited | SessionUnavailable | HostRestarted | HostShutdown | ClosedLocally

datatype view_state = Pending | Attached | Failed

record view_record =
  vr_view_state_seq :: u64
  vr_state :: view_state
  vr_attachment_epoch :: "u64 option"
  vr_read_write :: "bool option"
  vr_error :: "string option"
  vr_retryable :: "bool option"
  vr_generation :: u64
  vr_wire_view_id :: "string option"
  vr_oldest_unpurged :: u64
  vr_written :: u64
  vr_last_attachment_epoch :: "u64 option"

type_synonym instant = nat
type_synonym duration = nat
type_synonym engine = nat

record lifecycle =
  ls_session_id :: string
  ls_device_id :: string
  ls_device_name :: string
  ls_state :: lifecycle_state
  ls_reason :: "ended_reason option"
  ls_seq :: u64
  ls_attempt :: u32
  ls_generation :: u64
  ls_incarnation :: u64
  ls_last_contact :: "instant option"
  ls_host_instance_id :: "string option"
  ls_session_epoch :: "u64 option"
  ls_views :: "(string, view_record) fmap"
  ls_feed_view_id :: "string option"
  ls_next_retry :: "duration option"
  ls_disconnected :: "(u64 \<times> u64) option"
  ls_engine :: "engine option"

record lifecycle_changed =
  lc_session_id :: string
  lc_lifecycle_seq :: u64
  lc_device_id :: string
  lc_device_name :: string
  lc_state :: lifecycle_state
  lc_reason :: "ended_reason option"
  lc_attempt :: u32
  lc_next_retry_ms :: "u64 option"
  lc_last_contact_ms :: "u64 option"

record view_state_changed =
  vc_session_id :: string
  vc_local_view_id :: string
  vc_view_state_seq :: u64
  vc_view_state :: view_state
  vc_attachment_epoch :: "u64 option"
  vc_read_write :: "bool option"
  vc_error :: "string option"
  vc_retryable :: "bool option"

datatype effect =
    LifecycleEvent lifecycle_changed
  | ViewEvent view_state_changed
  | AbortEngine engine

record remote_view_record =
  rv_local_view_id :: string
  rv_view_state_seq :: u64
  rv_view_state :: view_state
  rv_attachment_epoch :: "u64 option"
  rv_read_write :: "bool option"
  rv_error :: "string option"
  rv_retryable :: "bool option"

record lifecycle_snapshot =
  sn_session_id :: string
  sn_lifecycle_seq :: u64
  sn_device_id :: string
  sn_device_name :: string
  sn_state :: lifecycle_state
  sn_reason :: "ended_reason option"
  sn_attempt :: u32
  sn_next_retry_ms :: "u64 option"
  sn_last_contact_ms :: "u64 option"
  sn_views :: "remote_view_record list"

record resume_hint_rec =
  rh_previous_session_epoch :: u64
  rh_previous_attachment_epoch :: u64
  rh_previous_terminal_revision :: u64

section \<open>Wire identities\<close>

definition MAX_INLINE_LOCAL_VIEW_ID_BYTES :: nat where "MAX_INLINE_LOCAL_VIEW_ID_BYTES = 98"

definition stable_wire_view_id :: "(bytes \<Rightarrow> bytes) \<Rightarrow> string \<Rightarrow> string" where
  "stable_wire_view_id sha256 local_view_id =
     (if length local_view_id \<le> MAX_INLINE_LOCAL_VIEW_ID_BYTES then ''r:'' @ local_view_id
      else ''h:'' @ concat (map hex_byte (take 16 (sha256 (str_bytes local_view_id)))))"

definition wire_view_id :: "(bytes \<Rightarrow> bytes) \<Rightarrow> string \<Rightarrow> u64 \<Rightarrow> string" where
  "wire_view_id sha256 local_view_id generation =
     stable_wire_view_id sha256 local_view_id @ ''#g'' @ decimal (unat generation)"

definition local_view_id_from_wire :: "string \<Rightarrow> string option" where
  "local_view_id_from_wire wire =
     (let base = (case rsplit_once ''#g'' wire of
                    Some (base, generation) \<Rightarrow>
                      if generation \<noteq> [] \<and> list_all is_digit generation then base else wire
                  | None \<Rightarrow> wire)
      in strip_prefix ''r:'' base)"

section \<open>Publishing\<close>

definition pending_view :: view_record where
  "pending_view =
     \<lparr>vr_view_state_seq = 0, vr_state = Pending, vr_attachment_epoch = None, vr_read_write = None,
      vr_error = None, vr_retryable = None, vr_generation = 0, vr_wire_view_id = None,
      vr_oldest_unpurged = 1, vr_written = 0, vr_last_attachment_epoch = None\<rparr>"

definition view_record_of :: "string \<Rightarrow> view_record \<Rightarrow> remote_view_record" where
  "view_record_of local_view_id r =
     \<lparr>rv_local_view_id = local_view_id, rv_view_state_seq = vr_view_state_seq r,
      rv_view_state = vr_state r, rv_attachment_epoch = vr_attachment_epoch r,
      rv_read_write = vr_read_write r, rv_error = vr_error r, rv_retryable = vr_retryable r\<rparr>"

definition as_millis :: "duration \<Rightarrow> nat" where
  "as_millis d = d div 1000000"

text \<open>\<open>delay.as_millis() as u64\<close> truncates; the contact age is clamped to \<open>u64::MAX\<close> first.\<close>

definition next_retry_ms :: "lifecycle \<Rightarrow> u64 option" where
  "next_retry_ms s = map_option (\<lambda>delay. of_nat (as_millis delay)) (ls_next_retry s)"

definition last_contact_ms :: "instant \<Rightarrow> lifecycle \<Rightarrow> u64 option" where
  "last_contact_ms now s =
     map_option (\<lambda>at. of_nat (min (as_millis (now - at)) (2 ^ 64 - 1))) (ls_last_contact s)"

definition publish :: "instant \<Rightarrow> lifecycle \<Rightarrow> effect" where
  "publish now s = LifecycleEvent
     \<lparr>lc_session_id = ls_session_id s, lc_lifecycle_seq = ls_seq s, lc_device_id = ls_device_id s,
      lc_device_name = ls_device_name s, lc_state = ls_state s, lc_reason = ls_reason s,
      lc_attempt = ls_attempt s, lc_next_retry_ms = next_retry_ms s,
      lc_last_contact_ms = last_contact_ms now s\<rparr>"

definition new_lifecycle ::
  "string \<Rightarrow> string \<Rightarrow> string \<Rightarrow> string option \<Rightarrow> instant \<Rightarrow> lifecycle \<times> effect list" where
  "new_lifecycle session_id device_id device_name host_instance_id now =
     (let s = \<lparr>ls_session_id = session_id, ls_device_id = device_id, ls_device_name = device_name,
        ls_state = Opening, ls_reason = None, ls_seq = 1, ls_attempt = 0, ls_generation = 1,
        ls_incarnation = 0, ls_last_contact = None, ls_host_instance_id = host_instance_id,
        ls_session_epoch = None, ls_views = fmempty, ls_feed_view_id = None,
        ls_next_retry = None, ls_disconnected = None, ls_engine = None\<rparr>
      in (s, [publish now s]))"

definition advance ::
  "instant \<Rightarrow> lifecycle_state \<Rightarrow> ended_reason option \<Rightarrow> lifecycle \<Rightarrow> lifecycle \<times> effect list" where
  "advance now next_state reason s =
     (let s' = s\<lparr>ls_state := next_state, ls_reason := reason, ls_seq := sat_add (ls_seq s) 1\<rparr>
      in (s', [publish now s']))"

definition publish_view :: "string \<Rightarrow> view_record \<Rightarrow> lifecycle \<Rightarrow> effect" where
  "publish_view local_view_id r s = ViewEvent
     \<lparr>vc_session_id = ls_session_id s, vc_local_view_id = local_view_id,
      vc_view_state_seq = vr_view_state_seq r, vc_view_state = vr_state r,
      vc_attachment_epoch = vr_attachment_epoch r, vc_read_write = vr_read_write r,
      vc_error = vr_error r, vc_retryable = vr_retryable r\<rparr>"

text \<open>\<open>entry(id).or_insert_with(ViewRecord::pending)\<close>: the record a mutation starts from.\<close>

definition view_or_pending :: "string \<Rightarrow> lifecycle \<Rightarrow> view_record" where
  "view_or_pending local_view_id s =
     (case fmlookup (ls_views s) local_view_id of None \<Rightarrow> pending_view | Some r \<Rightarrow> r)"

definition set_view ::
  "string \<Rightarrow> (view_record \<Rightarrow> view_record) \<Rightarrow> lifecycle \<Rightarrow> lifecycle \<times> effect list" where
  "set_view local_view_id mutate s =
     (let r = mutate (view_or_pending local_view_id s);
          r' = r\<lparr>vr_view_state_seq := sat_add (vr_view_state_seq r) 1\<rparr>
      in (s\<lparr>ls_views := fmupd local_view_id r' (ls_views s)\<rparr>, [publish_view local_view_id r' s]))"

definition to_pending :: "view_record \<Rightarrow> view_record" where
  "to_pending r = r\<lparr>vr_state := Pending, vr_attachment_epoch := None, vr_read_write := None\<rparr>"

definition view_keys :: "lifecycle \<Rightarrow> string list" where
  "view_keys s = sorted_list_of_fset (fmdom (ls_views s))"

fun set_views :: "(view_record \<Rightarrow> view_record) \<Rightarrow> string list \<Rightarrow> lifecycle \<Rightarrow> lifecycle \<times> effect list" where
  "set_views mutate [] s = (s, [])"
| "set_views mutate (v # vs) s =
     (let (s1, es1) = set_view v mutate s; (s2, es2) = set_views mutate vs s1 in (s2, es1 @ es2))"

definition mark_views_pending :: "lifecycle \<Rightarrow> lifecycle \<times> effect list" where
  "mark_views_pending s = set_views to_pending (view_keys s) s"

section \<open>Contact\<close>

definition admit_state :: "u64 \<Rightarrow> u64 \<Rightarrow> instant \<Rightarrow> lifecycle \<Rightarrow> bool \<times> lifecycle" where
  "admit_state generation incarnation now s =
     (if ls_generation s \<noteq> generation \<or> ls_incarnation s \<noteq> incarnation then (False, s)
      else (True, s\<lparr>ls_last_contact := Some now\<rparr>))"

definition note_contact :: "u64 \<Rightarrow> instant \<Rightarrow> lifecycle \<Rightarrow> bool \<times> lifecycle" where
  "note_contact incarnation now s =
     (if ls_incarnation s \<noteq> incarnation then (False, s)
      else (True, s\<lparr>ls_last_contact := Some now\<rparr>))"

definition contact_age :: "u64 \<Rightarrow> instant \<Rightarrow> lifecycle \<Rightarrow> duration option" where
  "contact_age incarnation now s =
     (if ls_incarnation s \<noteq> incarnation \<or> ls_state s \<noteq> Live then None
      else if list_ex (\<lambda>v. vr_state (view_or_pending v s) = Attached) (view_keys s)
           then map_option (\<lambda>at. now - at) (ls_last_contact s)
           else None)"

section \<open>Ending\<close>

definition end_session :: "ended_reason \<Rightarrow> instant \<Rightarrow> lifecycle \<Rightarrow> lifecycle \<times> effect list" where
  "end_session reason now s =
     (if ls_state s = Ended then (s, [])
      else let (s1, es1) = set_views to_pending (view_keys s) (s\<lparr>ls_next_retry := None\<rparr>);
               (s2, es2) = advance now Ended (Some reason) s1
           in (s2, es1 @ es2))"

definition cancel_engine :: "lifecycle \<Rightarrow> lifecycle \<times> effect list" where
  "cancel_engine s =
     (case ls_engine s of None \<Rightarrow> (s, []) | Some e \<Rightarrow> (s\<lparr>ls_engine := None\<rparr>, [AbortEngine e]))"

definition arm_engine :: "engine \<Rightarrow> lifecycle \<Rightarrow> lifecycle \<times> effect list" where
  "arm_engine engine s =
     (s\<lparr>ls_engine := Some engine\<rparr>,
      case ls_engine s of None \<Rightarrow> [] | Some previous \<Rightarrow> [AbortEngine previous])"

definition commit_host_shutdown :: "u64 \<Rightarrow> instant \<Rightarrow> lifecycle \<Rightarrow> bool \<times> lifecycle \<times> effect list" where
  "commit_host_shutdown incarnation now s =
     (if ls_incarnation s \<noteq> incarnation then (False, s, [])
      else let (s1, es1) = end_session HostShutdown now s; (s2, es2) = cancel_engine s1
           in (True, s2, es1 @ es2))"

definition commit_ended :: "ended_reason \<Rightarrow> instant \<Rightarrow> lifecycle \<Rightarrow> lifecycle \<times> effect list" where
  "commit_ended reason now s =
     (let (s1, es1) = cancel_engine s; (s2, es2) = end_session reason now s1 in (s2, es1 @ es2))"

section \<open>Transitions\<close>

definition commit_synchronizing :: "instant \<Rightarrow> lifecycle \<Rightarrow> lifecycle \<times> effect list" where
  "commit_synchronizing now s =
     (if ls_state s = Ended then (s, []) else advance now Synchronizing None s)"

definition commit_live :: "instant \<Rightarrow> lifecycle \<Rightarrow> lifecycle \<times> effect list" where
  "commit_live now s =
     (if ls_state s = Ended then (s, [])
      else advance now Live None
             (s\<lparr>ls_last_contact := Some now, ls_attempt := 0, ls_next_retry := None\<rparr>))"

definition commit_reconnecting :: "instant \<Rightarrow> lifecycle \<Rightarrow> lifecycle \<times> effect list" where
  "commit_reconnecting now s =
     advance now Reconnecting None (s\<lparr>ls_attempt := sat_add (ls_attempt s) 1\<rparr>)"

definition commit_scheduled_retry ::
  "u32 \<Rightarrow> duration \<Rightarrow> instant \<Rightarrow> lifecycle \<Rightarrow> lifecycle \<times> effect list" where
  "commit_scheduled_retry attempt delay now s =
     (if ls_state s = Ended then (s, [])
      else advance now Reconnecting None (s\<lparr>ls_attempt := attempt, ls_next_retry := Some delay\<rparr>))"

definition commit_suspended :: "instant \<Rightarrow> lifecycle \<Rightarrow> lifecycle \<times> effect list" where
  "commit_suspended now s =
     (if ls_state s = Ended \<or> ls_state s = Suspended then (s, [])
      else advance now Suspended None (s\<lparr>ls_next_retry := None\<rparr>))"

definition commit_disconnect ::
  "u64 \<Rightarrow> u64 \<Rightarrow> instant \<Rightarrow> lifecycle \<Rightarrow> bool \<times> lifecycle \<times> effect list" where
  "commit_disconnect generation incarnation now s =
     (if ls_generation s \<noteq> generation \<or> ls_incarnation s \<noteq> incarnation then (False, s, [])
      else if ls_disconnected s = Some (generation, incarnation) then (False, s, [])
      else if ls_state s = Ended \<or> ls_state s = Suspended then (False, s, [])
      else let (s1, es1) = mark_views_pending (s\<lparr>ls_disconnected := Some (generation, incarnation)\<rparr>);
               (s2, es2) = advance now Reconnecting None (s1\<lparr>ls_attempt := 0, ls_next_retry := None\<rparr>)
           in (True, s2, es1 @ es2))"

section \<open>Views\<close>

definition map_view :: "string \<Rightarrow> (view_record \<Rightarrow> view_record) \<Rightarrow> lifecycle \<Rightarrow> lifecycle" where
  "map_view local_view_id f s =
     (case fmlookup (ls_views s) local_view_id of
        None \<Rightarrow> s | Some r \<Rightarrow> s\<lparr>ls_views := fmupd local_view_id (f r) (ls_views s)\<rparr>)"

definition note_view_written :: "string \<Rightarrow> u64 \<Rightarrow> lifecycle \<Rightarrow> lifecycle" where
  "note_view_written local_view_id generation =
     map_view local_view_id (\<lambda>r. r\<lparr>vr_written := max (vr_written r) generation\<rparr>)"

definition note_purged :: "string \<Rightarrow> u64 \<Rightarrow> lifecycle \<Rightarrow> lifecycle" where
  "note_purged local_view_id generation =
     map_view local_view_id
       (\<lambda>r. r\<lparr>vr_oldest_unpurged := max (vr_oldest_unpurged r) (sat_add generation 1)\<rparr>)"

text \<open>The generations of one record a purge covers, as a closed range.\<close>

definition purgeable_range :: "view_record \<Rightarrow> (u64 \<times> u64) option" where
  "purgeable_range r =
     (let last = min (vr_written r) (sat_sub (vr_generation r) 1)
      in if vr_oldest_unpurged r \<le> last then Some (vr_oldest_unpurged r, last) else None)"

definition purgeable_generations :: "lifecycle \<Rightarrow> (string \<times> u64 \<times> u64) list" where
  "purgeable_generations s =
     List.map_filter (\<lambda>v. map_option (Pair v) (purgeable_range (view_or_pending v s))) (view_keys s)"

text \<open>The views are visited in increasing order, so the first that qualifies is the least.\<close>

definition elect_feed :: "lifecycle \<Rightarrow> string option \<times> lifecycle" where
  "elect_feed s =
     (let elected = List.find (\<lambda>v. vr_state (view_or_pending v s) \<noteq> Failed) (view_keys s)
      in (elected, s\<lparr>ls_feed_view_id := elected\<rparr>))"

definition release_feed :: "string \<Rightarrow> lifecycle \<Rightarrow> bool \<times> lifecycle" where
  "release_feed local_view_id s =
     (if ls_feed_view_id s \<noteq> Some local_view_id then (False, s)
      else (ls_views s \<noteq> fmempty, s\<lparr>ls_feed_view_id := None\<rparr>))"

definition advance_generation :: "lifecycle \<Rightarrow> u64 \<times> lifecycle" where
  "advance_generation s =
     (let g = sat_add (ls_generation s) 1 in (g, s\<lparr>ls_generation := g\<rparr>))"

definition bind_connection :: "u64 \<Rightarrow> lifecycle \<Rightarrow> lifecycle" where
  "bind_connection incarnation s = s\<lparr>ls_incarnation := incarnation\<rparr>"

definition set_next_retry :: "duration option \<Rightarrow> lifecycle \<Rightarrow> lifecycle" where
  "set_next_retry delay s = s\<lparr>ls_next_retry := delay\<rparr>"

definition record_view :: "string \<Rightarrow> lifecycle \<Rightarrow> lifecycle" where
  "record_view local_view_id s =
     s\<lparr>ls_views := fmupd local_view_id (view_or_pending local_view_id s) (ls_views s)\<rparr>"

definition attempt_wire_id :: "(bytes \<Rightarrow> bytes) \<Rightarrow> string \<Rightarrow> bool \<Rightarrow> u64 \<Rightarrow> string" where
  "attempt_wire_id sha256 local_view_id rotating generation =
     (if rotating then wire_view_id sha256 local_view_id generation
      else stable_wire_view_id sha256 local_view_id)"

definition begin_view_attempt ::
  "(bytes \<Rightarrow> bytes) \<Rightarrow> string \<Rightarrow> bool \<Rightarrow> lifecycle \<Rightarrow> (string \<times> u64) \<times> lifecycle \<times> effect list" where
  "begin_view_attempt sha256 local_view_id rotating s =
     (let generation = sat_add (vr_generation (view_or_pending local_view_id s)) 1;
          wire = attempt_wire_id sha256 local_view_id rotating generation
      in ((wire, generation),
          set_view local_view_id
            (\<lambda>r. (to_pending r)\<lparr>vr_generation := generation, vr_wire_view_id := Some wire,
                    vr_error := None, vr_retryable := None\<rparr>) s))"

definition commit_view_attached ::
  "string \<Rightarrow> u64 \<Rightarrow> bool \<Rightarrow> lifecycle \<Rightarrow> lifecycle \<times> effect list" where
  "commit_view_attached local_view_id epoch read_write =
     set_view local_view_id
       (\<lambda>r. r\<lparr>vr_state := Attached, vr_attachment_epoch := Some epoch,
             vr_last_attachment_epoch := Some epoch, vr_read_write := Some read_write,
             vr_error := None, vr_retryable := None\<rparr>)"

definition commit_view_failed ::
  "string \<Rightarrow> string \<Rightarrow> bool \<Rightarrow> lifecycle \<Rightarrow> lifecycle \<times> effect list" where
  "commit_view_failed local_view_id error retryable =
     set_view local_view_id
       (\<lambda>r. r\<lparr>vr_state := Failed, vr_attachment_epoch := None, vr_read_write := None,
             vr_error := Some error, vr_retryable := Some retryable\<rparr>)"

definition commit_view_pending :: "string \<Rightarrow> lifecycle \<Rightarrow> lifecycle \<times> effect list" where
  "commit_view_pending local_view_id s =
     (if (case fmlookup (ls_views s) local_view_id of
            None \<Rightarrow> False | Some r \<Rightarrow> vr_state r = Pending)
      then (s, []) else set_view local_view_id to_pending s)"

definition forget_view :: "string \<Rightarrow> lifecycle \<Rightarrow> lifecycle" where
  "forget_view local_view_id s = s\<lparr>ls_views := fmdrop local_view_id (ls_views s)\<rparr>"

section \<open>Identity and lookups\<close>

definition record_identity :: "string \<Rightarrow> u64 \<Rightarrow> lifecycle \<Rightarrow> lifecycle" where
  "record_identity host_instance_id session_epoch s =
     s\<lparr>ls_host_instance_id :=
          (case ls_host_instance_id s of None \<Rightarrow> Some host_instance_id | Some h \<Rightarrow> Some h),
       ls_session_epoch :=
          (case ls_session_epoch s of None \<Rightarrow> Some session_epoch | Some e \<Rightarrow> Some e)\<rparr>"

definition identity_matches :: "string \<Rightarrow> u64 \<Rightarrow> lifecycle \<Rightarrow> bool" where
  "identity_matches host_instance_id session_epoch s \<longleftrightarrow>
     (case ls_host_instance_id s of None \<Rightarrow> True | Some h \<Rightarrow> h = host_instance_id)
     \<and> (case ls_session_epoch s of None \<Rightarrow> True | Some e \<Rightarrow> e = session_epoch)"

definition resume_hint :: "string \<Rightarrow> u64 \<Rightarrow> lifecycle \<Rightarrow> resume_hint_rec option" where
  "resume_hint local_view_id terminal_revision s =
     Option.bind (fmlookup (ls_views s) local_view_id) (\<lambda>r.
     Option.bind (vr_last_attachment_epoch r) (\<lambda>previous_attachment_epoch.
     Option.bind (ls_session_epoch s) (\<lambda>previous_session_epoch.
       Some \<lparr>rh_previous_session_epoch = previous_session_epoch,
             rh_previous_attachment_epoch = previous_attachment_epoch,
             rh_previous_terminal_revision = terminal_revision\<rparr>)))"

definition current_attachment :: "string \<Rightarrow> lifecycle \<Rightarrow> (u64 \<times> bool) option" where
  "current_attachment local_view_id s =
     Option.bind (fmlookup (ls_views s) local_view_id) (\<lambda>r.
       if vr_state r \<noteq> Attached then None
       else Option.bind (vr_attachment_epoch r) (\<lambda>epoch.
            Option.bind (vr_read_write r) (\<lambda>rw. Some (epoch, rw))))"

definition local_view_id_for :: "string \<Rightarrow> lifecycle \<Rightarrow> string" where
  "local_view_id_for wire s =
     (case List.find (\<lambda>v. vr_wire_view_id (view_or_pending v s) = Some wire) (view_keys s) of
        Some v \<Rightarrow> v
      | None \<Rightarrow> (case local_view_id_from_wire wire of Some v \<Rightarrow> v | None \<Rightarrow> wire))"

definition snapshot :: "instant \<Rightarrow> lifecycle \<Rightarrow> lifecycle_snapshot" where
  "snapshot now s =
     \<lparr>sn_session_id = ls_session_id s, sn_lifecycle_seq = ls_seq s, sn_device_id = ls_device_id s,
      sn_device_name = ls_device_name s, sn_state = ls_state s, sn_reason = ls_reason s,
      sn_attempt = ls_attempt s, sn_next_retry_ms = next_retry_ms s,
      sn_last_contact_ms = last_contact_ms now s,
      sn_views = map (\<lambda>v. view_record_of v (view_or_pending v s)) (view_keys s)\<rparr>"

section \<open>Operations as steps\<close>

datatype lifecycle_op =
    AdmitState u64 u64 instant
  | NoteContact u64 instant
  | CommitHostShutdown u64 instant
  | ArmEngine engine
  | CancelEngine
  | SetNextRetry "duration option"
  | NoteWritten string u64
  | NotePurged string u64
  | ElectFeed
  | ReleaseFeed string
  | MarkPending
  | AdvanceGeneration
  | BindConnection u64
  | RecordView string
  | BeginAttempt string bool
  | ViewAttached string u64 bool
  | ViewFailed string string bool
  | ViewPending string
  | ForgetView string
  | RecordIdentity string u64
  | CommitSynchronizing instant
  | CommitLive instant
  | CommitReconnecting instant
  | CommitScheduledRetry u32 duration instant
  | CommitSuspended instant
  | CommitEnded ended_reason instant
  | CommitDisconnect u64 u64 instant

fun lifecycle_step ::
  "(bytes \<Rightarrow> bytes) \<Rightarrow> lifecycle_op \<Rightarrow> lifecycle \<Rightarrow> lifecycle \<times> effect list" where
  "lifecycle_step sha (AdmitState g i now) s = (snd (admit_state g i now s), [])"
| "lifecycle_step sha (NoteContact i now) s = (snd (note_contact i now s), [])"
| "lifecycle_step sha (CommitHostShutdown i now) s = snd (commit_host_shutdown i now s)"
| "lifecycle_step sha (ArmEngine e) s = arm_engine e s"
| "lifecycle_step sha CancelEngine s = cancel_engine s"
| "lifecycle_step sha (SetNextRetry d) s = (set_next_retry d s, [])"
| "lifecycle_step sha (NoteWritten v g) s = (note_view_written v g s, [])"
| "lifecycle_step sha (NotePurged v g) s = (note_purged v g s, [])"
| "lifecycle_step sha ElectFeed s = (snd (elect_feed s), [])"
| "lifecycle_step sha (ReleaseFeed v) s = (snd (release_feed v s), [])"
| "lifecycle_step sha MarkPending s = mark_views_pending s"
| "lifecycle_step sha AdvanceGeneration s = (snd (advance_generation s), [])"
| "lifecycle_step sha (BindConnection i) s = (bind_connection i s, [])"
| "lifecycle_step sha (RecordView v) s = (record_view v s, [])"
| "lifecycle_step sha (BeginAttempt v rotating) s = snd (begin_view_attempt sha v rotating s)"
| "lifecycle_step sha (ViewAttached v e rw) s = commit_view_attached v e rw s"
| "lifecycle_step sha (ViewFailed v err retryable) s = commit_view_failed v err retryable s"
| "lifecycle_step sha (ViewPending v) s = commit_view_pending v s"
| "lifecycle_step sha (ForgetView v) s = (forget_view v s, [])"
| "lifecycle_step sha (RecordIdentity h e) s = (record_identity h e s, [])"
| "lifecycle_step sha (CommitSynchronizing now) s = commit_synchronizing now s"
| "lifecycle_step sha (CommitLive now) s = commit_live now s"
| "lifecycle_step sha (CommitReconnecting now) s = commit_reconnecting now s"
| "lifecycle_step sha (CommitScheduledRetry n d now) s = commit_scheduled_retry n d now s"
| "lifecycle_step sha (CommitSuspended now) s = commit_suspended now s"
| "lifecycle_step sha (CommitEnded r now) s = commit_ended r now s"
| "lifecycle_step sha (CommitDisconnect g i now) s = snd (commit_disconnect g i now s)"

definition lifecycle_next :: "(bytes \<Rightarrow> bytes) \<Rightarrow> lifecycle_op \<Rightarrow> lifecycle \<Rightarrow> lifecycle" where
  "lifecycle_next sha x s = fst (lifecycle_step sha x s)"

fun lifecycle_events :: "(bytes \<Rightarrow> bytes) \<Rightarrow> lifecycle_op list \<Rightarrow> lifecycle \<Rightarrow> effect list" where
  "lifecycle_events sha [] s = []"
| "lifecycle_events sha (x # xs) s =
     snd (lifecycle_step sha x s) @ lifecycle_events sha xs (lifecycle_next sha x s)"

end
