(* ===== verification/Lifecycle_Runs.thy ===== *)
theory Lifecycle_Runs
  imports Session_Lifecycle
begin

text \<open>
  The lemmas of the session lifecycle: what each operation leaves unchanged, how transitions
  are published, and the interpretations of the step-system locales for its invariants.
\<close>

section \<open>Frames\<close>

lemma set_view_fields [simp]:
  "ls_session_id (fst (set_view v f s)) = ls_session_id s"
  "ls_device_id (fst (set_view v f s)) = ls_device_id s"
  "ls_device_name (fst (set_view v f s)) = ls_device_name s"
  "ls_state (fst (set_view v f s)) = ls_state s"
  "ls_reason (fst (set_view v f s)) = ls_reason s"
  "ls_seq (fst (set_view v f s)) = ls_seq s"
  "ls_attempt (fst (set_view v f s)) = ls_attempt s"
  "ls_generation (fst (set_view v f s)) = ls_generation s"
  "ls_incarnation (fst (set_view v f s)) = ls_incarnation s"
  "ls_last_contact (fst (set_view v f s)) = ls_last_contact s"
  "ls_host_instance_id (fst (set_view v f s)) = ls_host_instance_id s"
  "ls_session_epoch (fst (set_view v f s)) = ls_session_epoch s"
  "ls_feed_view_id (fst (set_view v f s)) = ls_feed_view_id s"
  "ls_next_retry (fst (set_view v f s)) = ls_next_retry s"
  "ls_disconnected (fst (set_view v f s)) = ls_disconnected s"
  "ls_engine (fst (set_view v f s)) = ls_engine s"
  by (simp_all add: set_view_def Let_def)

lemma set_views_Cons:
  "fst (set_views f (v # vs) s) = fst (set_views f vs (fst (set_view v f s)))"
  "snd (set_views f (v # vs) s) = snd (set_view v f s) @ snd (set_views f vs (fst (set_view v f s)))"
  by (simp_all add: case_prod_beta Let_def)

lemma set_views_fields [simp]:
  "ls_session_id (fst (set_views f vs s)) = ls_session_id s"
  "ls_device_id (fst (set_views f vs s)) = ls_device_id s"
  "ls_device_name (fst (set_views f vs s)) = ls_device_name s"
  "ls_state (fst (set_views f vs s)) = ls_state s"
  "ls_reason (fst (set_views f vs s)) = ls_reason s"
  "ls_seq (fst (set_views f vs s)) = ls_seq s"
  "ls_attempt (fst (set_views f vs s)) = ls_attempt s"
  "ls_generation (fst (set_views f vs s)) = ls_generation s"
  "ls_incarnation (fst (set_views f vs s)) = ls_incarnation s"
  "ls_last_contact (fst (set_views f vs s)) = ls_last_contact s"
  "ls_host_instance_id (fst (set_views f vs s)) = ls_host_instance_id s"
  "ls_session_epoch (fst (set_views f vs s)) = ls_session_epoch s"
  "ls_feed_view_id (fst (set_views f vs s)) = ls_feed_view_id s"
  "ls_next_retry (fst (set_views f vs s)) = ls_next_retry s"
  "ls_disconnected (fst (set_views f vs s)) = ls_disconnected s"
  "ls_engine (fst (set_views f vs s)) = ls_engine s"
  by (induction vs arbitrary: s) (simp_all add: set_views_Cons del: set_views.simps(2))

lemma cancel_engine_fields [simp]:
  "ls_session_id (fst (cancel_engine s)) = ls_session_id s"
  "ls_device_id (fst (cancel_engine s)) = ls_device_id s"
  "ls_device_name (fst (cancel_engine s)) = ls_device_name s"
  "ls_state (fst (cancel_engine s)) = ls_state s"
  "ls_reason (fst (cancel_engine s)) = ls_reason s"
  "ls_seq (fst (cancel_engine s)) = ls_seq s"
  "ls_attempt (fst (cancel_engine s)) = ls_attempt s"
  "ls_generation (fst (cancel_engine s)) = ls_generation s"
  "ls_incarnation (fst (cancel_engine s)) = ls_incarnation s"
  "ls_last_contact (fst (cancel_engine s)) = ls_last_contact s"
  "ls_host_instance_id (fst (cancel_engine s)) = ls_host_instance_id s"
  "ls_session_epoch (fst (cancel_engine s)) = ls_session_epoch s"
  "ls_feed_view_id (fst (cancel_engine s)) = ls_feed_view_id s"
  "ls_next_retry (fst (cancel_engine s)) = ls_next_retry s"
  "ls_disconnected (fst (cancel_engine s)) = ls_disconnected s"
  "ls_views (fst (cancel_engine s)) = ls_views s"
  by (simp_all add: cancel_engine_def split: option.splits)

lemma map_view_fields [simp]:
  "ls_session_id (map_view v f s) = ls_session_id s"
  "ls_device_id (map_view v f s) = ls_device_id s"
  "ls_device_name (map_view v f s) = ls_device_name s"
  "ls_state (map_view v f s) = ls_state s"
  "ls_reason (map_view v f s) = ls_reason s"
  "ls_seq (map_view v f s) = ls_seq s"
  "ls_attempt (map_view v f s) = ls_attempt s"
  "ls_generation (map_view v f s) = ls_generation s"
  "ls_incarnation (map_view v f s) = ls_incarnation s"
  "ls_last_contact (map_view v f s) = ls_last_contact s"
  "ls_host_instance_id (map_view v f s) = ls_host_instance_id s"
  "ls_session_epoch (map_view v f s) = ls_session_epoch s"
  "ls_feed_view_id (map_view v f s) = ls_feed_view_id s"
  "ls_next_retry (map_view v f s) = ls_next_retry s"
  "ls_disconnected (map_view v f s) = ls_disconnected s"
  "ls_engine (map_view v f s) = ls_engine s"
  by (simp_all add: map_view_def split: option.splits)

section \<open>Published transitions\<close>

text \<open>The transitions a list of effects announces: sequence number, state and reason.\<close>

fun announced :: "effect \<Rightarrow> (u64 \<times> lifecycle_state \<times> ended_reason option) option" where
  "announced (LifecycleEvent c) = Some (lc_lifecycle_seq c, lc_state c, lc_reason c)"
| "announced _ = None"

definition transitions :: "effect list \<Rightarrow> (u64 \<times> lifecycle_state \<times> ended_reason option) list" where
  "transitions es = List.map_filter announced es"

definition current :: "lifecycle \<Rightarrow> u64 \<times> lifecycle_state \<times> ended_reason option" where
  "current s = (ls_seq s, ls_state s, ls_reason s)"

lemma transitions_simps [simp]:
  "transitions [] = []"
  "transitions (e # es) = (case announced e of None \<Rightarrow> transitions es | Some t \<Rightarrow> t # transitions es)"
  "transitions (es @ es') = transitions es @ transitions es'"
  by (simp_all add: transitions_def List.map_filter_def split: option.splits)

lemma set_view_silent [simp]: "transitions (snd (set_view v f s)) = []"
  by (simp add: set_view_def publish_view_def Let_def)

lemma set_views_silent [simp]: "transitions (snd (set_views f vs s)) = []"
  by (induction vs arbitrary: s) (simp_all add: set_views_Cons del: set_views.simps(2))

lemma cancel_engine_silent [simp]: "transitions (snd (cancel_engine s)) = []"
  by (simp add: cancel_engine_def split: option.splits)

text \<open>
  A step leaves the state, reason and sequence number alone and announces nothing, or it
  advances the sequence number by one and announces the triple it leaves.
\<close>

definition steps_quietly where
  "steps_quietly s s' es \<longleftrightarrow> transitions es = [] \<and> current s' = current s"

definition steps_loudly where
  "steps_loudly s s' es \<longleftrightarrow> transitions es = [current s'] \<and> ls_seq s' = sat_add (ls_seq s) 1"

lemma advance_loud: "steps_loudly s (fst (advance now st r s)) (snd (advance now st r s))"
  by (simp add: advance_def steps_loudly_def publish_def current_def Let_def)

lemma end_session_step:
  "steps_quietly s (fst (end_session r now s)) (snd (end_session r now s))
   \<or> ls_state s \<noteq> Ended \<and> ls_state (fst (end_session r now s)) = Ended
     \<and> ls_reason (fst (end_session r now s)) = Some r
     \<and> steps_loudly s (fst (end_session r now s)) (snd (end_session r now s))"
  by (simp add: end_session_def advance_def steps_quietly_def steps_loudly_def publish_def
      current_def case_prod_beta Let_def)

lemmas transition_defs = commit_synchronizing_def commit_live_def commit_reconnecting_def
  commit_scheduled_retry_def commit_suspended_def commit_disconnect_def commit_ended_def
  commit_host_shutdown_def end_session_def mark_views_pending_def advance_def
lemmas view_op_defs = begin_view_attempt_def commit_view_attached_def commit_view_failed_def
  commit_view_pending_def record_view_def forget_view_def note_view_written_def note_purged_def
  admit_state_def note_contact_def elect_feed_def release_feed_def advance_generation_def
  record_identity_def arm_engine_def bind_connection_def set_next_retry_def

lemma lifecycle_step_transitions:
  "steps_quietly s (lifecycle_next sha x s) (snd (lifecycle_step sha x s))
   \<or> steps_loudly s (lifecycle_next sha x s) (snd (lifecycle_step sha x s))"
  by (cases x)
    (simp_all add: lifecycle_next_def steps_quietly_def steps_loudly_def current_def publish_def
      transition_defs view_op_defs case_prod_beta Let_def split: option.splits)

section \<open>Runs\<close>

lemma lifecycle_seq_step:
  "unat (ls_seq s) < 2 ^ 64 - 1 \<Longrightarrow>
     current (lifecycle_next sha x s) = current s \<and> transitions (snd (lifecycle_step sha x s)) = []
   \<or> unat (ls_seq (lifecycle_next sha x s)) = Suc (unat (ls_seq s))
     \<and> transitions (snd (lifecycle_step sha x s)) = [current (lifecycle_next sha x s)]"
  using lifecycle_step_transitions [of s sha x]
  by (auto simp: steps_quietly_def steps_loudly_def unat_sat_add)

lemma transitions_run:
  "unat (ls_seq s) + length (transitions (lifecycle_events sha xs s)) < 2 ^ 64 \<Longrightarrow>
     map (unat \<circ> fst) (transitions (lifecycle_events sha xs s))
       = [Suc (unat (ls_seq s)) ..< Suc (unat (ls_seq s) + length (transitions (lifecycle_events sha xs s)))]
     \<and> last (current s # transitions (lifecycle_events sha xs s))
       = current (fold (lifecycle_next sha) xs s)"
proof (induction xs arbitrary: s)
  case Nil
  then show ?case by simp
next
  case (Cons x xs)
  let ?s = "lifecycle_next sha x s"
  let ?rest = "transitions (lifecycle_events sha xs ?s)"
  consider (quiet) "current ?s = current s" "transitions (snd (lifecycle_step sha x s)) = []"
    | (loud) "transitions (snd (lifecycle_step sha x s)) = [current ?s]"
        "ls_seq ?s = sat_add (ls_seq s) 1"
    using lifecycle_step_transitions [of s sha x] by (auto simp: steps_quietly_def steps_loudly_def)
  then show ?case
  proof cases
    case quiet
    then have "ls_seq ?s = ls_seq s" by (simp add: current_def)
    with Cons.IH [of ?s] Cons.prems quiet show ?thesis by simp
  next
    case loud
    with Cons.prems have room: "Suc (unat (ls_seq s)) < 2 ^ 64 - length ?rest" by simp
    then have seq: "unat (ls_seq ?s) = Suc (unat (ls_seq s))"
      using loud(2) by (simp add: unat_sat_add)
    then have "unat (ls_seq ?s) + length ?rest < 2 ^ 64" using room by simp
    from Cons.IH [OF this] loud(1) seq show ?thesis
      by (simp add: current_def upt_conv_Cons del: upt_Suc)
  qed
qed

text \<open>The one transition that does not ask whether the session has ended.\<close>

fun revives :: "lifecycle_op \<Rightarrow> bool" where
  "revives (CommitReconnecting _) = True"
| "revives _ = False"

lemma ended_step:
  "ls_state s = Ended \<Longrightarrow> \<not> revives x \<Longrightarrow>
     current (lifecycle_next sha x s) = current s \<and> transitions (snd (lifecycle_step sha x s)) = []"
  by (cases x)
    (simp_all add: lifecycle_next_def current_def transition_defs view_op_defs case_prod_beta Let_def
      split: option.splits)

lemma ended_step_state:
  "\<not> revives x \<Longrightarrow> ls_state s = Ended \<and> current s = c \<Longrightarrow>
     ls_state (lifecycle_next sha x s) = Ended \<and> current (lifecycle_next sha x s) = c"
  using ended_step [of s x sha] by (auto simp: current_def)

interpretation ended: guarded_system "lifecycle_next sha" "\<lambda>x. \<not> revives x"
    "\<lambda>s. ls_state s = Ended \<and> current s = c" for sha c
  by unfold_locales (rule ended_step_state)

lemma ended_events:
  "ls_state s = Ended \<Longrightarrow> list_all (\<lambda>x. \<not> revives x) xs \<Longrightarrow>
     transitions (lifecycle_events sha xs s) = []"
proof (induction xs arbitrary: s)
  case Nil
  then show ?case by simp
next
  case (Cons x xs)
  then show ?case using ended_step [of s x sha] by (simp add: current_def)
qed

lemma generation_step: "ls_generation s \<le> ls_generation (lifecycle_next sha x s)"
  by (cases x)
    (simp_all add: lifecycle_next_def transition_defs view_op_defs case_prod_beta Let_def
      split: option.splits)

interpretation lifecycle_generation: ranked_system "lifecycle_next sha" "\<lambda>_. True" ls_generation for sha
  by unfold_locales (simp_all add: generation_step)

section \<open>Disconnects\<close>

text \<open>The disconnect of this generation and incarnation has been acted on, or is out of date.\<close>

definition disconnect_spent :: "u64 \<Rightarrow> u64 \<Rightarrow> lifecycle \<Rightarrow> bool" where
  "disconnect_spent g i s \<longleftrightarrow> g \<le> ls_generation s
     \<and> (ls_disconnected s = Some (g, i) \<or> ls_incarnation s \<noteq> i \<or> g < ls_generation s)"

fun rebinds :: "u64 \<Rightarrow> lifecycle_op \<Rightarrow> bool" where
  "rebinds i (BindConnection i') = (i' = i)"
| "rebinds i _ = False"

lemma disconnect_frame:
  "\<forall>i. x \<noteq> BindConnection i \<Longrightarrow> \<forall>g i now. x \<noteq> CommitDisconnect g i now \<Longrightarrow>
     ls_disconnected (lifecycle_next sha x s) = ls_disconnected s
     \<and> ls_incarnation (lifecycle_next sha x s) = ls_incarnation s"
  by (cases x)
    (simp_all add: lifecycle_next_def transition_defs view_op_defs case_prod_beta Let_def
      split: option.splits)

lemma disconnect_spent_step:
  assumes "\<not> rebinds i x" and spent: "disconnect_spent g i s"
  shows "disconnect_spent g i (lifecycle_next sha x s)"
proof (cases x)
  case (BindConnection i')
  with assms show ?thesis by (auto simp: disconnect_spent_def lifecycle_next_def bind_connection_def)
next
  case (CommitDisconnect g' i' now)
  with spent show ?thesis
    by (auto simp: disconnect_spent_def lifecycle_next_def commit_disconnect_def
        mark_views_pending_def advance_def case_prod_beta Let_def)
qed (use spent disconnect_frame [of x sha s] generation_step [of s sha x] in
    \<open>force simp: disconnect_spent_def\<close>)+

interpretation disconnect: guarded_system "lifecycle_next sha" "\<lambda>x. \<not> rebinds i x"
    "disconnect_spent g i" for sha g i
  by unfold_locales (rule disconnect_spent_step)

lemma disconnect_spent_refuses:
  "disconnect_spent g i s \<Longrightarrow> commit_disconnect g i now s = (False, s, [])"
  by (auto simp: disconnect_spent_def commit_disconnect_def)

lemma committed_disconnect_spent:
  "fst (commit_disconnect g i now s) \<Longrightarrow> disconnect_spent g i (fst (snd (commit_disconnect g i now s)))"
  by (auto simp: disconnect_spent_def commit_disconnect_def mark_views_pending_def advance_def
      case_prod_beta Let_def split: if_splits)

section \<open>Views\<close>

lemma lookup_set_view:
  "fmlookup (ls_views (fst (set_view v f s))) w =
     (if w = v then Some ((f (view_or_pending v s))
          \<lparr>vr_view_state_seq := sat_add (vr_view_state_seq (f (view_or_pending v s))) 1\<rparr>)
      else fmlookup (ls_views s) w)"
  by (simp add: set_view_def Let_def)

text \<open>
  A predicate on records (and on the pending record views start from) that a mutation keeps,
  whatever the view's sequence number, is kept for every view by every update.
\<close>

definition all_views :: "(string \<Rightarrow> view_record \<Rightarrow> bool) \<Rightarrow> lifecycle \<Rightarrow> bool" where
  "all_views P s \<longleftrightarrow> (\<forall>v r. fmlookup (ls_views s) v = Some r \<longrightarrow> P v r)"

lemma all_views_upd [simp]:
  "all_views P (s\<lparr>ls_session_id := x_session_id\<rparr>) = all_views P s"
  "all_views P (s\<lparr>ls_device_id := x_device_id\<rparr>) = all_views P s"
  "all_views P (s\<lparr>ls_device_name := x_device_name\<rparr>) = all_views P s"
  "all_views P (s\<lparr>ls_state := x_state\<rparr>) = all_views P s"
  "all_views P (s\<lparr>ls_reason := x_reason\<rparr>) = all_views P s"
  "all_views P (s\<lparr>ls_seq := x_seq\<rparr>) = all_views P s"
  "all_views P (s\<lparr>ls_attempt := x_attempt\<rparr>) = all_views P s"
  "all_views P (s\<lparr>ls_generation := x_generation\<rparr>) = all_views P s"
  "all_views P (s\<lparr>ls_incarnation := x_incarnation\<rparr>) = all_views P s"
  "all_views P (s\<lparr>ls_last_contact := x_last_contact\<rparr>) = all_views P s"
  "all_views P (s\<lparr>ls_host_instance_id := x_host_instance_id\<rparr>) = all_views P s"
  "all_views P (s\<lparr>ls_session_epoch := x_session_epoch\<rparr>) = all_views P s"
  "all_views P (s\<lparr>ls_feed_view_id := x_feed_view_id\<rparr>) = all_views P s"
  "all_views P (s\<lparr>ls_next_retry := x_next_retry\<rparr>) = all_views P s"
  "all_views P (s\<lparr>ls_disconnected := x_disconnected\<rparr>) = all_views P s"
  "all_views P (s\<lparr>ls_engine := x_engine\<rparr>) = all_views P s"
  by (simp_all add: all_views_def)

lemma view_or_pending_set_view:
  "view_or_pending w (fst (set_view v f s)) =
     (if w = v then (f (view_or_pending v s))
          \<lparr>vr_view_state_seq := sat_add (vr_view_state_seq (f (view_or_pending v s))) 1\<rparr>
      else view_or_pending w s)"
  by (simp add: view_or_pending_def lookup_set_view)

lemma all_views_set_view:
  assumes "all_views P s" and "P v pending_view"
    and "\<And>r n. P v r \<Longrightarrow> P v ((f r)\<lparr>vr_view_state_seq := n\<rparr>)"
  shows "all_views P (fst (set_view v f s))"
  using assms by (auto simp: all_views_def lookup_set_view view_or_pending_def split: option.splits)

lemma all_views_set_views:
  assumes "\<And>v. P v pending_view"
    and "\<And>v r n. P v r \<Longrightarrow> P v ((f r)\<lparr>vr_view_state_seq := n\<rparr>)"
  shows "all_views P s \<Longrightarrow> all_views P (fst (set_views f vs s))"
proof (induction vs arbitrary: s)
  case Nil
  then show ?case by simp
next
  case (Cons v vs)
  have "all_views P (fst (set_view v f s))"
    by (rule all_views_set_view [OF Cons.prems assms])
  then show ?case by (simp only: set_views_Cons) (rule Cons.IH)
qed

text \<open>A field that a mutation does not touch survives any number of updates.\<close>

lemma set_views_keep:
  assumes "\<And>r n. g ((f r)\<lparr>vr_view_state_seq := n\<rparr>) = g r"
  shows "g (view_or_pending w (fst (set_views f vs s))) = g (view_or_pending w s)"
  by (induction vs arbitrary: s)
    (simp_all add: set_views_Cons view_or_pending_set_view assms del: set_views.simps(2))

lemma view_or_pending_cong: "ls_views s' = ls_views s \<Longrightarrow> view_or_pending v s' = view_or_pending v s"
  by (simp add: view_or_pending_def)

text \<open>
  The effect of any operation on a property of all views: nothing, some views made pending, or
  one of five updates of a single view.
\<close>

lemma all_views_step:
  assumes "all_views P s" and "\<And>v. P v pending_view"
    and "\<And>v r n. P v r \<Longrightarrow> P v ((to_pending r)\<lparr>vr_view_state_seq := n\<rparr>)"
    and "\<And>v r n g wire. P v r \<Longrightarrow> g = sat_add (vr_generation r) 1 \<Longrightarrow>
           P v ((to_pending r)\<lparr>vr_generation := g, vr_wire_view_id := wire, vr_error := None,
                  vr_retryable := None, vr_view_state_seq := n\<rparr>)"
    and "\<And>v r n e rw. P v r \<Longrightarrow>
           P v (r\<lparr>vr_state := Attached, vr_attachment_epoch := Some e,
                 vr_last_attachment_epoch := Some e, vr_read_write := Some rw,
                 vr_error := None, vr_retryable := None, vr_view_state_seq := n\<rparr>)"
    and "\<And>v r n err t. P v r \<Longrightarrow>
           P v (r\<lparr>vr_state := Failed, vr_attachment_epoch := None, vr_read_write := None,
                 vr_error := Some err, vr_retryable := Some t, vr_view_state_seq := n\<rparr>)"
    and "\<And>v r g. P v r \<Longrightarrow> P v (r\<lparr>vr_written := max (vr_written r) g\<rparr>)"
    and "\<And>v r g. P v r \<Longrightarrow>
           P v (r\<lparr>vr_oldest_unpurged := max (vr_oldest_unpurged r) (sat_add g 1)\<rparr>)"
  shows "all_views P (lifecycle_next sha x s)"
proof -
  have pend: "all_views P t \<Longrightarrow> all_views P (fst (set_views to_pending vs t))" for t vs
    by (rule all_views_set_views) (simp_all add: assms(2,3))
  show ?thesis
  proof (cases x)
  case (BeginAttempt v rotating)
  let ?g = "sat_add (vr_generation (view_or_pending v s)) 1"
  have "P v (view_or_pending v s)"
    using assms(1,2) by (auto simp: view_or_pending_def all_views_def split: option.splits)
  then show ?thesis
    using assms(1) assms(4) [of v "view_or_pending v s" ?g]
    by (auto simp: BeginAttempt lifecycle_next_def begin_view_attempt_def Let_def all_views_def
        lookup_set_view to_pending_def)
next
  case (ViewAttached v e rw)
  then show ?thesis
    using assms(1,2,5) by (auto simp: lifecycle_next_def commit_view_attached_def intro: all_views_set_view)
next
  case (ViewFailed v err t)
  then show ?thesis
    using assms(1,2,6) by (auto simp: lifecycle_next_def commit_view_failed_def intro: all_views_set_view)
next
  case (ViewPending v)
  then show ?thesis
    using assms(1,2,3) by (auto simp: lifecycle_next_def commit_view_pending_def intro: all_views_set_view)
next
  case (NoteWritten v g)
  then show ?thesis
    using assms(1,7)
    by (auto simp: lifecycle_next_def note_view_written_def map_view_def all_views_def split: option.splits)
next
  case (NotePurged v g)
  then show ?thesis
    using assms(1,8)
    by (auto simp: lifecycle_next_def note_purged_def map_view_def all_views_def split: option.splits)
next
  case (RecordView v)
  then show ?thesis
    using assms(1,2)
    by (auto simp: lifecycle_next_def record_view_def view_or_pending_def all_views_def split: option.splits)
next
  case (ForgetView v)
  then show ?thesis
    using assms(1) by (auto simp: lifecycle_next_def forget_view_def all_views_def)
next
  case MarkPending
  then show ?thesis
    using pend [OF assms(1)] by (simp add: lifecycle_next_def mark_views_pending_def)
next
  case (CommitHostShutdown i now)
  then show ?thesis
    using pend assms(1)
    by (simp add: lifecycle_next_def commit_host_shutdown_def end_session_def advance_def
        cancel_engine_def case_prod_beta Let_def split: option.splits)
next
  case (CommitEnded r now)
  then show ?thesis
    using pend assms(1)
    by (simp add: lifecycle_next_def commit_ended_def end_session_def advance_def
        cancel_engine_def case_prod_beta Let_def split: option.splits)
next
  case (CommitDisconnect g i now)
  then show ?thesis
    using pend assms(1)
    by (simp add: lifecycle_next_def commit_disconnect_def mark_views_pending_def advance_def
        case_prod_beta Let_def)
qed (use assms(1) in \<open>simp_all add: lifecycle_next_def transition_defs cancel_engine_def admit_state_def
      note_contact_def elect_feed_def release_feed_def advance_generation_def record_identity_def
      arm_engine_def bind_connection_def set_next_retry_def case_prod_beta Let_def split: option.splits\<close>)
qed

section \<open>Readiness\<close>

text \<open>\<open>attachment_epoch\<close> and \<open>read_write\<close> are populated exactly while the view is attached.\<close>

definition ready_iff_attached :: "view_state \<Rightarrow> 'a option \<Rightarrow> 'b option \<Rightarrow> bool" where
  "ready_iff_attached st epoch rw \<longleftrightarrow>
     ((epoch \<noteq> None) = (st = Attached)) \<and> ((rw \<noteq> None) = (st = Attached))"

definition wf_record :: "string \<Rightarrow> view_record \<Rightarrow> bool" where
  "wf_record v r \<longleftrightarrow>
     ready_iff_attached (vr_state r) (vr_attachment_epoch r) (vr_read_write r)
     \<and> 0 < vr_oldest_unpurged r"

fun event_ok :: "effect \<Rightarrow> bool" where
  "event_ok (ViewEvent c) =
     ready_iff_attached (vc_view_state c) (vc_attachment_epoch c) (vc_read_write c)"
| "event_ok _ = True"

lemma wf_records_step: "all_views wf_record s \<Longrightarrow> all_views wf_record (lifecycle_next sha x s)"
  by (rule all_views_step)
    (auto simp: wf_record_def ready_iff_attached_def pending_view_def to_pending_def less_max_iff_disj)

interpretation records: step_system "lifecycle_next sha" "all_views wf_record" for sha
  by unfold_locales (rule wf_records_step)

lemma wf_new_lifecycle: "all_views wf_record (fst (new_lifecycle sid did dname h now))"
  by (simp add: new_lifecycle_def all_views_def Let_def)

lemma set_view_event_ok:
  assumes "all_views wf_record (fst (set_view v f s))"
  shows "list_all event_ok (snd (set_view v f s))"
proof -
  have "wf_record v (view_or_pending v (fst (set_view v f s)))"
    using assms by (auto simp: all_views_def view_or_pending_def lookup_set_view)
  then show ?thesis
    by (simp add: view_or_pending_set_view) (simp add: set_view_def publish_view_def wf_record_def Let_def)
qed

lemma wf_record_or_pending: "all_views wf_record s \<Longrightarrow> wf_record v (view_or_pending v s)"
  by (auto simp: all_views_def view_or_pending_def wf_record_def pending_view_def
      ready_iff_attached_def split: option.splits)

lemma wf_set_views_pending:
  "all_views wf_record s \<Longrightarrow> all_views wf_record (fst (set_views to_pending vs s))"
  by (rule all_views_set_views)
    (auto simp: wf_record_def ready_iff_attached_def pending_view_def to_pending_def)

lemma set_views_event_ok:
  "all_views wf_record s \<Longrightarrow> list_all event_ok (snd (set_views to_pending vs s))"
proof (induction vs arbitrary: s)
  case Nil
  then show ?case by simp
next
  case (Cons v vs)
  have "all_views wf_record (fst (set_view v to_pending s))"
    using wf_set_views_pending [OF Cons.prems, of "[v]"] by (simp only: set_views_Cons set_views.simps(1) fst_conv)
  with set_view_event_ok [OF this] Cons.IH [OF this] show ?case
    by (simp add: set_views_Cons del: set_views.simps(2))
qed

lemma publish_ok [simp]: "event_ok (publish now s)"
  by (simp add: publish_def)

lemma cancel_engine_ok [simp]: "list_all event_ok (snd (cancel_engine s))"
  by (simp add: cancel_engine_def split: option.splits)

lemma view_op_events_ok:
  assumes "all_views wf_record s"
  shows "list_all event_ok (snd (commit_view_attached v e rw s))"
    and "list_all event_ok (snd (commit_view_failed v err t s))"
    and "list_all event_ok (snd (commit_view_pending v s))"
    and "list_all event_ok (snd (snd (begin_view_attempt sha v rotating s)))"
  using wf_records_step [OF assms, of sha "ViewAttached v e rw"]
    wf_records_step [OF assms, of sha "ViewFailed v err t"]
    wf_records_step [OF assms, of sha "ViewPending v"]
    wf_records_step [OF assms, of sha "BeginAttempt v rotating"]
  by (auto simp: lifecycle_next_def commit_view_attached_def commit_view_failed_def
      commit_view_pending_def begin_view_attempt_def Let_def split: if_splits intro: set_view_event_ok)

lemma step_events_ok:
  assumes "all_views wf_record s"
  shows "list_all event_ok (snd (lifecycle_step sha x s))"
proof -
  have set: "list_all event_ok (snd (set_views to_pending vs (s\<lparr>ls_next_retry := n\<rparr>)))"
    "list_all event_ok (snd (set_views to_pending vs (s\<lparr>ls_disconnected := d\<rparr>)))"
    "list_all event_ok (snd (set_views to_pending vs s))"
    "list_all event_ok (snd (set_views to_pending vs (s\<lparr>ls_engine := e, ls_next_retry := n\<rparr>)))" for vs n d e
    by (rule set_views_event_ok; simp add: assms)+
  show ?thesis
    using set view_op_events_ok [OF assms]
    by (cases x) (simp_all add: transition_defs cancel_engine_def arm_engine_def case_prod_beta Let_def
        split: option.splits)
qed

lemma run_events_ok: "all_views wf_record s \<Longrightarrow> list_all event_ok (lifecycle_events sha xs s)"
  by (induction xs arbitrary: s) (auto simp: step_events_ok wf_records_step)

section \<open>View lineages\<close>

fun forgets :: "string \<Rightarrow> lifecycle_op \<Rightarrow> bool" where
  "forgets v (ForgetView v') = (v' = v)"
| "forgets v _ = False"

text \<open>What an attach attempt of view \<open>v\<close> puts on the wire: its identity and generation.\<close>

fun attempted :: "(bytes \<Rightarrow> bytes) \<Rightarrow> string \<Rightarrow> lifecycle_op \<Rightarrow> lifecycle \<Rightarrow> (string \<times> u64) list" where
  "attempted sha v (BeginAttempt v' rotating) s =
     (if v' = v then [fst (begin_view_attempt sha v' rotating s)] else [])"
| "attempted sha v _ s = []"

fun attempts :: "(bytes \<Rightarrow> bytes) \<Rightarrow> string \<Rightarrow> lifecycle_op list \<Rightarrow> lifecycle \<Rightarrow> (string \<times> u64) list" where
  "attempts sha v [] s = []"
| "attempts sha v (x # xs) s = attempted sha v x s @ attempts sha v xs (lifecycle_next sha x s)"

definition lineage :: "string \<Rightarrow> lifecycle \<Rightarrow> u64" where
  "lineage v s = vr_generation (view_or_pending v s)"

definition purge_floor :: "string \<Rightarrow> lifecycle \<Rightarrow> u64" where
  "purge_floor v s = vr_oldest_unpurged (view_or_pending v s)"

lemma view_or_pending_upd [simp]:
  "view_or_pending v (s\<lparr>ls_session_id := x_session_id\<rparr>) = view_or_pending v s"
  "view_or_pending v (s\<lparr>ls_device_id := x_device_id\<rparr>) = view_or_pending v s"
  "view_or_pending v (s\<lparr>ls_device_name := x_device_name\<rparr>) = view_or_pending v s"
  "view_or_pending v (s\<lparr>ls_state := x_state\<rparr>) = view_or_pending v s"
  "view_or_pending v (s\<lparr>ls_reason := x_reason\<rparr>) = view_or_pending v s"
  "view_or_pending v (s\<lparr>ls_seq := x_seq\<rparr>) = view_or_pending v s"
  "view_or_pending v (s\<lparr>ls_attempt := x_attempt\<rparr>) = view_or_pending v s"
  "view_or_pending v (s\<lparr>ls_generation := x_generation\<rparr>) = view_or_pending v s"
  "view_or_pending v (s\<lparr>ls_incarnation := x_incarnation\<rparr>) = view_or_pending v s"
  "view_or_pending v (s\<lparr>ls_last_contact := x_last_contact\<rparr>) = view_or_pending v s"
  "view_or_pending v (s\<lparr>ls_host_instance_id := x_host_instance_id\<rparr>) = view_or_pending v s"
  "view_or_pending v (s\<lparr>ls_session_epoch := x_session_epoch\<rparr>) = view_or_pending v s"
  "view_or_pending v (s\<lparr>ls_feed_view_id := x_feed_view_id\<rparr>) = view_or_pending v s"
  "view_or_pending v (s\<lparr>ls_next_retry := x_next_retry\<rparr>) = view_or_pending v s"
  "view_or_pending v (s\<lparr>ls_disconnected := x_disconnected\<rparr>) = view_or_pending v s"
  "view_or_pending v (s\<lparr>ls_engine := x_engine\<rparr>) = view_or_pending v s"
  by (simp_all add: view_or_pending_def)

lemma view_or_pending_map:
  "view_or_pending w (map_view v f s) =
     (if w = v \<and> fmlookup (ls_views s) v \<noteq> None then f (view_or_pending v s) else view_or_pending w s)"
  by (auto simp: map_view_def view_or_pending_def split: option.splits)

lemma view_or_pending_record [simp]: "view_or_pending w (record_view v s) = view_or_pending w s"
  by (auto simp: record_view_def view_or_pending_def split: option.splits)

lemma view_or_pending_forget:
  "w \<noteq> v \<Longrightarrow> view_or_pending w (forget_view v s) = view_or_pending w s"
  by (simp add: forget_view_def view_or_pending_def)

lemma view_or_pending_cancel [simp]: "view_or_pending w (fst (cancel_engine s)) = view_or_pending w s"
  by (simp add: view_or_pending_def)

lemmas keep_pending =
  set_views_keep [where f = to_pending and g = vr_generation]
  set_views_keep [where f = to_pending and g = vr_oldest_unpurged]

lemma keep_pending_fields [simp]:
  "vr_generation (view_or_pending w (fst (set_views to_pending vs s))) = vr_generation (view_or_pending w s)"
  "vr_oldest_unpurged (view_or_pending w (fst (set_views to_pending vs s)))
     = vr_oldest_unpurged (view_or_pending w s)"
  by (rule keep_pending; simp add: to_pending_def)+

lemmas lineage_defs = lineage_def purge_floor_def lifecycle_next_def transition_defs case_prod_beta
  Let_def begin_view_attempt_def commit_view_attached_def commit_view_failed_def
  commit_view_pending_def note_view_written_def note_purged_def
  admit_state_def note_contact_def elect_feed_def release_feed_def advance_generation_def
  record_identity_def arm_engine_def bind_connection_def set_next_retry_def view_or_pending_set_view view_or_pending_map to_pending_def

lemma lineage_step:
  "\<not> forgets v x \<Longrightarrow> lineage v (lifecycle_next sha x s) =
     (if attempted sha v x s = [] then lineage v s else sat_add (lineage v s) 1)"
  by (cases x) (auto simp: lineage_defs view_or_pending_forget)

lemma attempted_or:
  "attempted sha v x s = []
   \<or> (\<exists>rotating. attempted sha v x s = [(attempt_wire_id sha v rotating (sat_add (lineage v s) 1),
         sat_add (lineage v s) 1)])"
  by (cases x) (auto simp: begin_view_attempt_def Let_def lineage_def)

lemma purge_floor_step: "\<not> forgets v x \<Longrightarrow> purge_floor v s \<le> purge_floor v (lifecycle_next sha x s)"
  by (cases x) (auto simp: lineage_defs view_or_pending_forget)

lemma floor_guarded: "\<not> forgets v x \<Longrightarrow> g \<le> purge_floor v s \<Longrightarrow> g \<le> purge_floor v (lifecycle_next sha x s)"
  using purge_floor_step [of v x s sha] by simp

interpretation purge: guarded_system "lifecycle_next sha" "\<lambda>x. \<not> forgets v x"
    "\<lambda>s. g \<le> purge_floor v s" for sha v g
  by unfold_locales (rule floor_guarded)

lemma attempts_run:
  "list_all (\<lambda>x. \<not> forgets v x) xs \<Longrightarrow> unat (lineage v s) + length xs < 2 ^ 64 \<Longrightarrow>
     sorted_wrt (<) (map snd (attempts sha v xs s))
     \<and> (\<forall>(wire, g) \<in> set (attempts sha v xs s). lineage v s < g
          \<and> (\<exists>rotating. wire = attempt_wire_id sha v rotating g))"
proof (induction xs arbitrary: s)
  case Nil
  then show ?case by simp
next
  case (Cons x xs)
  let ?s = "lifecycle_next sha x s"
  have keep: "\<not> forgets v x" "list_all (\<lambda>x. \<not> forgets v x) xs" using Cons.prems(1) by simp_all
  have lt: "lineage v s < sat_add (lineage v s) 1"
    using Cons.prems(2) by (intro sat_inc_gt) (auto simp: unat_max_word)
  have bound: "unat (lineage v ?s) + length xs < 2 ^ 64"
    using Cons.prems(2) by (simp add: lineage_step [OF keep(1)] unat_sat_add)
  note IH = Cons.IH [OF keep(2) bound]
  show ?case
  proof (cases "attempted sha v x s = []")
    case True
    with IH show ?thesis by (simp add: lineage_step [OF keep(1)])
  next
    case False
    then obtain rotating where
      a: "attempted sha v x s = [(attempt_wire_id sha v rotating (sat_add (lineage v s) 1), sat_add (lineage v s) 1)]"
      using attempted_or [of sha v x s] by blast
    have "lineage v ?s = sat_add (lineage v s) 1" using False by (simp add: lineage_step [OF keep(1)])
    with IH a lt show ?thesis by (fastforce intro: less_trans)
  qed
qed

section \<open>Wire identities\<close>

lemma hash_no_digit: "list_all is_digit ds \<Longrightarrow> CHR ''#'' \<notin> set ds"
  by (auto simp: list_all_iff is_digit_def)

lemma rsplit_none: "CHR ''#'' \<notin> set s \<Longrightarrow> rsplit_once ''#g'' s = None"
  by (induction s) auto

lemma rsplit_last: "CHR ''#'' \<notin> set ds \<Longrightarrow> rsplit_once ''#g'' (base @ ''#g'' @ ds) = Some (base, ds)"
  by (induction base) (simp_all add: rsplit_none)

lemma rsplit_wire:
  "rsplit_once ''#g'' (wire_view_id sha v g) = Some (stable_wire_view_id sha v, decimal (unat g))"
  unfolding wire_view_id_def by (intro rsplit_last hash_no_digit) simp

lemma wire_view_id_inject:
  "wire_view_id sha v g = wire_view_id sha w h \<longleftrightarrow>
     stable_wire_view_id sha v = stable_wire_view_id sha w \<and> g = h"
proof
  assume "wire_view_id sha v g = wire_view_id sha w h"
  then have "Some (stable_wire_view_id sha v, decimal (unat g))
      = Some (stable_wire_view_id sha w, decimal (unat h))"
    using rsplit_wire [of sha v g] rsplit_wire [of sha w h] by simp
  then show "stable_wire_view_id sha v = stable_wire_view_id sha w \<and> g = h" by (simp add: word_unat_eq_iff)
qed (simp add: wire_view_id_def)

lemma length_concat_hex [simp]: "length (concat (map hex_byte bs)) = 2 * length bs"
  by (induction bs) simp_all

lemma stable_wire_length: "length (stable_wire_view_id sha v) \<le> 100"
  by (auto simp: stable_wire_view_id_def MAX_INLINE_LOCAL_VIEW_ID_BYTES_def min_def)

lemma wire_length: "length (wire_view_id sha v g) \<le> 122"
proof -
  have "length (decimal (unat g)) \<le> 20"
    by (rule decimal_length) (use unsigned_less [of g, where ?'a = nat] in simp_all)
  then show ?thesis using stable_wire_length [of sha v] by (simp add: wire_view_id_def)
qed

section \<open>Feed election\<close>

lemma sorted_view_keys: "sorted (view_keys s)" "set (view_keys s) = fset (fmdom (ls_views s))"
  by (simp_all add: view_keys_def sorted_list_of_fset.rep_eq)

lemma find_sorted:
  "sorted xs \<Longrightarrow> List.find P xs = Some x \<longleftrightarrow> x \<in> set xs \<and> P x \<and> (\<forall>y \<in> set xs. P y \<longrightarrow> x \<le> y)"
  by (induction xs) auto

section \<open>Purge ranges\<close>

lemma purgeable_iff:
  "(v, lo, hi) \<in> set (purgeable_generations s) \<longleftrightarrow>
     v \<in> set (view_keys s) \<and> purgeable_range (view_or_pending v s) = Some (lo, hi)"
  by (auto simp: purgeable_generations_def List.map_filter_def image_iff)

lemma purgeable_range_bounds:
  assumes "purgeable_range r = Some (lo, hi)" and "0 < vr_oldest_unpurged r"
  shows "lo = vr_oldest_unpurged r \<and> lo \<le> hi \<and> hi \<le> vr_written r \<and> hi < vr_generation r"
proof -
  have hi: "lo = vr_oldest_unpurged r" "lo \<le> hi" "hi \<le> vr_written r"
    "hi \<le> sat_sub (vr_generation r) 1"
    using assms(1) by (auto simp: purgeable_range_def Let_def split: if_splits)
  moreover from this assms(2) have "0 < sat_sub (vr_generation r) 1"
    by (metis order.strict_trans2)
  then have "sat_sub (vr_generation r) 1 < vr_generation r" by (rule sat_sub_1_less)
  ultimately show ?thesis by (auto intro: order.strict_trans1)
qed

end
