(* ===== verification/View_Authority.thy ===== *)
theory View_Authority
  imports Step_Systems
begin

text \<open>
  The multi-view attachment, control, resize and input-deduplication policy of
  \<open>ghosttea-core/src/authority.rs\<close>: the \<open>ViewAuthority\<close> record, one definition per
  method, the step function over its operations, its well-formedness invariant and the facts
  about runs that the protocol rests on. A method that fails returns \<open>Inl\<close> of its error with
  the state it leaves; a cancel handle it fires is listed in its result; a panic is \<open>None\<close>.
\<close>

section \<open>Data\<close>

definition MAX_VIEW_ID_BYTES :: nat where "MAX_VIEW_ID_BYTES = 128"
definition MAX_ATTACH_WATERMARKS_PER_CLIENT :: nat where "MAX_ATTACH_WATERMARKS_PER_CLIENT = 256"

datatype view_access = ReadOnly | ReadWrite

record controller_state =
  co_view_id :: string
  co_client_id :: string
  co_control_epoch :: u64
  co_attachment_epoch :: u64

record control_snapshot_rec =
  cs_controller :: "controller_state option"
  cs_control_revision :: u64
  cs_cols :: u16
  cs_rows :: u16
  cs_layout_epoch :: u64

record control_changed =
  cc_controller :: controller_state
  cc_cols :: u16
  cc_rows :: u16
  cc_layout_epoch :: u64
  cc_size_changed :: bool

datatype control_claim = Granted control_changed | Rejected control_snapshot_rec

record resume_evidence =
  re_previous_session_epoch :: u64
  re_previous_attachment_epoch :: u64
  re_previous_terminal_revision :: u64

record take_over_request =
  tr_view_id :: string
  tr_client_id :: string
  tr_access :: view_access
  tr_attach_generation :: u64
  tr_fence_conn_id :: u64
  tr_session_epoch :: u64
  tr_resume :: "resume_evidence option"

record take_over_rec =
  to_attachment_epoch :: u64
  to_resumed :: bool
  to_controller_cleared :: bool
  to_controller :: "controller_state option"
  to_control_revision :: u64

datatype attach_rejection_code = StaleResume | ViewInvalid | ViewLimit | SessionEpochMismatch

text \<open>
  The detail of a rejection is a formatted string in the code; the model keeps the values the
  string is formatted from.
\<close>

datatype rejection_detail =
    InvalidViewIdDetail
  | EpochMismatchDetail u64 u64
  | StaleGenerationDetail u64 u64
  | OutstandingDetail nat
  | OtherClientDetail

record attach_rejection =
  ar_code :: attach_rejection_code
  ar_detail :: rejection_detail

text \<open>The messages of the \<open>bail!\<close>s, one constructor each.\<close>

datatype auth_error =
    InvalidViewId
  | AttachedByAnotherClient
  | NotAttached
  | BelongsToAnotherClient
  | StaleAttachmentEpoch
  | ReadOnlyControl
  | ReadOnlyView
  | StaleResizeController

text \<open>A \<open>StateStreamCancel\<close> closure is known by its identity: firing it is all a caller does.\<close>

type_synonym cancel = nat

record attach_watermark =
  wm_generation :: u64
  wm_fence_conn_id :: u64

record attached_view =
  av_client_id :: string
  av_access :: view_access
  av_attachment_epoch :: u64
  av_last_input_sequence :: u64
  av_last_resize_sequence :: u64
  av_state_stream :: "cancel option"

record prepared_resize =
  pr_resize_sequence :: u64
  pr_cols :: u16
  pr_rows :: u16
  pr_layout_epoch :: u64
  pr_size_changed :: bool

record view_authority =
  va_views :: "(string, attached_view) fmap"
  va_controller :: "controller_state option"
  va_next_control_epoch :: u64
  va_next_attachment_epoch :: u64
  va_control_revision :: u64
  va_attach_watermarks :: "(string, (string, attach_watermark) fmap) fmap"
  va_cols :: u16
  va_rows :: u16
  va_layout_epoch :: u64

section \<open>Operations\<close>

definition new_authority :: "u16 \<Rightarrow> u16 \<Rightarrow> view_authority" where
  "new_authority cols rows =
     \<lparr>va_views = fmempty, va_controller = None, va_next_control_epoch = 0,
      va_next_attachment_epoch = 0, va_control_revision = 1, va_attach_watermarks = fmempty,
      va_cols = cols, va_rows = rows, va_layout_epoch = 1\<rparr>"

definition invalid_view_id :: "string \<Rightarrow> bool" where
  "invalid_view_id view_id \<longleftrightarrow> view_id = [] \<or> length view_id > MAX_VIEW_ID_BYTES"

text \<open>The record an attach inserts: a fresh incarnation with nothing deduplicated yet.\<close>

definition fresh_view :: "string \<Rightarrow> view_access \<Rightarrow> u64 \<Rightarrow> attached_view" where
  "fresh_view client_id access epoch =
     \<lparr>av_client_id = client_id, av_access = access, av_attachment_epoch = epoch,
      av_last_input_sequence = 0, av_last_resize_sequence = 0, av_state_stream = None\<rparr>"

definition attach ::
  "string \<Rightarrow> string \<Rightarrow> view_access \<Rightarrow> view_authority \<Rightarrow> (auth_error + u64) \<times> view_authority" where
  "attach view_id client_id access a =
     (if invalid_view_id view_id then (Inl InvalidViewId, a)
      else case fmlookup (va_views a) view_id of
        Some existing \<Rightarrow>
          (if av_client_id existing = client_id then (Inr (av_attachment_epoch existing), a)
           else (Inl AttachedByAnotherClient, a))
      | None \<Rightarrow>
          let epoch = sat_add (va_next_attachment_epoch a) 1
          in (Inr epoch,
              a\<lparr>va_next_attachment_epoch := epoch,
                va_views := fmupd view_id (fresh_view client_id access epoch) (va_views a)\<rparr>))"

text \<open>Drop the controller if it names this view, reporting whether it did.\<close>

definition clear_controller_for_view :: "string \<Rightarrow> view_authority \<Rightarrow> bool \<times> view_authority" where
  "clear_controller_for_view view_id a =
     (case va_controller a of
        None \<Rightarrow> (False, a)
      | Some c \<Rightarrow>
          if co_view_id c \<noteq> view_id then (False, a)
          else (True, a\<lparr>va_controller := None,
                        va_control_revision := sat_add (va_control_revision a) 1\<rparr>))"

definition watermark_of :: "string \<Rightarrow> string \<Rightarrow> view_authority \<Rightarrow> attach_watermark option" where
  "watermark_of client_id view_id a =
     Option.bind (fmlookup (va_attach_watermarks a) client_id) (\<lambda>views. fmlookup views view_id)"

definition attach_watermark_count :: "string \<Rightarrow> view_authority \<Rightarrow> nat" where
  "attach_watermark_count client_id a =
     (case fmlookup (va_attach_watermarks a) client_id of None \<Rightarrow> 0 | Some views \<Rightarrow> fm_len views)"

definition reject :: "attach_rejection_code \<Rightarrow> rejection_detail \<Rightarrow> attach_rejection option" where
  "reject code detail = Some \<lparr>ar_code = code, ar_detail = detail\<rparr>"

text \<open>
  The validations of \<open>take_over\<close>, in the order the code makes them: the first that fails is
  the rejection, \<open>None\<close> means the attempt is accepted.
\<close>

definition take_over_rejection :: "take_over_request \<Rightarrow> view_authority \<Rightarrow> attach_rejection option" where
  "take_over_rejection r a =
     (if invalid_view_id (tr_view_id r) then reject ViewInvalid InvalidViewIdDetail
      else case (case tr_resume r of
          None \<Rightarrow> None
        | Some resume \<Rightarrow>
            if re_previous_session_epoch resume \<noteq> tr_session_epoch r
            then reject SessionEpochMismatch
                   (EpochMismatchDetail (re_previous_session_epoch resume) (tr_session_epoch r))
            else None) of
        Some rejection \<Rightarrow> Some rejection
      | None \<Rightarrow>
      (case (case watermark_of (tr_client_id r) (tr_view_id r) a of
          Some watermark \<Rightarrow>
            if tr_attach_generation r \<le> wm_generation watermark
            then reject StaleResume
                   (StaleGenerationDetail (tr_attach_generation r) (wm_generation watermark))
            else None
        | None \<Rightarrow>
            let outstanding = attach_watermark_count (tr_client_id r) a
            in if outstanding \<ge> MAX_ATTACH_WATERMARKS_PER_CLIENT
               then reject ViewLimit (OutstandingDetail outstanding)
               else None) of
        Some rejection \<Rightarrow> Some rejection
      | None \<Rightarrow>
      (case fmlookup (va_views a) (tr_view_id r) of
        Some existing \<Rightarrow>
          if av_client_id existing \<noteq> tr_client_id r
          then reject ViewInvalid OtherClientDetail else None
      | None \<Rightarrow> None)))"

text \<open>\<open>entry(client).or_default().insert(view, watermark)\<close>.\<close>

definition put_watermark ::
  "string \<Rightarrow> string \<Rightarrow> attach_watermark \<Rightarrow> view_authority \<Rightarrow> view_authority" where
  "put_watermark client_id view_id w a =
     a\<lparr>va_attach_watermarks :=
         fmupd client_id
           (fmupd view_id w
             (case fmlookup (va_attach_watermarks a) client_id of
                None \<Rightarrow> fmempty | Some views \<Rightarrow> views))
           (va_attach_watermarks a)\<rparr>"

text \<open>\<open>AttachedView::cancel_state_stream\<close>: the handles it fires.\<close>

definition cancel_state_stream :: "attached_view \<Rightarrow> cancel list" where
  "cancel_state_stream view = (case av_state_stream view of None \<Rightarrow> [] | Some h \<Rightarrow> [h])"

definition take_over ::
  "take_over_request \<Rightarrow> view_authority
     \<Rightarrow> (attach_rejection + take_over_rec) \<times> view_authority \<times> cancel list" where
  "take_over r a =
     (case take_over_rejection r a of
        Some rejection \<Rightarrow> (Inl rejection, a, [])
      | None \<Rightarrow>
        let view_id = tr_view_id r;
            client_id = tr_client_id r;
            fence = (case watermark_of client_id view_id a of
                       None \<Rightarrow> tr_fence_conn_id r
                     | Some w \<Rightarrow> max (wm_fence_conn_id w) (tr_fence_conn_id r));
            a1 = put_watermark client_id view_id
                   \<lparr>wm_generation = tr_attach_generation r, wm_fence_conn_id = fence\<rparr> a;
            previous = fmlookup (va_views a1) view_id;
            fired = (case previous of None \<Rightarrow> [] | Some view \<Rightarrow> cancel_state_stream view);
            epoch = sat_add (va_next_attachment_epoch a1) 1;
            a2 = a1\<lparr>va_next_attachment_epoch := epoch,
                    va_views := fmupd view_id (fresh_view client_id (tr_access r) epoch)
                                  (fmdrop view_id (va_views a1))\<rparr>;
            (cleared, a3) = clear_controller_for_view view_id a2
        in (Inr \<lparr>to_attachment_epoch = epoch, to_resumed = previous \<noteq> None,
                 to_controller_cleared = cleared, to_controller = va_controller a3,
                 to_control_revision = va_control_revision a3\<rparr>, a3, fired))"

definition gc_attach_watermarks :: "string \<Rightarrow> u64 \<Rightarrow> view_authority \<Rightarrow> nat \<times> view_authority" where
  "gc_attach_watermarks client_id terminated_through a =
     (let attached = (\<lambda>view_id. case fmlookup (va_views a) view_id of
                        None \<Rightarrow> False | Some view \<Rightarrow> av_client_id view = client_id)
      in case fmlookup (va_attach_watermarks a) client_id of
           None \<Rightarrow> (0, a)
         | Some watermarks \<Rightarrow>
             let kept = fm_retain (\<lambda>view_id w. attached view_id
                          \<or> wm_fence_conn_id w > terminated_through) watermarks
             in (fm_len watermarks - fm_len kept,
                 a\<lparr>va_attach_watermarks :=
                     (if fm_len kept = 0 then fmdrop client_id (va_attach_watermarks a)
                      else fmupd client_id kept (va_attach_watermarks a))\<rparr>))"

definition register_state_stream ::
  "string \<Rightarrow> u64 \<Rightarrow> cancel \<Rightarrow> view_authority \<Rightarrow> (auth_error + unit) \<times> view_authority" where
  "register_state_stream view_id epoch h a =
     (case fmlookup (va_views a) view_id of
        None \<Rightarrow> (Inl NotAttached, a)
      | Some view \<Rightarrow>
          if av_attachment_epoch view \<noteq> epoch then (Inl StaleAttachmentEpoch, a)
          else (Inr (), a\<lparr>va_views := fmupd view_id (view\<lparr>av_state_stream := Some h\<rparr>) (va_views a)\<rparr>))"

text \<open>The tail both detaches share: remove, fire, clear control.\<close>

definition remove_view :: "string \<Rightarrow> view_authority \<Rightarrow> view_authority \<times> cancel list" where
  "remove_view view_id a =
     (let fired = (case fmlookup (va_views a) view_id of
                     None \<Rightarrow> [] | Some view \<Rightarrow> cancel_state_stream view);
          a1 = a\<lparr>va_views := fmdrop view_id (va_views a)\<rparr>
      in (snd (clear_controller_for_view view_id a1), fired))"

definition detach :: "string \<Rightarrow> string \<Rightarrow> view_authority \<Rightarrow> bool \<times> view_authority \<times> cancel list" where
  "detach view_id client_id a =
     (if (case fmlookup (va_views a) view_id of
            None \<Rightarrow> False | Some view \<Rightarrow> av_client_id view = client_id)
      then (True, remove_view view_id a)
      else (False, a, []))"

definition detach_view_if_epoch ::
  "string \<Rightarrow> string \<Rightarrow> u64 \<Rightarrow> view_authority \<Rightarrow> bool \<times> view_authority \<times> cancel list" where
  "detach_view_if_epoch view_id client_id epoch a =
     (if (case fmlookup (va_views a) view_id of
            None \<Rightarrow> False
          | Some view \<Rightarrow> av_client_id view = client_id \<and> av_attachment_epoch view = epoch)
      then (True, remove_view view_id a)
      else (False, a, []))"

definition require_view :: "string \<Rightarrow> string \<Rightarrow> view_authority \<Rightarrow> auth_error + attached_view" where
  "require_view view_id client_id a =
     (case fmlookup (va_views a) view_id of
        None \<Rightarrow> Inl NotAttached
      | Some view \<Rightarrow>
          if av_client_id view \<noteq> client_id then Inl BelongsToAnotherClient else Inr view)"

definition commit_claim ::
  "string \<Rightarrow> string \<Rightarrow> u64 \<Rightarrow> u16 \<Rightarrow> u16 \<Rightarrow> view_authority \<Rightarrow> control_changed \<times> view_authority" where
  "commit_claim view_id client_id epoch cols rows a =
     (let control_epoch = sat_add (va_next_control_epoch a) 1;
          controller = \<lparr>co_view_id = view_id, co_client_id = client_id,
                        co_control_epoch = control_epoch, co_attachment_epoch = epoch\<rparr>;
          a1 = a\<lparr>va_next_control_epoch := control_epoch, va_controller := Some controller,
                 va_control_revision := sat_add (va_control_revision a) 1\<rparr>;
          size_changed = (va_cols a1, va_rows a1) \<noteq> (cols, rows);
          a2 = (if size_changed
                then a1\<lparr>va_cols := cols, va_rows := rows,
                        va_layout_epoch := sat_add (va_layout_epoch a1) 1\<rparr>
                else a1)
      in (\<lparr>cc_controller = controller, cc_cols = va_cols a2, cc_rows = va_rows a2,
           cc_layout_epoch = va_layout_epoch a2, cc_size_changed = size_changed\<rparr>, a2))"

definition control_snapshot :: "view_authority \<Rightarrow> control_snapshot_rec" where
  "control_snapshot a =
     \<lparr>cs_controller = va_controller a, cs_control_revision = va_control_revision a,
      cs_cols = va_cols a, cs_rows = va_rows a, cs_layout_epoch = va_layout_epoch a\<rparr>"

definition claim_control ::
  "string \<Rightarrow> string \<Rightarrow> u16 \<Rightarrow> u16 \<Rightarrow> view_authority
     \<Rightarrow> (auth_error + control_changed) \<times> view_authority" where
  "claim_control view_id client_id cols rows a =
     (case require_view view_id client_id a of
        Inl e \<Rightarrow> (Inl e, a)
      | Inr view \<Rightarrow>
          if av_access view \<noteq> ReadWrite then (Inl ReadOnlyControl, a)
          else let (changed, a') =
                     commit_claim view_id client_id (av_attachment_epoch view) cols rows a
               in (Inr changed, a'))"

definition claim_control_checked ::
  "string \<Rightarrow> string \<Rightarrow> u64 \<Rightarrow> u16 \<Rightarrow> u16 \<Rightarrow> u64 option \<Rightarrow> view_authority
     \<Rightarrow> (auth_error + control_claim) \<times> view_authority" where
  "claim_control_checked view_id client_id epoch cols rows expected a =
     (case require_view view_id client_id a of
        Inl e \<Rightarrow> (Inl e, a)
      | Inr view \<Rightarrow>
          if av_access view \<noteq> ReadWrite then (Inl ReadOnlyControl, a)
          else if av_attachment_epoch view \<noteq> epoch then (Inl StaleAttachmentEpoch, a)
          else if (case expected of None \<Rightarrow> False | Some revision \<Rightarrow> revision \<noteq> va_control_revision a)
          then (Inr (Rejected (control_snapshot a)), a)
          else let (changed, a') = commit_claim view_id client_id epoch cols rows a
               in (Inr (Granted changed), a'))"

definition prepare_resize ::
  "string \<Rightarrow> string \<Rightarrow> u64 \<Rightarrow> u64 \<Rightarrow> u16 \<Rightarrow> u16 \<Rightarrow> view_authority
     \<Rightarrow> auth_error + prepared_resize option" where
  "prepare_resize view_id client_id control_epoch resize_sequence cols rows a =
     (if \<not> (case va_controller a of
              None \<Rightarrow> False
            | Some c \<Rightarrow> co_view_id c = view_id \<and> co_client_id c = client_id
                \<and> co_control_epoch c = control_epoch)
      then Inl StaleResizeController
      else case require_view view_id client_id a of
        Inl e \<Rightarrow> Inl e
      | Inr view \<Rightarrow>
          if resize_sequence \<le> av_last_resize_sequence view then Inr None
          else let size_changed = (va_cols a, va_rows a) \<noteq> (cols, rows)
               in Inr (Some \<lparr>pr_resize_sequence = resize_sequence, pr_cols = cols, pr_rows = rows,
                    pr_layout_epoch = (if size_changed then sat_add (va_layout_epoch a) 1
                                       else va_layout_epoch a),
                    pr_size_changed = size_changed\<rparr>))"

definition prepare_resize_checked ::
  "string \<Rightarrow> string \<Rightarrow> u64 \<Rightarrow> u64 \<Rightarrow> u64 \<Rightarrow> u16 \<Rightarrow> u16 \<Rightarrow> view_authority
     \<Rightarrow> auth_error + prepared_resize option" where
  "prepare_resize_checked view_id client_id epoch control_epoch resize_sequence cols rows a =
     (case require_view view_id client_id a of
        Inl e \<Rightarrow> Inl e
      | Inr view \<Rightarrow>
          if av_attachment_epoch view \<noteq> epoch then Inl StaleAttachmentEpoch
          else prepare_resize view_id client_id control_epoch resize_sequence cols rows a)"

text \<open>\<open>expect\<close> on a detached view is a panic: \<open>None\<close>.\<close>

definition commit_resize :: "string \<Rightarrow> prepared_resize \<Rightarrow> view_authority \<Rightarrow> view_authority option" where
  "commit_resize view_id p a =
     (case fmlookup (va_views a) view_id of
        None \<Rightarrow> None
      | Some view \<Rightarrow>
          let a1 = a\<lparr>va_views :=
                fmupd view_id (view\<lparr>av_last_resize_sequence := pr_resize_sequence p\<rparr>) (va_views a)\<rparr>
          in Some (if pr_size_changed p
                   then a1\<lparr>va_cols := pr_cols p, va_rows := pr_rows p,
                           va_layout_epoch := pr_layout_epoch p\<rparr>
                   else a1))"

definition finish_resize ::
  "string \<Rightarrow> auth_error + prepared_resize option \<Rightarrow> view_authority
     \<Rightarrow> ((auth_error + bool) \<times> view_authority) option" where
  "finish_resize view_id prepared a =
     (case prepared of
        Inl e \<Rightarrow> Some (Inl e, a)
      | Inr None \<Rightarrow> Some (Inr False, a)
      | Inr (Some p) \<Rightarrow>
          map_option (\<lambda>a'. (Inr (pr_size_changed p), a')) (commit_resize view_id p a))"

definition authorize_resize ::
  "string \<Rightarrow> string \<Rightarrow> u64 \<Rightarrow> u64 \<Rightarrow> u16 \<Rightarrow> u16 \<Rightarrow> view_authority
     \<Rightarrow> ((auth_error + bool) \<times> view_authority) option" where
  "authorize_resize view_id client_id control_epoch resize_sequence cols rows a =
     finish_resize view_id
       (prepare_resize view_id client_id control_epoch resize_sequence cols rows a) a"

definition authorize_resize_checked ::
  "string \<Rightarrow> string \<Rightarrow> u64 \<Rightarrow> u64 \<Rightarrow> u64 \<Rightarrow> u16 \<Rightarrow> u16 \<Rightarrow> view_authority
     \<Rightarrow> ((auth_error + bool) \<times> view_authority) option" where
  "authorize_resize_checked view_id client_id epoch control_epoch resize_sequence cols rows a =
     finish_resize view_id
       (prepare_resize_checked view_id client_id epoch control_epoch resize_sequence cols rows a) a"

definition authorize_input ::
  "string \<Rightarrow> string \<Rightarrow> u64 \<Rightarrow> u64 \<Rightarrow> view_authority \<Rightarrow> (auth_error + bool) \<times> view_authority" where
  "authorize_input view_id client_id epoch input_sequence a =
     (case require_view view_id client_id a of
        Inl e \<Rightarrow> (Inl e, a)
      | Inr view \<Rightarrow>
          if av_access view \<noteq> ReadWrite then (Inl ReadOnlyView, a)
          else if av_attachment_epoch view \<noteq> epoch then (Inl StaleAttachmentEpoch, a)
          else if input_sequence \<le> av_last_input_sequence view then (Inr False, a)
          else (Inr True, a\<lparr>va_views :=
                  fmupd view_id (view\<lparr>av_last_input_sequence := input_sequence\<rparr>) (va_views a)\<rparr>))"

definition authorize_read :: "string \<Rightarrow> string \<Rightarrow> u64 \<Rightarrow> view_authority \<Rightarrow> auth_error + unit" where
  "authorize_read view_id client_id epoch a =
     (case require_view view_id client_id a of
        Inl e \<Rightarrow> Inl e
      | Inr view \<Rightarrow>
          if av_attachment_epoch view \<noteq> epoch then Inl StaleAttachmentEpoch else Inr ())"

definition attachment_epoch :: "string \<Rightarrow> view_authority \<Rightarrow> u64 option" where
  "attachment_epoch view_id a = map_option av_attachment_epoch (fmlookup (va_views a) view_id)"

definition has_views :: "view_authority \<Rightarrow> bool" where
  "has_views a \<longleftrightarrow> va_views a \<noteq> fmempty"

section \<open>Operations as steps\<close>

datatype auth_op =
    OpAttach string string view_access
  | OpTakeOver take_over_request
  | OpGc string u64
  | OpRegister string u64 cancel
  | OpDetach string string
  | OpDetachIfEpoch string string u64
  | OpClaim string string u16 u16
  | OpClaimChecked string string u64 u16 u16 "u64 option"
  | OpResize string string u64 u64 u16 u16
  | OpResizeChecked string string u64 u64 u64 u16 u16
  | OpInput string string u64 u64

text \<open>
  The state an operation leaves and the cancel handles it fires. A resize never panics
  (\<open>resize_never_panics\<close> below), so the \<open>None\<close> branch is not taken.
\<close>

fun authority_step :: "auth_op \<Rightarrow> view_authority \<Rightarrow> view_authority \<times> cancel list" where
  "authority_step (OpAttach v c acc) a = (snd (attach v c acc a), [])"
| "authority_step (OpTakeOver r) a = snd (take_over r a)"
| "authority_step (OpGc c line) a = (snd (gc_attach_watermarks c line a), [])"
| "authority_step (OpRegister v e h) a = (snd (register_state_stream v e h a), [])"
| "authority_step (OpDetach v c) a = snd (detach v c a)"
| "authority_step (OpDetachIfEpoch v c e) a = snd (detach_view_if_epoch v c e a)"
| "authority_step (OpClaim v c cols rows) a = (snd (claim_control v c cols rows a), [])"
| "authority_step (OpClaimChecked v c e cols rows expected) a =
     (snd (claim_control_checked v c e cols rows expected a), [])"
| "authority_step (OpResize v c ce n cols rows) a =
     (case authorize_resize v c ce n cols rows a of None \<Rightarrow> a | Some (_, a') \<Rightarrow> a', [])"
| "authority_step (OpResizeChecked v c e ce n cols rows) a =
     (case authorize_resize_checked v c e ce n cols rows a of None \<Rightarrow> a | Some (_, a') \<Rightarrow> a', [])"
| "authority_step (OpInput v c e n) a = (snd (authorize_input v c e n a), [])"

definition authority_next :: "auth_op \<Rightarrow> view_authority \<Rightarrow> view_authority" where
  "authority_next x a = fst (authority_step x a)"

fun authority_fired :: "auth_op list \<Rightarrow> view_authority \<Rightarrow> cancel list" where
  "authority_fired [] a = []"
| "authority_fired (x # xs) a =
     snd (authority_step x a) @ authority_fired xs (authority_next x a)"

inductive reachable_authority :: "view_authority \<Rightarrow> bool" where
  new: "reachable_authority (new_authority cols rows)"
| step: "reachable_authority a \<Longrightarrow> reachable_authority (authority_next x a)"

section \<open>Well-formedness\<close>

definition wf_view :: "view_authority \<Rightarrow> string \<Rightarrow> attached_view \<Rightarrow> bool" where
  "wf_view a view_id view \<longleftrightarrow>
     \<not> invalid_view_id view_id \<and> 0 < av_attachment_epoch view
     \<and> av_attachment_epoch view \<le> va_next_attachment_epoch a"

definition wf_controller :: "view_authority \<Rightarrow> controller_state \<Rightarrow> bool" where
  "wf_controller a c \<longleftrightarrow>
     (case fmlookup (va_views a) (co_view_id c) of
        None \<Rightarrow> False
      | Some view \<Rightarrow> av_client_id view = co_client_id c
          \<and> av_attachment_epoch view = co_attachment_epoch c \<and> av_access view = ReadWrite)
     \<and> 0 < co_control_epoch c \<and> co_control_epoch c \<le> va_next_control_epoch a"

definition wf_authority :: "view_authority \<Rightarrow> bool" where
  "wf_authority a \<longleftrightarrow>
     fmpred (wf_view a) (va_views a)
     \<and> (case va_controller a of None \<Rightarrow> True | Some c \<Rightarrow> wf_controller a c)
     \<and> 0 < va_control_revision a \<and> 0 < va_layout_epoch a
     \<and> fmpred (\<lambda>_ ws. 0 < fm_len ws \<and> fm_len ws \<le> MAX_ATTACH_WATERMARKS_PER_CLIENT)
         (va_attach_watermarks a)"

end
