(* ===== verification/Authority_Runs.thy ===== *)
theory Authority_Runs
  imports View_Authority
begin

text \<open>
  The lemmas of the view authority: every operation keeps \<open>wf_authority\<close>, what each
  operation leaves unchanged, and the facts about arbitrary runs (interpretations of the
  step-system locales) that the properties of the component rest on.
\<close>

section \<open>Every operation keeps well-formedness\<close>

lemma wf_authority_iff:
  "wf_authority a \<longleftrightarrow>
     (\<forall>v view. fmlookup (va_views a) v = Some view \<longrightarrow> wf_view a v view)
     \<and> (\<forall>c. va_controller a = Some c \<longrightarrow> wf_controller a c)
     \<and> 0 < va_control_revision a \<and> 0 < va_layout_epoch a
     \<and> (\<forall>c ws. fmlookup (va_attach_watermarks a) c = Some ws \<longrightarrow>
          0 < fm_len ws \<and> fm_len ws \<le> MAX_ATTACH_WATERMARKS_PER_CLIENT)"
  by (auto simp: wf_authority_def fmpred_iff split: option.splits)

lemma sat_inc_pos' [simp]: "sat_add x 1 \<noteq> (0::'a::len word)"
  using sat_inc_pos [of x] by auto

lemma wf_new: "wf_authority (new_authority cols rows)"
  by (simp add: wf_authority_iff new_authority_def)

lemma wf_attach: "wf_authority a \<Longrightarrow> wf_authority (snd (attach v c acc a))"
  by (auto simp: wf_authority_iff attach_def wf_view_def wf_controller_def fresh_view_def Let_def
      sat_inc_pos intro: sat_add_mono_le split: option.splits if_splits)

text \<open>Updating a view without touching its identity, or the size, keeps well-formedness.\<close>

lemma wf_update_view:
  assumes "wf_authority a" and "fmlookup (va_views a) v = Some view"
    and "av_client_id view' = av_client_id view" and "av_access view' = av_access view"
    and "av_attachment_epoch view' = av_attachment_epoch view"
  shows "wf_authority (a\<lparr>va_views := fmupd v view' (va_views a)\<rparr>)"
  using assms by (auto simp: wf_authority_iff wf_view_def wf_controller_def split: option.splits)

lemma wf_set_size:
  "wf_authority a \<Longrightarrow> 0 < l \<Longrightarrow> wf_authority (a\<lparr>va_cols := cols, va_rows := rows, va_layout_epoch := l\<rparr>)"
  by (simp add: wf_authority_iff wf_view_def wf_controller_def)

lemma wf_register: "wf_authority a \<Longrightarrow> wf_authority (snd (register_state_stream v e h a))"
  by (auto simp: register_state_stream_def intro!: wf_update_view split: option.splits)

lemma wf_input: "wf_authority a \<Longrightarrow> wf_authority (snd (authorize_input v c e n a))"
  by (auto simp: authorize_input_def require_view_def intro!: wf_update_view split: option.splits)

lemma wf_remove_view: "wf_authority a \<Longrightarrow> wf_authority (fst (remove_view v a))"
  by (auto simp: wf_authority_iff remove_view_def clear_controller_for_view_def wf_view_def
      wf_controller_def Let_def sat_inc_pos split: option.splits if_splits)

lemma wf_gc: "wf_authority a \<Longrightarrow> wf_authority (snd (gc_attach_watermarks c line a))"
  by (auto simp: wf_authority_iff gc_attach_watermarks_def wf_view_def wf_controller_def Let_def
      intro: order_trans [OF fm_len_retain_le] split: option.splits if_splits)

lemma wf_commit_claim:
  "wf_authority a \<Longrightarrow> fmlookup (va_views a) v = Some view \<Longrightarrow> av_client_id view = c
   \<Longrightarrow> av_attachment_epoch view = e \<Longrightarrow> av_access view = ReadWrite
   \<Longrightarrow> wf_authority (snd (commit_claim v c e cols rows a))"
  by (auto simp: wf_authority_iff commit_claim_def wf_view_def wf_controller_def Let_def sat_inc_pos)

lemma wf_claim: "wf_authority a \<Longrightarrow> wf_authority (snd (claim_control v c cols rows a))"
  by (auto simp: claim_control_def require_view_def split: option.splits prod.splits
      dest: wf_commit_claim [where v = v and c = c and cols = cols and rows = rows])

lemma wf_claim_checked:
  "wf_authority a \<Longrightarrow> wf_authority (snd (claim_control_checked v c e cols rows expected a))"
  by (auto simp: claim_control_checked_def require_view_def split: option.splits prod.splits
      dest: wf_commit_claim [where v = v and c = c and cols = cols and rows = rows])

lemma commit_resize_wf:
  assumes "wf_authority a" and "commit_resize v p a = Some a'"
    and "pr_size_changed p \<Longrightarrow> 0 < pr_layout_epoch p"
  shows "wf_authority a'"
proof -
  from assms(2) obtain view where v: "fmlookup (va_views a) v = Some view"
    by (auto simp: commit_resize_def split: option.splits)
  define a1 where "a1 = a\<lparr>va_views :=
    fmupd v (view\<lparr>av_last_resize_sequence := pr_resize_sequence p\<rparr>) (va_views a)\<rparr>"
  have "wf_authority a1"
    unfolding a1_def by (rule wf_update_view [OF assms(1) v]) simp_all
  moreover have "a' = (if pr_size_changed p then a1\<lparr>va_cols := pr_cols p, va_rows := pr_rows p,
      va_layout_epoch := pr_layout_epoch p\<rparr> else a1)"
    using assms(2) v by (simp add: commit_resize_def a1_def Let_def split: if_splits)
  ultimately show ?thesis
    using assms(3) wf_set_size by (simp split: if_splits)
qed

lemma prepare_resize_layout:
  "prepare_resize v c ce n cols rows a = Inr (Some p) \<Longrightarrow> pr_size_changed p \<Longrightarrow> 0 < pr_layout_epoch p"
  by (auto simp: prepare_resize_def Let_def sat_inc_pos split: if_splits sum.splits option.splits)

lemma prepare_checked_prepare:
  "prepare_resize_checked v c e ce n cols rows a = Inr p \<Longrightarrow> prepare_resize v c ce n cols rows a = Inr p"
  by (auto simp: prepare_resize_checked_def split: if_splits sum.splits)

lemma prepared_attached:
  "prepare_resize v c ce n cols rows a = Inr (Some p) \<Longrightarrow> fmlookup (va_views a) v \<noteq> None"
  by (auto simp: prepare_resize_def require_view_def Let_def split: if_splits sum.splits option.splits)

lemma commit_resize_total: "commit_resize v p a \<noteq> None \<longleftrightarrow> fmlookup (va_views a) v \<noteq> None"
  by (auto simp: commit_resize_def Let_def split: option.splits)

lemma finish_resize_wf:
  assumes "wf_authority a" and "finish_resize v (prepare_resize v c ce n cols rows a) a = Some (r, a')"
  shows "wf_authority a'"
  using assms
  by (auto simp: finish_resize_def split: sum.splits option.splits
      intro: commit_resize_wf prepare_resize_layout)

lemma finish_checked:
  "finish_resize v (prepare_resize_checked v c e ce n cols rows a) a =
     (case prepare_resize_checked v c e ce n cols rows a of
        Inl err \<Rightarrow> Some (Inl err, a)
      | Inr p \<Rightarrow> finish_resize v (prepare_resize v c ce n cols rows a) a)"
  by (auto simp: finish_resize_def split: sum.splits dest: prepare_checked_prepare)

lemma wf_resize: "wf_authority a \<Longrightarrow> authorize_resize v c ce n cols rows a = Some (r, a') \<Longrightarrow> wf_authority a'"
  by (auto simp: authorize_resize_def intro: finish_resize_wf)

lemma wf_resize_checked:
  "wf_authority a \<Longrightarrow> authorize_resize_checked v c e ce n cols rows a = Some (r, a') \<Longrightarrow> wf_authority a'"
  by (auto simp: authorize_resize_checked_def finish_checked intro: finish_resize_wf split: sum.splits)

lemma resize_never_panics: "authorize_resize v c ce n cols rows a \<noteq> None"
  "authorize_resize_checked v c e ce n cols rows a \<noteq> None"
proof -
  have *: "finish_resize v (prepare_resize v c ce n cols rows a) a \<noteq> None"
    using prepared_attached [of v c ce n cols rows a] commit_resize_total [of v _ a]
    by (auto simp: finish_resize_def split: sum.splits option.splits)
  then show "authorize_resize v c ce n cols rows a \<noteq> None"
    by (simp add: authorize_resize_def)
  from * show "authorize_resize_checked v c e ce n cols rows a \<noteq> None"
    by (auto simp: authorize_resize_checked_def finish_checked split: sum.splits)
qed

text \<open>The state an accepted take-over leaves, field by field.\<close>

lemma put_watermark_frame [simp]:
  "va_views (put_watermark c v w a) = va_views a"
  "va_controller (put_watermark c v w a) = va_controller a"
  "va_next_control_epoch (put_watermark c v w a) = va_next_control_epoch a"
  "va_next_attachment_epoch (put_watermark c v w a) = va_next_attachment_epoch a"
  "va_control_revision (put_watermark c v w a) = va_control_revision a"
  "va_cols (put_watermark c v w a) = va_cols a"
  "va_rows (put_watermark c v w a) = va_rows a"
  "va_layout_epoch (put_watermark c v w a) = va_layout_epoch a"
  by (simp_all add: put_watermark_def)

lemma clear_controller_frame [simp]:
  "va_views (snd (clear_controller_for_view v a)) = va_views a"
  "va_attach_watermarks (snd (clear_controller_for_view v a)) = va_attach_watermarks a"
  "va_next_control_epoch (snd (clear_controller_for_view v a)) = va_next_control_epoch a"
  "va_next_attachment_epoch (snd (clear_controller_for_view v a)) = va_next_attachment_epoch a"
  "va_cols (snd (clear_controller_for_view v a)) = va_cols a"
  "va_rows (snd (clear_controller_for_view v a)) = va_rows a"
  "va_layout_epoch (snd (clear_controller_for_view v a)) = va_layout_epoch a"
  by (simp_all add: clear_controller_for_view_def split: option.splits)

definition taken_over :: "take_over_request \<Rightarrow> view_authority \<Rightarrow> view_authority" where
  "taken_over r a = snd (clear_controller_for_view (tr_view_id r)
     ((put_watermark (tr_client_id r) (tr_view_id r)
         \<lparr>wm_generation = tr_attach_generation r,
          wm_fence_conn_id = (case watermark_of (tr_client_id r) (tr_view_id r) a of
             None \<Rightarrow> tr_fence_conn_id r | Some w \<Rightarrow> max (wm_fence_conn_id w) (tr_fence_conn_id r))\<rparr> a)
      \<lparr>va_next_attachment_epoch := sat_add (va_next_attachment_epoch a) 1,
       va_views := fmupd (tr_view_id r)
         (fresh_view (tr_client_id r) (tr_access r) (sat_add (va_next_attachment_epoch a) 1))
         (fmdrop (tr_view_id r) (va_views a))\<rparr>))"

lemma take_over_accepted:
  assumes "take_over_rejection r a = None"
  shows "fst (snd (take_over r a)) = taken_over r a"
    and "\<exists>out. fst (take_over r a) = Inr out
           \<and> to_attachment_epoch out = sat_add (va_next_attachment_epoch a) 1
           \<and> to_resumed out = (fmlookup (va_views a) (tr_view_id r) \<noteq> None)
           \<and> to_controller out = va_controller (taken_over r a)
           \<and> to_control_revision out = va_control_revision (taken_over r a)
           \<and> to_controller_cleared out =
               (case va_controller a of None \<Rightarrow> False | Some c \<Rightarrow> co_view_id c = tr_view_id r)"
    and "snd (snd (take_over r a)) =
           (case fmlookup (va_views a) (tr_view_id r) of None \<Rightarrow> [] | Some view \<Rightarrow> cancel_state_stream view)"
  using assms
  by (auto simp: take_over_def taken_over_def Let_def clear_controller_for_view_def
      split: prod.splits option.splits)

lemma take_over_rejected:
  "take_over_rejection r a = Some e \<Longrightarrow> take_over r a = (Inl e, a, [])"
  by (simp add: take_over_def)

lemma take_over_state:
  "fst (snd (take_over r a)) = (if take_over_rejection r a = None then taken_over r a else a)"
  by (auto simp: take_over_accepted take_over_rejected)

lemma taken_over_views:
  "va_views (taken_over r a) = fmupd (tr_view_id r)
     (fresh_view (tr_client_id r) (tr_access r) (sat_add (va_next_attachment_epoch a) 1))
     (fmdrop (tr_view_id r) (va_views a))"
  by (simp add: taken_over_def)

lemma accepted_valid_id: "take_over_rejection r a = None \<Longrightarrow> \<not> invalid_view_id (tr_view_id r)"
  by (auto simp: take_over_rejection_def reject_def split: if_splits)

lemma accepted_room:
  assumes "take_over_rejection r a = None" and "watermark_of (tr_client_id r) (tr_view_id r) a = None"
  shows "attach_watermark_count (tr_client_id r) a < MAX_ATTACH_WATERMARKS_PER_CLIENT"
  using assms by (auto simp: take_over_rejection_def reject_def Let_def split: if_splits option.splits)

lemma wf_put_watermark:
  assumes "wf_authority a"
    and "watermark_of c v a = None \<Longrightarrow> attach_watermark_count c a < MAX_ATTACH_WATERMARKS_PER_CLIENT"
  shows "wf_authority (put_watermark c v w a)"
proof -
  have "fm_len (fmupd v w (case fmlookup (va_attach_watermarks a) c of None \<Rightarrow> fmempty | Some ws \<Rightarrow> ws))
          \<le> MAX_ATTACH_WATERMARKS_PER_CLIENT"
    using assms
    by (auto simp: wf_authority_iff fm_len_upd watermark_of_def attach_watermark_count_def
        MAX_ATTACH_WATERMARKS_PER_CLIENT_def split: option.splits)
  then show ?thesis
    using assms(1) by (auto simp: wf_authority_iff put_watermark_def wf_view_def wf_controller_def)
qed

lemma wf_install:
  assumes "wf_authority a" and "\<not> invalid_view_id v"
  shows "wf_authority (snd (clear_controller_for_view v
    (a\<lparr>va_next_attachment_epoch := sat_add (va_next_attachment_epoch a) 1,
       va_views := fmupd v (fresh_view c acc (sat_add (va_next_attachment_epoch a) 1))
         (fmdrop v (va_views a))\<rparr>)))"
  using assms
  by (auto simp: wf_authority_iff clear_controller_for_view_def wf_view_def wf_controller_def
      fresh_view_def sat_inc_pos intro: sat_add_mono_le split: option.splits if_splits)

lemma wf_taken_over: "wf_authority a \<Longrightarrow> take_over_rejection r a = None \<Longrightarrow> wf_authority (taken_over r a)"
proof -
  assume wf: "wf_authority a" and acc: "take_over_rejection r a = None"
  have "wf_authority (put_watermark (tr_client_id r) (tr_view_id r) w a)" for w
    by (rule wf_put_watermark [OF wf accepted_room [OF acc]])
  from wf_install [OF this accepted_valid_id [OF acc]] show ?thesis
    by (simp add: taken_over_def)
qed

lemma wf_authority_next: "wf_authority a \<Longrightarrow> wf_authority (authority_next x a)"
proof (cases x)
  case (OpTakeOver r)
  assume "wf_authority a"
  with OpTakeOver show ?thesis by (simp add: authority_next_def take_over_state wf_taken_over)
qed (auto simp: authority_next_def wf_attach wf_gc wf_register wf_input wf_claim wf_claim_checked
      detach_def detach_view_if_epoch_def
      intro: wf_remove_view wf_resize wf_resize_checked split: option.splits)

section \<open>What each operation leaves unchanged\<close>

lemma resize_frame:
  "authorize_resize v c ce n cols rows a = Some (r, a') \<Longrightarrow>
     va_controller a' = va_controller a \<and> va_control_revision a' = va_control_revision a
     \<and> va_next_attachment_epoch a' = va_next_attachment_epoch a
     \<and> va_next_control_epoch a' = va_next_control_epoch a
     \<and> va_attach_watermarks a' = va_attach_watermarks a"
  by (auto simp: authorize_resize_def finish_resize_def commit_resize_def Let_def
      split: sum.splits option.splits)

lemma resize_checked_resize:
  "authorize_resize_checked v c e ce n cols rows a =
     (case prepare_resize_checked v c e ce n cols rows a of
        Inl err \<Rightarrow> Some (Inl err, a)
      | Inr p \<Rightarrow> authorize_resize v c ce n cols rows a)"
  unfolding authorize_resize_checked_def authorize_resize_def by (rule finish_checked)

lemma resize_next:
  "authority_next (OpResize v c ce n cols rows) a =
     snd (the (authorize_resize v c ce n cols rows a))"
  "authority_next (OpResizeChecked v c e ce n cols rows) a =
     snd (the (authorize_resize_checked v c e ce n cols rows a))"
  using resize_never_panics(1) [of v c ce n cols rows a] resize_never_panics(2) [of v c e ce n cols rows a]
  by (auto simp: authority_next_def)

lemma resize_step_or:
  "authority_next (OpResizeChecked v c e ce n cols rows) a = a
   \<or> authority_next (OpResizeChecked v c e ce n cols rows) a = authority_next (OpResize v c ce n cols rows) a"
  by (auto simp: authority_next_def resize_checked_resize split: sum.splits)

lemma next_resize_frame:
  fixes a v c ce n cols rows
  defines "a' \<equiv> authority_next (OpResize v c ce n cols rows) a"
  shows "va_controller a' = va_controller a" "va_control_revision a' = va_control_revision a"
     "va_next_attachment_epoch a' = va_next_attachment_epoch a"
     "va_next_control_epoch a' = va_next_control_epoch a"
     "va_attach_watermarks a' = va_attach_watermarks a"
  using resize_frame [of v c ce n cols rows a]
  by (auto simp: a'_def authority_next_def split: option.splits)

lemma resize_layout:
  "va_layout_epoch a \<le> va_layout_epoch (authority_next (OpResize v c ce n cols rows) a)"
  "va_layout_epoch a < - 1 \<Longrightarrow>
     va_layout_epoch (authority_next (OpResize v c ce n cols rows) a) = va_layout_epoch a \<Longrightarrow>
     (va_cols (authority_next (OpResize v c ce n cols rows) a),
      va_rows (authority_next (OpResize v c ce n cols rows) a)) = (va_cols a, va_rows a)"
  using sat_inc_gt [of "va_layout_epoch a"]
  by (auto simp: authority_next_def authorize_resize_def finish_resize_def prepare_resize_def
      commit_resize_def Let_def split: sum.splits option.splits if_splits)

text \<open>A resize only ever rewrites a view's resize sequence.\<close>

lemma next_resize_views:
  "fmlookup (va_views (authority_next (OpResize v c ce n cols rows) a)) v' =
     (case fmlookup (va_views a) v' of
        None \<Rightarrow> None
      | Some view \<Rightarrow> Some (if v' = v then
          view\<lparr>av_last_resize_sequence :=
            (case prepare_resize v c ce n cols rows a of Inr (Some p) \<Rightarrow> pr_resize_sequence p
             | _ \<Rightarrow> av_last_resize_sequence view)\<rparr> else view))"
  by (auto simp: authority_next_def authorize_resize_def finish_resize_def commit_resize_def
      Let_def split: sum.splits option.splits)

lemma claim_frame:
  "va_control_revision a \<le> va_control_revision (snd (claim_control v c cols rows a))"
  "va_control_revision a < - 1 \<Longrightarrow> va_control_revision (snd (claim_control v c cols rows a)) = va_control_revision a
     \<Longrightarrow> snd (claim_control v c cols rows a) = a"
  "va_layout_epoch a \<le> va_layout_epoch (snd (claim_control v c cols rows a))"
  "va_layout_epoch a < - 1 \<Longrightarrow> va_layout_epoch (snd (claim_control v c cols rows a)) = va_layout_epoch a
     \<Longrightarrow> va_cols (snd (claim_control v c cols rows a)) = va_cols a
       \<and> va_rows (snd (claim_control v c cols rows a)) = va_rows a"
  "va_next_attachment_epoch (snd (claim_control v c cols rows a)) = va_next_attachment_epoch a"
  "va_next_control_epoch a \<le> va_next_control_epoch (snd (claim_control v c cols rows a))"
  "va_views (snd (claim_control v c cols rows a)) = va_views a"
  "va_attach_watermarks (snd (claim_control v c cols rows a)) = va_attach_watermarks a"
  using sat_inc_gt [of "va_control_revision a"] sat_inc_gt [of "va_layout_epoch a"]
  by (auto simp: claim_control_def commit_claim_def Let_def split: sum.splits)

lemma claim_checked_or:
  "snd (claim_control_checked v c e cols rows expected a) = a
   \<or> snd (claim_control_checked v c e cols rows expected a) = snd (claim_control v c cols rows a)"
  by (auto simp: claim_control_checked_def claim_control_def split: sum.splits prod.splits)

lemma taken_over_frame [simp]:
  "va_next_attachment_epoch (taken_over r a) = sat_add (va_next_attachment_epoch a) 1"
  "va_next_control_epoch (taken_over r a) = va_next_control_epoch a"
  "va_cols (taken_over r a) = va_cols a"
  "va_rows (taken_over r a) = va_rows a"
  "va_layout_epoch (taken_over r a) = va_layout_epoch a"
  by (simp_all add: taken_over_def)

lemma taken_over_revision:
  "va_control_revision a \<le> va_control_revision (taken_over r a)"
  "va_control_revision a < - 1 \<Longrightarrow> va_control_revision (taken_over r a) = va_control_revision a
     \<Longrightarrow> va_controller (taken_over r a) = va_controller a"
  using sat_inc_gt [of "va_control_revision a"]
  by (auto simp: taken_over_def clear_controller_for_view_def split: option.splits)

lemma taken_over_controller:
  "va_controller (taken_over r a) = Some c \<Longrightarrow> co_view_id c \<noteq> tr_view_id r"
  by (auto simp: taken_over_def clear_controller_for_view_def split: option.splits if_splits)

lemma remove_view_frame:
  "va_control_revision a \<le> va_control_revision (fst (remove_view v a))"
  "va_control_revision a < - 1 \<Longrightarrow> va_control_revision (fst (remove_view v a)) = va_control_revision a
     \<Longrightarrow> va_controller (fst (remove_view v a)) = va_controller a"
  "va_views (fst (remove_view v a)) = fmdrop v (va_views a)"
  "va_next_attachment_epoch (fst (remove_view v a)) = va_next_attachment_epoch a"
  "va_next_control_epoch (fst (remove_view v a)) = va_next_control_epoch a"
  "va_attach_watermarks (fst (remove_view v a)) = va_attach_watermarks a"
  "va_cols (fst (remove_view v a)) = va_cols a"
  "va_rows (fst (remove_view v a)) = va_rows a"
  "va_layout_epoch (fst (remove_view v a)) = va_layout_epoch a"
  using sat_inc_gt [of "va_control_revision a"]
  by (auto simp: remove_view_def clear_controller_for_view_def Let_def split: option.splits)

lemma detach_or:
  "fst (snd (detach v c a)) = a \<or> fst (snd (detach v c a)) = fst (remove_view v a)"
  "fst (snd (detach_view_if_epoch v c e a)) = a
   \<or> fst (snd (detach_view_if_epoch v c e a)) = fst (remove_view v a)"
  by (simp_all add: detach_def detach_view_if_epoch_def)

lemma view_op_frame:
  "va_controller (snd (attach v c acc a)) = va_controller a"
  "va_control_revision (snd (attach v c acc a)) = va_control_revision a"
  "va_next_control_epoch (snd (attach v c acc a)) = va_next_control_epoch a"
  "va_next_attachment_epoch a \<le> va_next_attachment_epoch (snd (attach v c acc a))"
  "va_attach_watermarks (snd (attach v c acc a)) = va_attach_watermarks a"
  "va_layout_epoch (snd (attach v c acc a)) = va_layout_epoch a"
  "va_cols (snd (attach v c acc a)) = va_cols a"
  "va_rows (snd (attach v c acc a)) = va_rows a"
  by (auto simp: attach_def Let_def split: option.splits)

text \<open>
  Every operation is one of nine effects: a checked variant or a guard that fails leaves the
  state alone, both detaches remove a view. A property of the next state is proved effect by
  effect.
\<close>

lemma authority_effect:
  assumes "P a"
    and "\<And>v c acc. x = OpAttach v c acc \<Longrightarrow> P (snd (attach v c acc a))"
    and "\<And>r. x = OpTakeOver r \<Longrightarrow> take_over_rejection r a = None \<Longrightarrow> P (taken_over r a)"
    and "\<And>c l. x = OpGc c l \<Longrightarrow> P (snd (gc_attach_watermarks c l a))"
    and "\<And>v e h. x = OpRegister v e h \<Longrightarrow> P (snd (register_state_stream v e h a))"
    and "\<And>v. P (fst (remove_view v a))"
    and "\<And>v c cols rows. P (snd (claim_control v c cols rows a))"
    and "\<And>v c ce n cols rows. P (authority_next (OpResize v c ce n cols rows) a)"
    and "\<And>v c e n. P (snd (authorize_input v c e n a))"
  shows "P (authority_next x a)"
proof (cases x)
  case (OpDetach v c)
  then show ?thesis
    using detach_or(1) [of v c a] assms(1,6) by (auto simp: authority_next_def)
next
  case (OpDetachIfEpoch v c e)
  then show ?thesis
    using detach_or(2) [of v c e a] assms(1,6) by (auto simp: authority_next_def)
next
  case (OpClaimChecked v c e cols rows expected)
  then show ?thesis
    using claim_checked_or [of v c e cols rows expected a] assms(1,7) by (auto simp: authority_next_def)
next
  case (OpResizeChecked v c e ce n cols rows)
  then show ?thesis
    using resize_step_or [of v c e ce n cols rows a] assms(1,8) by auto
next
  case (OpTakeOver r)
  then show ?thesis using assms(1,3) by (simp add: authority_next_def take_over_state)
qed (use assms in \<open>simp_all add: authority_next_def\<close>)

lemma register_frame:
  "va_controller (snd (register_state_stream v e h a)) = va_controller a"
  "va_control_revision (snd (register_state_stream v e h a)) = va_control_revision a"
  "va_next_attachment_epoch (snd (register_state_stream v e h a)) = va_next_attachment_epoch a"
  "va_attach_watermarks (snd (register_state_stream v e h a)) = va_attach_watermarks a"
  "va_layout_epoch (snd (register_state_stream v e h a)) = va_layout_epoch a"
  "va_cols (snd (register_state_stream v e h a)) = va_cols a"
  "va_rows (snd (register_state_stream v e h a)) = va_rows a"
  by (auto simp: register_state_stream_def split: option.splits)

lemma input_frame:
  "va_controller (snd (authorize_input v c e n a)) = va_controller a"
  "va_control_revision (snd (authorize_input v c e n a)) = va_control_revision a"
  "va_next_attachment_epoch (snd (authorize_input v c e n a)) = va_next_attachment_epoch a"
  "va_attach_watermarks (snd (authorize_input v c e n a)) = va_attach_watermarks a"
  "va_layout_epoch (snd (authorize_input v c e n a)) = va_layout_epoch a"
  "va_cols (snd (authorize_input v c e n a)) = va_cols a"
  "va_rows (snd (authorize_input v c e n a)) = va_rows a"
  by (auto simp: authorize_input_def split: sum.splits)

lemma gc_frame:
  "va_views (snd (gc_attach_watermarks c l a)) = va_views a"
  "va_controller (snd (gc_attach_watermarks c l a)) = va_controller a"
  "va_control_revision (snd (gc_attach_watermarks c l a)) = va_control_revision a"
  "va_next_attachment_epoch (snd (gc_attach_watermarks c l a)) = va_next_attachment_epoch a"
  "va_layout_epoch (snd (gc_attach_watermarks c l a)) = va_layout_epoch a"
  "va_cols (snd (gc_attach_watermarks c l a)) = va_cols a"
  "va_rows (snd (gc_attach_watermarks c l a)) = va_rows a"
  by (auto simp: gc_attach_watermarks_def Let_def split: option.splits)

lemmas effect_frames = view_op_frame register_frame input_frame gc_frame next_resize_frame
  remove_view_frame claim_frame taken_over_frame taken_over_revision

text \<open>What every operation does to the counters.\<close>

lemma authority_next_revision_le: "va_control_revision a \<le> va_control_revision (authority_next x a)"
  by (rule authority_effect) (simp_all add: effect_frames)

lemma authority_next_revision:
  "va_control_revision a < - 1 \<Longrightarrow> va_control_revision (authority_next x a) = va_control_revision a
     \<Longrightarrow> va_controller (authority_next x a) = va_controller a"
  by (rule authority_effect [where P = "\<lambda>b. va_control_revision b = va_control_revision a
        \<longrightarrow> va_controller b = va_controller a", THEN mp])
    (simp_all add: effect_frames)

lemma authority_next_layout_le: "va_layout_epoch a \<le> va_layout_epoch (authority_next x a)"
  by (rule authority_effect) (simp_all add: effect_frames resize_layout(1))

lemma authority_next_layout:
  "va_layout_epoch a < - 1 \<Longrightarrow> va_layout_epoch (authority_next x a) = va_layout_epoch a
     \<Longrightarrow> (va_cols (authority_next x a), va_rows (authority_next x a)) = (va_cols a, va_rows a)"
  by (rule authority_effect [where P = "\<lambda>b. va_layout_epoch b = va_layout_epoch a
        \<longrightarrow> (va_cols b, va_rows b) = (va_cols a, va_rows a)", THEN mp])
    (use resize_layout(2) [of a] in \<open>simp_all add: effect_frames\<close>)

lemma authority_next_attachment_mono:
  "va_next_attachment_epoch a \<le> va_next_attachment_epoch (authority_next x a)"
  by (rule authority_effect) (simp_all add: effect_frames)

section \<open>Runs\<close>

interpretation authority: step_system authority_next wf_authority
  by unfold_locales (rule wf_authority_next)

text \<open>The control revision is a version of the controller, and the layout epoch of the size.\<close>

interpretation control: versioned_system authority_next wf_authority va_control_revision
    va_controller "- 1"
  by unfold_locales (simp_all add: authority_next_revision_le authority_next_revision)

interpretation layout: versioned_system authority_next wf_authority va_layout_epoch
    "\<lambda>a. (va_cols a, va_rows a)" "- 1"
  by unfold_locales (simp_all only: authority_next_layout_le authority_next_layout)

lemma reachable_wf: "reachable_authority a \<Longrightarrow> wf_authority a"
  by (induction rule: reachable_authority.induct) (simp_all add: wf_new wf_authority_next)

lemma reachable_run: "reachable_authority a \<Longrightarrow> reachable_authority (fold authority_next xs a)"
  by (induction xs arbitrary: a) (auto intro: reachable_authority.step)

section \<open>Incarnations\<close>

lemma epoch_upd [simp]:
  "attachment_epoch v (a\<lparr>va_views := m\<rparr>) = map_option av_attachment_epoch (fmlookup m v)"
  by (simp add: attachment_epoch_def)

lemma authority_next_epoch:
  "attachment_epoch v (authority_next x a) = attachment_epoch v a
   \<or> attachment_epoch v (authority_next x a) = None
   \<or> attachment_epoch v (authority_next x a) = Some (sat_add (va_next_attachment_epoch a) 1)"
  by (rule authority_effect)
    (auto simp: attachment_epoch_def effect_frames taken_over_views next_resize_views
      attach_def register_state_stream_def authorize_input_def require_view_def fresh_view_def Let_def
      split: option.splits sum.splits if_splits)

text \<open>An incarnation that was issued and no longer is the view's: no operation brings it back.\<close>

definition retired :: "string \<Rightarrow> u64 \<Rightarrow> view_authority \<Rightarrow> bool" where
  "retired v e a \<longleftrightarrow> e \<noteq> - 1 \<and> e \<le> va_next_attachment_epoch a \<and> attachment_epoch v a \<noteq> Some e"

lemma retired_step: "retired v e a \<Longrightarrow> retired v e (authority_next x a)"
  using authority_next_epoch [of v x a] authority_next_attachment_mono [of a x]
    sat_inc_fresh [of e "va_next_attachment_epoch a"]
  by (auto simp: retired_def)

interpretation incarnation: step_system authority_next "retired v e" for v e
  by unfold_locales (rule retired_step)

text \<open>What a retired incarnation may still do: nothing.\<close>

lemma retired_powerless:
  assumes "retired v e a"
  shows "\<exists>err. authorize_input v c e n a = (Inl err, a)"
    and "\<exists>err. authorize_read v c e a = Inl err"
    and "\<exists>err. register_state_stream v e h a = (Inl err, a)"
    and "\<exists>err. claim_control_checked v c e cols rows expected a = (Inl err, a)"
    and "\<exists>err. authorize_resize_checked v c e ce n cols rows a = Some (Inl err, a)"
    and "detach_view_if_epoch v c e a = (False, a, [])"
  using assms
  by (auto simp: retired_def attachment_epoch_def authorize_input_def authorize_read_def
      register_state_stream_def claim_control_checked_def authorize_resize_checked_def
      finish_resize_def prepare_resize_checked_def detach_view_if_epoch_def require_view_def
      split: option.splits)

lemma wf_epoch_le: "wf_authority a \<Longrightarrow> attachment_epoch v a = Some e \<Longrightarrow> e \<le> va_next_attachment_epoch a"
  by (auto simp: wf_authority_iff wf_view_def attachment_epoch_def)

lemma taken_over_retires:
  assumes "wf_authority a" and "attachment_epoch (tr_view_id r) a = Some e" and "e \<noteq> - 1"
  shows "retired (tr_view_id r) e (taken_over r a)"
  using sat_inc_fresh [OF wf_epoch_le [OF assms(1,2)] assms(3)] assms(3)
  by (auto simp: retired_def attachment_epoch_def taken_over_views fresh_view_def)

section \<open>Attach ordering\<close>

definition fenced :: "string \<Rightarrow> string \<Rightarrow> u64 \<Rightarrow> u64 \<Rightarrow> view_authority \<Rightarrow> bool" where
  "fenced c v g f a \<longleftrightarrow>
     (case watermark_of c v a of None \<Rightarrow> False | Some w \<Rightarrow> g \<le> wm_generation w \<and> f \<le> wm_fence_conn_id w)"

text \<open>The host frees watermarks of \<open>c\<close> only through a line below the fence.\<close>

fun gc_below :: "string \<Rightarrow> u64 \<Rightarrow> auth_op \<Rightarrow> bool" where
  "gc_below c f (OpGc c' line) = (c' = c \<longrightarrow> line < f)"
| "gc_below c f _ = True"

lemma watermark_put:
  "watermark_of c v (put_watermark c' v' w a) =
     (if c = c' \<and> v = v' then Some w else watermark_of c v a)"
  by (auto simp: watermark_of_def put_watermark_def split: option.splits)

lemma watermark_taken_over:
  "watermark_of c v (taken_over r a) = watermark_of c v
     (put_watermark (tr_client_id r) (tr_view_id r)
         \<lparr>wm_generation = tr_attach_generation r,
          wm_fence_conn_id = (case watermark_of (tr_client_id r) (tr_view_id r) a of
             None \<Rightarrow> tr_fence_conn_id r | Some w \<Rightarrow> max (wm_fence_conn_id w) (tr_fence_conn_id r))\<rparr> a)"
  by (simp add: watermark_of_def taken_over_def)

lemma fenced_rejects:
  assumes "fenced (tr_client_id r) (tr_view_id r) g f a" and "tr_attach_generation r \<le> g"
  shows "take_over_rejection r a \<noteq> None"
  using assms by (auto simp: fenced_def take_over_rejection_def reject_def split: option.splits if_splits)

lemma accepted_newer:
  "take_over_rejection r a = None \<Longrightarrow> watermark_of (tr_client_id r) (tr_view_id r) a = Some w
   \<Longrightarrow> wm_generation w < tr_attach_generation r"
  by (auto simp: take_over_rejection_def reject_def split: option.splits if_splits)

lemma fenced_taken_over:
  assumes "fenced c v g f a" and "take_over_rejection r a = None"
  shows "fenced c v g f (taken_over r a)"
  using assms accepted_newer [OF assms(2)]
  by (auto simp: fenced_def watermark_taken_over watermark_put le_max_iff_disj split: option.splits)

lemma gc_watermark:
  "watermark_of c v (snd (gc_attach_watermarks c' line a)) =
     (if c = c' \<and> \<not> ((case fmlookup (va_views a) v of None \<Rightarrow> False | Some view \<Rightarrow> av_client_id view = c)
          \<or> (case watermark_of c v a of None \<Rightarrow> False | Some w \<Rightarrow> line < wm_fence_conn_id w))
      then None else watermark_of c v a)"
proof (cases "c = c'")
  case False
  then show ?thesis
    by (auto simp: watermark_of_def gc_attach_watermarks_def Let_def split: option.splits)
next
  case True
  show ?thesis
  proof (cases "fmlookup (va_attach_watermarks a) c")
    case None
    with True show ?thesis by (simp add: watermark_of_def gc_attach_watermarks_def)
  next
    case (Some ws)
    define kept where "kept = fm_retain (\<lambda>view_id w.
      (case fmlookup (va_views a) view_id of None \<Rightarrow> False | Some view \<Rightarrow> av_client_id view = c)
      \<or> line < wm_fence_conn_id w) ws"
    have "snd (gc_attach_watermarks c line a) = a\<lparr>va_attach_watermarks :=
        (if fm_len kept = 0 then fmdrop c (va_attach_watermarks a)
         else fmupd c kept (va_attach_watermarks a))\<rparr>"
      using Some by (simp add: gc_attach_watermarks_def kept_def Let_def)
    then have "watermark_of c v (snd (gc_attach_watermarks c line a)) = fmlookup kept v"
      by (simp add: watermark_of_def fm_len_0)
    moreover have "fmlookup kept v =
       (if (case fmlookup (va_views a) v of None \<Rightarrow> False | Some view \<Rightarrow> av_client_id view = c)
          \<or> (case watermark_of c v a of None \<Rightarrow> False | Some w \<Rightarrow> line < wm_fence_conn_id w)
        then watermark_of c v a else None)"
      using Some by (simp add: kept_def watermark_of_def split: option.splits)
    ultimately show ?thesis using True by auto
  qed
qed

lemma fenced_gc:
  assumes "fenced c v g f a" and "c' = c \<longrightarrow> line < f"
  shows "fenced c v g f (snd (gc_attach_watermarks c' line a))"
  using assms by (auto simp: fenced_def gc_watermark split: option.splits)

lemma fenced_same:
  "va_attach_watermarks b = va_attach_watermarks a \<Longrightarrow> fenced c v g f b = fenced c v g f a"
  by (simp add: fenced_def watermark_of_def)

lemma fenced_step:
  assumes "gc_below c f x" and "fenced c v g f a"
  shows "fenced c v g f (authority_next x a)"
  by (rule authority_effect)
    (use assms in \<open>auto simp: effect_frames fenced_gc fenced_taken_over
      intro: fenced_same [THEN iffD2]\<close>)

interpretation fence: guarded_system authority_next "gc_below c f" "fenced c v g f" for c v g f
  by unfold_locales (rule fenced_step)

lemma taken_over_fenced:
  "take_over_rejection r a = None \<Longrightarrow>
     fenced (tr_client_id r) (tr_view_id r) (tr_attach_generation r) (tr_fence_conn_id r) (taken_over r a)"
  by (auto simp: fenced_def watermark_taken_over watermark_put split: option.splits)

section \<open>Input deduplication\<close>

text \<open>The input sequences incarnation \<open>e\<close> of view \<open>v\<close> got accepted over a run.\<close>

fun accepts_input :: "string \<Rightarrow> u64 \<Rightarrow> auth_op \<Rightarrow> view_authority \<Rightarrow> u64 list" where
  "accepts_input v e (OpInput v' c e' n) a =
     (if v' = v \<and> e' = e \<and> fst (authorize_input v' c e' n a) = Inr True then [n] else [])"
| "accepts_input v e _ a = []"

fun accepted_inputs :: "string \<Rightarrow> u64 \<Rightarrow> auth_op list \<Rightarrow> view_authority \<Rightarrow> u64 list" where
  "accepted_inputs v e [] a = []"
| "accepted_inputs v e (x # xs) a = accepts_input v e x a @ accepted_inputs v e xs (authority_next x a)"

definition input_floor :: "string \<Rightarrow> u64 \<Rightarrow> view_authority \<Rightarrow> u64" where
  "input_floor v e a =
     (case fmlookup (va_views a) v of
        None \<Rightarrow> 0 | Some view \<Rightarrow> if av_attachment_epoch view = e then av_last_input_sequence view else 0)"

lemma retired_accepts_nothing: "retired v e a \<Longrightarrow> accepted_inputs v e xs a = []"
proof (induction xs arbitrary: a)
  case Nil
  then show ?case by simp
next
  case (Cons x xs)
  have "accepts_input v e x a = []"
    using retired_powerless(1) [OF Cons.prems] by (cases x) (auto, metis Inl_Inr_False fst_conv)
  with Cons show ?case by (simp add: retired_step)
qed

lemma accepted_step:
  assumes "n \<in> set (accepts_input v e x a)"
  shows "accepts_input v e x a = [n]" and "input_floor v e a < n"
    and "input_floor v e (authority_next x a) = n"
    and "attachment_epoch v (authority_next x a) = Some e"
  using assms
  by (cases x; auto simp: authority_next_def authorize_input_def require_view_def input_floor_def
      attachment_epoch_def not_le split: if_splits option.splits)+

lemma view_kept_or_new:
  "fmlookup (va_views (authority_next x a)) v = None
   \<or> attachment_epoch v (authority_next x a) = Some (sat_add (va_next_attachment_epoch a) 1)
   \<or> (\<exists>view view'. fmlookup (va_views a) v = Some view
        \<and> fmlookup (va_views (authority_next x a)) v = Some view'
        \<and> av_attachment_epoch view' = av_attachment_epoch view
        \<and> av_last_input_sequence view \<le> av_last_input_sequence view')"
  by (rule authority_effect; cases "fmlookup (va_views a) v")
    (auto simp: attachment_epoch_def effect_frames taken_over_views next_resize_views
      attach_def register_state_stream_def authorize_input_def require_view_def fresh_view_def Let_def
      split: option.splits sum.splits if_splits)

text \<open>A live incarnation, and how one step may change it.\<close>

lemma alive_step:
  assumes "attachment_epoch v a = Some e" and "e \<le> va_next_attachment_epoch a" and "e \<noteq> - 1"
    and "attachment_epoch v (authority_next x a) = Some e"
  shows "input_floor v e a \<le> input_floor v e (authority_next x a)"
  using view_kept_or_new [of x a v] sat_inc_fresh [OF assms(2,3)] assms
  by (auto simp: attachment_epoch_def input_floor_def split: option.splits)

lemma accepts_input_or: "accepts_input v e x a = [] \<or> (\<exists>n. accepts_input v e x a = [n])"
  by (cases x) simp_all

lemma retired_if_lost:
  assumes "attachment_epoch v a = Some e" and "e \<le> va_next_attachment_epoch a" and "e \<noteq> - 1"
    and "attachment_epoch v (authority_next x a) \<noteq> Some e"
  shows "retired v e (authority_next x a)"
  using assms authority_next_attachment_mono [of a x] by (auto simp: retired_def)

lemma accepted_inputs_sorted:
  assumes "e \<noteq> - 1" and "wf_authority a"
  shows "sorted_wrt (<) (accepted_inputs v e xs a)
     \<and> (attachment_epoch v a = Some e \<longrightarrow> (\<forall>n \<in> set (accepted_inputs v e xs a). input_floor v e a < n))"
  using assms(2)
proof (induction xs arbitrary: a)
  case Nil
  then show ?case by simp
next
  case (Cons x xs)
  let ?b = "authority_next x a"
  have wf: "wf_authority ?b" by (rule wf_authority_next [OF Cons.prems])
  note IH = Cons.IH [OF wf]
  show ?case
  proof (cases "accepts_input v e x a = []")
    case False
    then obtain n where "accepts_input v e x a = [n]"
      using accepts_input_or [of v e x a] by blast
    then have acc: "accepts_input v e x a = [n]" "input_floor v e a < n"
      "input_floor v e ?b = n" "attachment_epoch v ?b = Some e"
      using accepted_step [of n v e x a] by simp_all
    with IH show ?thesis by (auto intro: less_trans)
  next
    case True
    have "\<forall>n \<in> set (accepted_inputs v e xs ?b). input_floor v e a < n"
      if live: "attachment_epoch v a = Some e"
    proof (cases "attachment_epoch v ?b = Some e")
      case True
      with live IH alive_step [OF live wf_epoch_le [OF Cons.prems live] assms(1) True]
      show ?thesis by (auto intro: le_less_trans)
    next
      case False
      then have "retired v e ?b"
        by (rule retired_if_lost [OF live wf_epoch_le [OF Cons.prems live] assms(1)])
      then show ?thesis by (simp add: retired_accepts_nothing)
    qed
    with True IH show ?thesis by simp
  qed
qed

section \<open>State streams\<close>

definition stream_bound :: "string \<Rightarrow> u64 \<Rightarrow> cancel \<Rightarrow> view_authority \<Rightarrow> bool" where
  "stream_bound v e h a \<longleftrightarrow>
     (case fmlookup (va_views a) v of
        None \<Rightarrow> False | Some view \<Rightarrow> av_attachment_epoch view = e \<and> av_state_stream view = Some h)"

fun registers :: "string \<Rightarrow> u64 \<Rightarrow> auth_op \<Rightarrow> bool" where
  "registers v e (OpRegister v' e' _) = (v' = v \<and> e' = e)"
| "registers v e _ = False"

lemma take_over_fired:
  "snd (snd (take_over r a)) =
     (if take_over_rejection r a = None
      then case fmlookup (va_views a) (tr_view_id r) of None \<Rightarrow> [] | Some view \<Rightarrow> cancel_state_stream view
      else [])"
  using take_over_accepted(3) [of r a] take_over_rejected [of r a]
  by (cases "take_over_rejection r a") auto

lemma resize_keeps_stream:
  "stream_bound v e h a \<Longrightarrow> stream_bound v e h (authority_next (OpResize v' c ce n cols rows) a)"
  by (auto simp: stream_bound_def next_resize_views split: option.splits)

lemma stream_step:
  assumes "stream_bound v e h a" and "\<not> registers v e x"
  shows "stream_bound v e h (authority_next x a) \<or> h \<in> set (snd (authority_step x a))"
proof (cases x)
  case (OpTakeOver r)
  show ?thesis
  proof (cases "take_over_rejection r a")
    case None
    then show ?thesis
      using assms(1) unfolding OpTakeOver
      by (cases "v = tr_view_id r")
        (auto simp: stream_bound_def authority_next_def take_over_state take_over_fired
          taken_over_views cancel_state_stream_def split: option.splits)
  next
    case (Some rejection)
    then show ?thesis using assms(1) unfolding OpTakeOver
      by (simp add: authority_next_def take_over_state)
  qed
next
  case (OpDetach v' c)
  show ?thesis
    using assms unfolding OpDetach
    by (cases "v = v'")
      (auto simp: stream_bound_def authority_next_def detach_def remove_view_frame remove_view_def
        Let_def cancel_state_stream_def split: option.splits)
next
  case (OpDetachIfEpoch v' c e')
  show ?thesis
    using assms unfolding OpDetachIfEpoch
    by (cases "v = v'")
      (auto simp: stream_bound_def authority_next_def detach_view_if_epoch_def remove_view_frame
        remove_view_def Let_def cancel_state_stream_def split: option.splits)
next
  case (OpClaimChecked v' c e' cols rows expected)
  with assms show ?thesis using claim_checked_or [of v' c e' cols rows expected a]
    by (auto simp: stream_bound_def authority_next_def claim_frame)
next
  case (OpResize v' c ce n cols rows)
  with assms show ?thesis by (simp add: resize_keeps_stream)
next
  case (OpResizeChecked v' c e' ce n cols rows)
  with assms show ?thesis
    using resize_step_or [of v' c e' ce n cols rows a] by (auto simp: resize_keeps_stream)
qed (use assms in \<open>auto simp: stream_bound_def authority_next_def attach_def claim_frame
    gc_attach_watermarks_def register_state_stream_def authorize_input_def require_view_def Let_def
    split: option.splits sum.splits if_splits\<close>)

lemma stream_run:
  "stream_bound v e h a \<Longrightarrow> list_all (\<lambda>x. \<not> registers v e x) xs \<Longrightarrow>
     stream_bound v e h (fold authority_next xs a) \<or> h \<in> set (authority_fired xs a)"
proof (induction xs arbitrary: a)
  case Nil
  then show ?case by simp
next
  case (Cons x xs)
  then show ?case using stream_step [OF Cons.prems(1), of x] by auto
qed

end
