(* ===== verification/Authority_Properties.thy ===== *)
theory Authority_Properties
  imports Authority_Runs
begin

text \<open>
  What \<open>ViewAuthority\<close> promises its callers, each property with a run on concrete requests
  that meets its hypotheses.
\<close>

section \<open>Concrete requests\<close>

definition demo_request :: "u64 \<Rightarrow> take_over_request" where
  "demo_request g =
     \<lparr>tr_view_id = ''v'', tr_client_id = ''c'', tr_access = ReadWrite, tr_attach_generation = g,
      tr_fence_conn_id = 7, tr_session_epoch = 1, tr_resume = None\<rparr>"

definition demo_attached :: view_authority where
  "demo_attached = fst (snd (take_over (demo_request 5) (new_authority 80 24)))"

lemmas demo_eval = demo_request_def demo_attached_def new_authority_def take_over_def
  take_over_rejection_def invalid_view_id_def MAX_VIEW_ID_BYTES_def watermark_of_def
  attach_watermark_count_def MAX_ATTACH_WATERMARKS_PER_CLIENT_def put_watermark_def
  fresh_view_def clear_controller_for_view_def sat_add_def cancel_state_stream_def

lemma demo_reachable: "reachable_authority demo_attached"
  using reachable_authority.step [OF reachable_authority.new [of 80 24], of "OpTakeOver (demo_request 5)"]
  by (simp add: authority_next_def demo_attached_def)

lemma demo_accepted: "take_over_rejection (demo_request 5) (new_authority 80 24) = None"
  by (simp add: demo_eval Let_def)

lemma demo_epoch: "attachment_epoch ''v'' demo_attached = Some 1"
  by (simp add: demo_eval Let_def attachment_epoch_def)

section \<open>Well-formedness and outcomes\<close>

text \<open>
  C15. Whatever operations are issued, in any order, the authority stays well formed: the
  controller is an attached read-write view at its current incarnation, no incarnation is above
  the counter that mints them, view ids are valid, revisions are positive, and no client holds
  more than 256 attach watermarks.
\<close>

theorem authority_wf: "wf_authority (fold authority_next ops (new_authority cols rows))"
  by (rule authority.inv_run [OF wf_new])

text \<open>
  C14. A take-over is all or nothing. Rejected, it leaves no trace and fires no handle. Accepted,
  it mints the next attachment epoch for the view, records the generation as a watermark newer
  than the one it replaces without lowering the fence, leaves no controller on the view, and
  fires the superseded incarnation's state stream.
\<close>

theorem take_over_outcome:
  assumes "take_over r a = (out, a', fired)"
  shows "case out of
      Inl rejection \<Rightarrow> take_over_rejection r a = Some rejection \<and> a' = a \<and> fired = []
    | Inr t \<Rightarrow>
        to_attachment_epoch t = sat_add (va_next_attachment_epoch a) 1
        \<and> attachment_epoch (tr_view_id r) a' = Some (to_attachment_epoch t)
        \<and> to_resumed t = (fmlookup (va_views a) (tr_view_id r) \<noteq> None)
        \<and> to_controller t = va_controller a' \<and> to_control_revision t = va_control_revision a'
        \<and> (\<forall>c. va_controller a' = Some c \<longrightarrow> co_view_id c \<noteq> tr_view_id r)
        \<and> (\<exists>w. watermark_of (tr_client_id r) (tr_view_id r) a' = Some w
              \<and> wm_generation w = tr_attach_generation r \<and> tr_fence_conn_id r \<le> wm_fence_conn_id w
              \<and> (\<forall>w0. watermark_of (tr_client_id r) (tr_view_id r) a = Some w0 \<longrightarrow>
                   wm_generation w0 < wm_generation w \<and> wm_fence_conn_id w0 \<le> wm_fence_conn_id w))
        \<and> fired = (case fmlookup (va_views a) (tr_view_id r) of
              None \<Rightarrow> [] | Some view \<Rightarrow> cancel_state_stream view)"
proof (cases "take_over_rejection r a")
  case (Some rejection)
  then show ?thesis using assms by (auto simp: take_over_rejected)
next
  case None
  then obtain t where t: "out = Inr t" "a' = taken_over r a"
      "to_attachment_epoch t = sat_add (va_next_attachment_epoch a) 1"
      "to_resumed t = (fmlookup (va_views a) (tr_view_id r) \<noteq> None)"
      "to_controller t = va_controller a'" "to_control_revision t = va_control_revision a'"
    using take_over_accepted [OF None] assms by auto
  have fired: "fired = (case fmlookup (va_views a) (tr_view_id r) of
      None \<Rightarrow> [] | Some view \<Rightarrow> cancel_state_stream view)"
    using take_over_accepted(3) [OF None] assms by simp
  have "attachment_epoch (tr_view_id r) a' = Some (to_attachment_epoch t)"
    by (simp add: t attachment_epoch_def taken_over_views fresh_view_def)
  moreover have "\<forall>c. va_controller a' = Some c \<longrightarrow> co_view_id c \<noteq> tr_view_id r"
    by (simp add: t taken_over_controller)
  ultimately show ?thesis
    using t fired accepted_newer [OF None]
    by (auto simp: watermark_taken_over watermark_put split: option.splits)
qed

lemma take_over_outcome_witness:
  "\<exists>t a' fired. take_over (demo_request 5) (new_authority 80 24) = (Inr t, a', fired)
     \<and> attachment_epoch ''v'' a' = Some (to_attachment_epoch t)"
proof -
  obtain t where t: "fst (take_over (demo_request 5) (new_authority 80 24)) = Inr t"
    using take_over_accepted(2) [OF demo_accepted] by auto
  obtain a' fired where s: "take_over (demo_request 5) (new_authority 80 24) = (Inr t, a', fired)"
    using t by (cases "take_over (demo_request 5) (new_authority 80 24)") auto
  with take_over_outcome [OF s] show ?thesis by (auto simp: demo_request_def)
qed

section \<open>Attach ordering\<close>

text \<open>
  C2. A delayed or replayed attach never displaces a newer one. Once the attach \<open>r\<close> is accepted,
  an attach \<open>r'\<close> of the same client and view with a generation no greater is rejected after any
  further operations (detaches and garbage collections included) and changes nothing, as long
  as the lines through which the client's watermarks were collected lie below \<open>r\<close>'s fence.
\<close>

theorem stale_attach_rejected:
  assumes "take_over_rejection r a = None"
    and "list_all (gc_below (tr_client_id r) (tr_fence_conn_id r)) ops"
    and "tr_client_id r' = tr_client_id r" and "tr_view_id r' = tr_view_id r"
    and "tr_attach_generation r' \<le> tr_attach_generation r"
    and "b = fold authority_next ops (fst (snd (take_over r a)))"
  shows "\<exists>rejection. take_over r' b = (Inl rejection, b, [])"
proof -
  have "fenced (tr_client_id r) (tr_view_id r) (tr_attach_generation r) (tr_fence_conn_id r) b"
    using fence.guarded_run [OF assms(2) taken_over_fenced [OF assms(1)]] assms(1,6)
    by (simp add: take_over_state)
  then have "take_over_rejection r' b \<noteq> None"
    by (intro fenced_rejects) (use assms in simp_all)
  then show ?thesis by (auto simp: take_over_rejected)
qed

lemma stale_attach_rejected_witness:
  "\<exists>rejection b. take_over (demo_request 4) b = (Inl rejection, b, [])
     \<and> b = fold authority_next [OpDetach ''v'' ''c'', OpGc ''c'' 6] demo_attached"
  using stale_attach_rejected [OF demo_accepted, of "[OpDetach ''v'' ''c'', OpGc ''c'' 6]" "demo_request 4"]
  by (simp add: demo_request_def demo_attached_def)



section \<open>Control\<close>

text \<open>
  C4. The control revision is a sound compare-and-swap token. A claim granted against a revision
  that was read earlier was granted against the very controller that was read: nobody took
  or lost control in between, whatever operations ran.
\<close>

theorem control_claim_cas:
  assumes "reachable_authority a" and "va_control_revision a < - 1"
    and "b = fold authority_next ops a"
    and "claim_control_checked v c e cols rows (Some (va_control_revision a)) b = (Inr (Granted g), b')"
  shows "va_controller b = va_controller a \<and> va_controller b' = Some (cc_controller g)"
proof -
  have "va_control_revision b = va_control_revision a"
    using assms(4) by (auto simp: claim_control_checked_def split: sum.splits if_splits prod.splits)
  then have "va_controller b = va_controller a"
    unfolding assms(3) by (rule control.same_rank_same_val [OF reachable_wf [OF assms(1)] assms(2)])
  moreover have "va_controller b' = Some (cc_controller g)"
    using assms(4)
    by (auto simp: claim_control_checked_def commit_claim_def Let_def split: sum.splits if_splits)
  ultimately show ?thesis by simp
qed

lemma control_claim_cas_witness:
  "\<exists>g b'. claim_control_checked ''v'' ''c'' 1 80 24 (Some 1)
      (fold authority_next [OpInput ''v'' ''c'' 1 3] demo_attached) = (Inr (Granted g), b')
    \<and> va_controller b' = Some (cc_controller g)"
proof -
  have rev: "va_control_revision demo_attached = 1"
    by (simp add: demo_eval Let_def)
  obtain g b' where g: "claim_control_checked ''v'' ''c'' 1 80 24 (Some (va_control_revision demo_attached))
      (fold authority_next [OpInput ''v'' ''c'' 1 3] demo_attached) = (Inr (Granted g), b')"
    by (simp add: rev claim_control_checked_def require_view_def authority_next_def authorize_input_def
        commit_claim_def demo_eval Let_def)
  have "va_control_revision demo_attached < - 1" by (simp add: rev less_max_word)
  from control_claim_cas [OF demo_reachable this refl g] g show ?thesis by (auto simp: rev)
qed

text \<open>
  C30. The layout epoch identifies the terminal size: as long as it has not moved, neither has the
  size, whatever operations ran; and a resize, authorized or not, never panics.
\<close>

theorem layout_epoch_identifies_size:
  assumes "reachable_authority a" and "va_layout_epoch a < - 1" and "b = fold authority_next ops a"
    and "va_layout_epoch b = va_layout_epoch a"
  shows "(va_cols b, va_rows b) = (va_cols a, va_rows a)
     \<and> authorize_resize v c ce n cols rows b \<noteq> None
     \<and> authorize_resize_checked v c e ce n cols rows b \<noteq> None"
  using layout.same_rank_same_val [OF reachable_wf [OF assms(1)] assms(2), of ops] assms(3,4)
    resize_never_panics(1) [of v c ce n cols rows b] resize_never_panics(2) [of v c e ce n cols rows b]
  by simp

lemma layout_epoch_identifies_size_witness:
  "va_cols (fold authority_next [OpClaim ''v'' ''c'' 80 24] demo_attached) = 80"
proof -
  have a: "va_layout_epoch demo_attached = 1" "va_cols demo_attached = 80"
    by (simp_all add: demo_eval Let_def)
  have "va_layout_epoch demo_attached < - 1" by (simp add: a less_max_word)
  from layout_epoch_identifies_size [OF demo_reachable this refl, of "[OpClaim ''v'' ''c'' 80 24]"]
  show ?thesis
    by (simp add: a authority_next_def claim_control_def require_view_def commit_claim_def demo_eval Let_def)
qed

section \<open>Superseded incarnations\<close>

text \<open>
  C1. An incarnation that was superseded is powerless for good. After a take-over of its view is
  accepted, no sequence of operations lets a request bound to the old attachment epoch send
  input, read, register a stream, claim control, resize or detach the newer incarnation.
\<close>

theorem superseded_powerless:
  assumes "reachable_authority a" and "attachment_epoch (tr_view_id r) a = Some e" and "e \<noteq> - 1"
    and "take_over_rejection r a = None"
    and "b = fold authority_next ops (fst (snd (take_over r a)))"
  shows "(\<exists>err. authorize_input (tr_view_id r) c e n b = (Inl err, b))
     \<and> (\<exists>err. authorize_read (tr_view_id r) c e b = Inl err)
     \<and> (\<exists>err. register_state_stream (tr_view_id r) e h b = (Inl err, b))
     \<and> (\<exists>err. claim_control_checked (tr_view_id r) c e cols rows expected b = (Inl err, b))
     \<and> (\<exists>err. authorize_resize_checked (tr_view_id r) c e ce n cols rows b = Some (Inl err, b))
     \<and> detach_view_if_epoch (tr_view_id r) c e b = (False, b, [])"
proof -
  have "retired (tr_view_id r) e b"
    using incarnation.inv_run [OF taken_over_retires [OF reachable_wf [OF assms(1)] assms(2,3)]] assms(4,5)
    by (simp add: take_over_state)
  then show ?thesis by (intro conjI retired_powerless)
qed

lemma superseded_powerless_witness:
  "authority_next (OpInput ''v'' ''c'' 1 9) (fst (snd (take_over (demo_request 6) demo_attached)))
     = fst (snd (take_over (demo_request 6) demo_attached))"
proof -
  have acc: "take_over_rejection (demo_request 6) demo_attached = None"
    by (simp add: demo_eval Let_def)
  have e: "attachment_epoch (tr_view_id (demo_request 6)) demo_attached = Some 1"
    using demo_epoch by (simp add: demo_request_def)
  have "\<exists>err. authorize_input (tr_view_id (demo_request 6)) ''c'' 1 9
      (fold authority_next [] (fst (snd (take_over (demo_request 6) demo_attached))))
    = (Inl err, fold authority_next [] (fst (snd (take_over (demo_request 6) demo_attached))))"
    by (rule superseded_powerless [THEN conjunct1, OF demo_reachable e _ acc refl]) simp
  then show ?thesis by (auto simp: authority_next_def demo_request_def)
qed

text \<open>
  C6. Input is applied at most once and in order: over any run, the sequence numbers accepted
  from one incarnation of a view are strictly increasing.
\<close>

theorem accepted_inputs_increase:
  assumes "reachable_authority a" and "e \<noteq> - 1"
  shows "sorted_wrt (<) (accepted_inputs v e ops a)"
  using accepted_inputs_sorted [OF assms(2) reachable_wf [OF assms(1)]] by blast

lemma accepted_inputs_increase_witness:
  "sorted_wrt (<) (accepted_inputs ''v'' 1
     [OpInput ''v'' ''c'' 1 3, OpInput ''v'' ''c'' 1 3, OpInput ''v'' ''c'' 1 8] demo_attached)
   \<and> accepted_inputs ''v'' 1
     [OpInput ''v'' ''c'' 1 3, OpInput ''v'' ''c'' 1 3, OpInput ''v'' ''c'' 1 8] demo_attached = [3, 8]"
  using accepted_inputs_increase [OF demo_reachable, of 1]
  by (simp add: authority_next_def authorize_input_def require_view_def demo_eval Let_def)

text \<open>
  C20. A state stream is never orphaned. Once its cancel handle is registered to an incarnation,
  after any operations that do not register another handle for that incarnation the handle is
  either still bound to it or was fired.
\<close>

theorem stream_never_orphaned:
  assumes "register_state_stream v e h a = (Inr (), b)"
    and "list_all (\<lambda>x. \<not> registers v e x) ops"
  shows "stream_bound v e h (fold authority_next ops b) \<or> h \<in> set (authority_fired ops b)"
proof (rule stream_run [OF _ assms(2)])
  show "stream_bound v e h b"
    using assms(1)
    by (auto simp: register_state_stream_def stream_bound_def split: option.splits if_splits)
qed

lemma stream_never_orphaned_witness:
  "\<exists>b. register_state_stream ''v'' 1 42 demo_attached = (Inr (), b)
     \<and> 42 \<in> set (authority_fired [OpTakeOver (demo_request 6)] b)"
proof -
  obtain b where b: "register_state_stream ''v'' 1 42 demo_attached = (Inr (), b)"
    by (simp add: register_state_stream_def demo_eval Let_def)
  have e: "attachment_epoch ''v'' (authority_next (OpTakeOver (demo_request 6)) b) = Some 2"
    using b by (auto simp: register_state_stream_def authority_next_def attachment_epoch_def demo_eval Let_def)
  then have "\<not> stream_bound ''v'' 1 42 (fold authority_next [OpTakeOver (demo_request 6)] b)"
    by (auto simp: stream_bound_def attachment_epoch_def split: option.splits)
  with stream_never_orphaned [OF b, of "[OpTakeOver (demo_request 6)]"] b show ?thesis by auto
qed

end
