(* ===== verification/Lifecycle_Properties.thy ===== *)
theory Lifecycle_Properties
  imports Lifecycle_Runs Authority_Properties
begin

text \<open>
  What the session lifecycle promises the readers, engines and clients around it, each property
  with a run that meets its hypotheses.
\<close>

section \<open>A concrete session\<close>

definition no_sha :: "bytes \<Rightarrow> bytes" where "no_sha bs = replicate 32 0"

definition demo_session :: lifecycle where
  "demo_session = fst (new_lifecycle ''s'' ''d'' ''host'' None 0)"

definition demo_live :: lifecycle where
  "demo_live = fold (lifecycle_next no_sha)
     [BindConnection 4, RecordView ''p'', BeginAttempt ''p'' True, NoteWritten ''p'' 1, CommitLive 5]
     demo_session"

lemmas demo_lifecycle_eval = bind_connection_def demo_session_def demo_live_def new_lifecycle_def lifecycle_next_def
  record_view_def begin_view_attempt_def set_view_def view_or_pending_def pending_view_def
  to_pending_def note_view_written_def map_view_def commit_live_def advance_def sat_add_def

lemma demo_live_fields:
  "ls_state demo_live = Live" "ls_generation demo_live = 1" "ls_incarnation demo_live = 4"
  "ls_disconnected demo_live = None" "ls_seq demo_live = 2"
  by (simp_all add: demo_lifecycle_eval Let_def)

section \<open>Transitions\<close>

text \<open>
  C16. The published transitions are a gap-free log of the session's state: their sequence
  numbers are consecutive from the current one, and the last of them (or the state before the
  run, when none was published) is the state, reason and sequence number the session holds.
\<close>

theorem transitions_replay:
  assumes "unat (ls_seq s) + length (transitions (lifecycle_events sha ops s)) < 2 ^ 64"
  shows "map (unat \<circ> fst) (transitions (lifecycle_events sha ops s))
       = [Suc (unat (ls_seq s)) ..< Suc (unat (ls_seq s) + length (transitions (lifecycle_events sha ops s)))]
     \<and> last (current s # transitions (lifecycle_events sha ops s))
       = current (fold (lifecycle_next sha) ops s)"
  by (rule transitions_run [OF assms])

lemma transitions_replay_witness:
  "map (unat \<circ> fst) (transitions (lifecycle_events no_sha
     [CommitLive 5, CommitSuspended 6, CommitSuspended 7] demo_session)) = [2, 3]"
  using transitions_replay [of demo_session no_sha "[CommitLive 5, CommitSuspended 6, CommitSuspended 7]"]
  by (simp add: demo_lifecycle_eval commit_suspended_def publish_def current_def Let_def)



section \<open>Stale connections\<close>

text \<open>
  C10. Retiring a generation silences its readers for good: after \<open>advance_generation\<close>, whatever
  operations run, a reader of the retired generation is neither admitted nor able to tear the
  session down, and leaves the contact clock alone.
\<close>

theorem retired_generation_silent:
  assumes "g \<le> ls_generation s" and "g \<noteq> - 1"
    and "b = fold (lifecycle_next sha) ops (snd (advance_generation s))"
  shows "admit_state g i now b = (False, b) \<and> commit_disconnect g i now b = (False, b, [])"
proof -
  have "g < ls_generation (snd (advance_generation s))"
    using sat_inc_fresh [OF assms(1,2)] by (simp add: advance_generation_def Let_def)
  also have "\<dots> \<le> ls_generation b"
    unfolding assms(3) by (rule lifecycle_generation.rank_run) simp
  finally show ?thesis by (auto simp: admit_state_def commit_disconnect_def)
qed

lemma retired_generation_silent_witness:
  "fst (admit_state 1 4 9 (fold (lifecycle_next no_sha) [CommitLive 8] (snd (advance_generation demo_live)))) = False"
  using retired_generation_silent [where g = 1 and s = demo_live and sha = no_sha and ops = "[CommitLive 8]" and i = 4 and now = 9]
  by (simp add: demo_live_fields)

text \<open>
  C23. A connection's death is acted on at most once. Once \<open>commit_disconnect\<close> has committed for a
  generation and incarnation, every further report of it is refused without effect, whatever
  ran in between, as long as the session is not bound to that incarnation again.
\<close>

theorem disconnect_commits_once:
  assumes "commit_disconnect g i now s = (True, s', es)"
    and "list_all (\<lambda>x. \<not> rebinds i x) ops"
    and "b = fold (lifecycle_next sha) ops s'"
  shows "commit_disconnect g i later b = (False, b, [])"
proof -
  have "disconnect_spent g i s'"
    using committed_disconnect_spent [of g i now s] assms(1) by simp
  from disconnect.guarded_run [OF assms(2) this] show ?thesis
    unfolding assms(3) by (rule disconnect_spent_refuses)
qed

lemma disconnect_commits_once_witness:
  "\<exists>s' es. commit_disconnect 1 4 9 demo_live = (True, s', es)
     \<and> fst (commit_disconnect 1 4 9 (fold (lifecycle_next no_sha) [CommitLive 8] s')) = False"
proof -
  obtain s' es where c: "commit_disconnect 1 4 9 demo_live = (True, s', es)"
    by (simp add: commit_disconnect_def demo_live_fields case_prod_beta Let_def)
  from disconnect_commits_once [OF c _ refl, of "[CommitLive 8]"] c show ?thesis by simp
qed

section \<open>Views\<close>

text \<open>
  C31. Whatever operations run on a new session, every view-state event and every view of a
  snapshot carries an attachment epoch and an access mode exactly when the view is attached.
\<close>

theorem readiness_published:
  "list_all event_ok (lifecycle_events sha ops (fst (new_lifecycle sid did dname h t)))
   \<and> list_all (\<lambda>r. ready_iff_attached (rv_view_state r) (rv_attachment_epoch r) (rv_read_write r))
       (sn_views (snapshot now (fold (lifecycle_next sha) ops (fst (new_lifecycle sid did dname h t)))))"
proof -
  have "all_views wf_record (fold (lifecycle_next sha) ops (fst (new_lifecycle sid did dname h t)))"
    by (rule records.inv_run [OF wf_new_lifecycle])
  then have "wf_record v (view_or_pending v
      (fold (lifecycle_next sha) ops (fst (new_lifecycle sid did dname h t))))" for v
    by (rule wf_record_or_pending)
  then show ?thesis
    using run_events_ok [OF wf_new_lifecycle]
    by (auto simp: snapshot_def view_record_of_def wf_record_def list_all_iff)
qed








section \<open>Feed\<close>

text \<open>
  Feed election picks the least recorded view that has not been refused, and picks none only
  when every recorded view was.
\<close>

theorem feed_is_least_eligible:
  assumes "elect_feed s = (elected, s')"
  shows "ls_feed_view_id s' = elected
     \<and> (case elected of
          None \<Rightarrow> all_views (\<lambda>v r. vr_state r = Failed) s
        | Some v \<Rightarrow> fmlookup (ls_views s) v \<noteq> None \<and> vr_state (view_or_pending v s) \<noteq> Failed
            \<and> all_views (\<lambda>w r. vr_state r = Failed \<or> v \<le> w) s)"
proof (cases elected)
  case None
  then have "\<forall>v \<in> set (view_keys s). vr_state (view_or_pending v s) = Failed"
    using assms by (auto simp: elect_feed_def find_None_iff Let_def)
  then show ?thesis
    using assms None
    by (auto simp: elect_feed_def Let_def all_views_def view_or_pending_def sorted_view_keys fmlookup_dom_iff
        split: option.splits)
next
  case (Some v)
  then have first: "List.find (\<lambda>v. vr_state (view_or_pending v s) \<noteq> Failed) (view_keys s) = Some v"
    using assms by (simp add: elect_feed_def Let_def)
  have "v \<in> set (view_keys s) \<and> vr_state (view_or_pending v s) \<noteq> Failed
      \<and> (\<forall>w \<in> set (view_keys s). vr_state (view_or_pending w s) \<noteq> Failed \<longrightarrow> v \<le> w)"
    by (rule find_sorted [OF sorted_view_keys(1), THEN iffD1, OF first])
  then show ?thesis
    using assms Some
    by (fastforce simp: elect_feed_def Let_def all_views_def view_or_pending_def sorted_view_keys fmlookup_dom_iff
        split: option.splits)
qed

lemma feed_is_least_eligible_witness:
  "\<exists>s'. elect_feed demo_live = (Some ''p'', s') \<and> ls_feed_view_id s' = Some ''p''"
proof -
  have "view_keys demo_live = [''p'']"
    by (simp add: view_keys_def demo_lifecycle_eval sorted_list_of_fset.rep_eq Let_def)
  moreover have "vr_state (view_or_pending ''p'' demo_live) = Pending"
    by (simp add: demo_lifecycle_eval Let_def)
  ultimately obtain s' where e: "elect_feed demo_live = (Some ''p'', s')"
    by (simp add: elect_feed_def Let_def)
  from feed_is_least_eligible [OF e] e show ?thesis by simp
qed

end
