(* ===== verification/Tunnel_Framing.thy ===== *)
theory Tunnel_Framing
  imports Prelude
begin

text \<open>
  The frames of the tunnel protocol (\<open>ghosttea/src/tunnel_protocol.rs\<close>): stream prefaces,
  length-prefixed messages and compact-channel messages; and the readers of
  \<open>ghosttea-truffle/src/lib.rs\<close> that assemble them from whatever chunks the transport
  delivers (\<open>ReadBuffer\<close>, \<open>ProtocolStream\<close>, \<open>CompactProtocolStream\<close>).
  \<open>serde_json\<close> is a pair of parameters, \<open>to_vec\<close> and \<open>from_slice\<close>; a transport is the
  list of chunks it will still deliver, ending in the end of the stream.
\<close>

section \<open>Protocol constants and kinds\<close>

definition PROTOCOL_MAJOR :: u16 where "PROTOCOL_MAJOR = 1"
definition PROTOCOL_MINOR :: u16 where "PROTOCOL_MINOR = 9"
definition REMOTE_RECONNECT_PROTOCOL_MINOR :: u16 where "REMOTE_RECONNECT_PROTOCOL_MINOR = 6"
definition SEMANTIC_CELL_COLOR_PROTOCOL_MINOR :: u16 where "SEMANTIC_CELL_COLOR_PROTOCOL_MINOR = 8"
definition MAX_PREFACE_METADATA_BYTES :: nat where "MAX_PREFACE_METADATA_BYTES = 4 * 1024"
definition MAX_CONTROL_MESSAGE_BYTES :: nat where "MAX_CONTROL_MESSAGE_BYTES = 1024 * 1024"
definition MAX_STATE_MESSAGE_BYTES :: nat where "MAX_STATE_MESSAGE_BYTES = 16 * 1024 * 1024"
definition MAX_HEARTBEAT_MESSAGE_BYTES :: nat where "MAX_HEARTBEAT_MESSAGE_BYTES = 1024"
definition MAGIC :: bytes where "MAGIC = str_bytes ''TSP1''"
definition PREFACE_HEADER_BYTES :: nat where "PREFACE_HEADER_BYTES = 16"

datatype tunnel_error =
    TruncatedPreface | InvalidMagic | UnsupportedMajor u16 | UnknownStreamKind
  | MetadataExceedsLimit | TruncatedMetadata | KindMismatch
  | MessageExceedsLimit | TruncatedFrame | TruncatedPayload
  | UnknownChannel | ChannelMismatch | LengthOverflow
  | SerializeFailed | DeserializeFailed
  | EofBeforePreface | EofInFrame | TruncatedStream | Panicked

datatype compact_channel = ControlChannel | StateChannel

definition channel_as_byte :: "compact_channel \<Rightarrow> u8" where
  "channel_as_byte c = (case c of ControlChannel \<Rightarrow> 1 | StateChannel \<Rightarrow> 2)"

definition channel_from_byte :: "u8 \<Rightarrow> tunnel_error + compact_channel" where
  "channel_from_byte b =
     (if b = 1 then Inr ControlChannel else if b = 2 then Inr StateChannel else Inl UnknownChannel)"

datatype stream_kind =
  ConnectionControl | SessionControl | LiveState | Scrollback | Asset | Heartbeat

definition kind_as_byte :: "stream_kind \<Rightarrow> u8" where
  "kind_as_byte k = (case k of
     ConnectionControl \<Rightarrow> 1 | SessionControl \<Rightarrow> 2 | LiveState \<Rightarrow> 3
   | Scrollback \<Rightarrow> 4 | Asset \<Rightarrow> 5 | Heartbeat \<Rightarrow> 6)"

definition kind_from_byte :: "u8 \<Rightarrow> tunnel_error + stream_kind" where
  "kind_from_byte b =
     (if b = 1 then Inr ConnectionControl else if b = 2 then Inr SessionControl
      else if b = 3 then Inr LiveState else if b = 4 then Inr Scrollback
      else if b = 5 then Inr Asset else if b = 6 then Inr Heartbeat
      else Inl UnknownStreamKind)"

record stream_preface =
  sp_stream_kind :: stream_kind
  sp_session_id :: "string option"
  sp_view_id :: "string option"

section \<open>Prefaces\<close>

definition encode_preface ::
  "(stream_preface \<Rightarrow> bytes option) \<Rightarrow> stream_preface \<Rightarrow> tunnel_error + bytes" where
  "encode_preface to_vec p =
     (case to_vec p of
        None \<Rightarrow> Inl SerializeFailed
      | Some metadata \<Rightarrow>
          if length metadata > MAX_PREFACE_METADATA_BYTES then Inl MetadataExceedsLimit
          else Inr (MAGIC @ u16_be PROTOCOL_MAJOR @ u16_be PROTOCOL_MINOR
                 @ [kind_as_byte (sp_stream_kind p)] @ [0, 0, 0]
                 @ u32_be (of_nat (length metadata)) @ metadata))"

definition decode_preface ::
  "(bytes \<Rightarrow> stream_preface option) \<Rightarrow> bytes \<Rightarrow> tunnel_error + stream_preface \<times> nat" where
  "decode_preface from_slice bs =
     (if length bs < PREFACE_HEADER_BYTES then Inl TruncatedPreface
      else if take 4 bs \<noteq> MAGIC then Inl InvalidMagic
      else let major = of_nat (be_value (slice 4 2 bs)) :: u16
      in if major \<noteq> PROTOCOL_MAJOR then Inl (UnsupportedMajor major)
      else case kind_from_byte (bs ! 8) of
        Inl e \<Rightarrow> Inl e
      | Inr kind \<Rightarrow>
          let metadata_len = be_value (slice 12 4 bs)
          in if metadata_len > MAX_PREFACE_METADATA_BYTES then Inl MetadataExceedsLimit
          else let frame_len = PREFACE_HEADER_BYTES + metadata_len
          in if length bs < frame_len then Inl TruncatedMetadata
          else case from_slice (slice PREFACE_HEADER_BYTES metadata_len bs) of
            None \<Rightarrow> Inl DeserializeFailed
          | Some p \<Rightarrow> if sp_stream_kind p \<noteq> kind then Inl KindMismatch else Inr (p, frame_len))"

section \<open>Messages\<close>

definition encode_message ::
  "('m \<Rightarrow> bytes option) \<Rightarrow> 'm \<Rightarrow> nat \<Rightarrow> tunnel_error + bytes" where
  "encode_message to_vec m limit =
     (case to_vec m of
        None \<Rightarrow> Inl SerializeFailed
      | Some payload \<Rightarrow>
          if length payload > limit then Inl MessageExceedsLimit
          else Inr (u32_be (of_nat (length payload)) @ payload))"

definition decode_message ::
  "(bytes \<Rightarrow> 'm option) \<Rightarrow> bytes \<Rightarrow> nat \<Rightarrow> tunnel_error + 'm \<times> nat" where
  "decode_message from_slice bs limit =
     (if length bs < 4 then Inl TruncatedFrame
      else let payload_len = be_value (take 4 bs)
      in if payload_len > limit then Inl MessageExceedsLimit
      else let frame_len = 4 + payload_len
      in if length bs < frame_len then Inl TruncatedPayload
      else case from_slice (slice 4 payload_len bs) of
        None \<Rightarrow> Inl DeserializeFailed
      | Some m \<Rightarrow> Inr (m, frame_len))"

definition encode_compact_message ::
  "('m \<Rightarrow> bytes option) \<Rightarrow> compact_channel \<Rightarrow> 'm \<Rightarrow> nat \<Rightarrow> tunnel_error + bytes" where
  "encode_compact_message to_vec channel m limit =
     (case to_vec m of
        None \<Rightarrow> Inl SerializeFailed
      | Some payload \<Rightarrow>
          if length payload > limit then Inl MessageExceedsLimit
          else let framed_len = length payload + 1
          in if framed_len \<ge> 2 ^ 32 then Inl LengthOverflow
          else Inr (u32_be (of_nat framed_len) @ [channel_as_byte channel] @ payload))"

definition decode_compact_message ::
  "(bytes \<Rightarrow> 'm option) \<Rightarrow> bytes \<Rightarrow> compact_channel \<Rightarrow> nat \<Rightarrow> tunnel_error + 'm \<times> nat" where
  "decode_compact_message from_slice bs expected_channel limit =
     (if length bs < 5 then Inl TruncatedFrame
      else let framed_len = be_value (take 4 bs)
      in if framed_len = 0 \<or> framed_len - 1 > limit then Inl MessageExceedsLimit
      else let frame_len = 4 + framed_len
      in if length bs < frame_len then Inl TruncatedPayload
      else case channel_from_byte (bs ! 4) of
        Inl e \<Rightarrow> Inl e
      | Inr channel \<Rightarrow>
          if channel \<noteq> expected_channel then Inl ChannelMismatch
          else case from_slice (slice 5 (framed_len - 1) bs) of
            None \<Rightarrow> Inl DeserializeFailed
          | Some m \<Rightarrow> Inr (m, frame_len))"

datatype heartbeat_message = Ping u64 | Pong u64 | HostShutdownNotice

definition encode_heartbeat_message ::
  "(heartbeat_message \<Rightarrow> bytes option) \<Rightarrow> heartbeat_message \<Rightarrow> tunnel_error + bytes" where
  "encode_heartbeat_message to_vec m = encode_message to_vec m MAX_HEARTBEAT_MESSAGE_BYTES"

definition decode_heartbeat_message ::
  "(bytes \<Rightarrow> heartbeat_message option) \<Rightarrow> bytes \<Rightarrow> tunnel_error + heartbeat_message \<times> nat" where
  "decode_heartbeat_message from_slice bs = decode_message from_slice bs MAX_HEARTBEAT_MESSAGE_BYTES"

section \<open>Read buffer\<close>

record read_buffer =
  rb_bytes :: bytes
  rb_start :: nat

definition empty_buffer :: read_buffer where
  "empty_buffer = \<lparr>rb_bytes = [], rb_start = 0\<rparr>"

definition rb_available :: "read_buffer \<Rightarrow> nat" where
  "rb_available b = length (rb_bytes b) - rb_start b"

text \<open>A range past the end of the bytes is a panic: \<open>None\<close>.\<close>

definition rb_unread :: "nat \<Rightarrow> read_buffer \<Rightarrow> bytes option" where
  "rb_unread n b =
     (if rb_start b + n \<le> length (rb_bytes b) then Some (slice (rb_start b) n (rb_bytes b)) else None)"

definition rb_consume :: "nat \<Rightarrow> read_buffer \<Rightarrow> read_buffer" where
  "rb_consume n b =
     (let start = rb_start b + n
      in if start = length (rb_bytes b) then \<lparr>rb_bytes = [], rb_start = 0\<rparr>
         else b\<lparr>rb_start := start\<rparr>)"

definition rb_compact :: "read_buffer \<Rightarrow> read_buffer" where
  "rb_compact b =
     (if rb_start b = 0 then b
      else \<lparr>rb_bytes = drop (rb_start b) (rb_bytes b), rb_start = 0\<rparr>)"

definition rb_append :: "bytes \<Rightarrow> read_buffer \<Rightarrow> read_buffer" where
  "rb_append chunk b =
     (if rb_available b = 0 then \<lparr>rb_bytes = chunk, rb_start = 0\<rparr>
      else let b' = rb_compact b in b'\<lparr>rb_bytes := rb_bytes b' @ chunk\<rparr>)"

section \<open>Streams\<close>

record protocol_stream =
  ps_buffer :: read_buffer
  ps_chunks :: "bytes list"

definition new_stream :: "bytes list \<Rightarrow> protocol_stream" where
  "new_stream chunks = \<lparr>ps_buffer = empty_buffer, ps_chunks = chunks\<rparr>"

text \<open>\<open>ProtocolStream::fill\<close>: read chunks until \<open>n\<close> bytes are buffered.\<close>

fun fill_buffer ::
  "nat \<Rightarrow> read_buffer \<Rightarrow> bytes list \<Rightarrow> (tunnel_error + bool) \<times> read_buffer \<times> bytes list" where
  "fill_buffer n b [] =
     (if rb_available b \<ge> n then (Inr True, b, [])
      else if rb_available b = 0 then (Inr False, b, [])
      else (Inl TruncatedStream, b, []))"
| "fill_buffer n b (chunk # chunks) =
     (if rb_available b \<ge> n then (Inr True, b, chunk # chunks)
      else fill_buffer n (rb_append chunk b) chunks)"

definition fill :: "nat \<Rightarrow> protocol_stream \<Rightarrow> (tunnel_error + bool) \<times> protocol_stream" where
  "fill n s =
     (let (r, b, chunks) = fill_buffer n (ps_buffer s) (ps_chunks s)
      in (r, \<lparr>ps_buffer = b, ps_chunks = chunks\<rparr>))"

text \<open>
  The pattern the readers share: fill the header, compute the frame's length from it (or fail),
  fill the frame, decode it and consume it. A clean end of the stream before the header is
  \<open>None\<close>.
\<close>

definition read_frame ::
  "nat \<Rightarrow> (bytes \<Rightarrow> tunnel_error + nat) \<Rightarrow> (bytes \<Rightarrow> tunnel_error + 'm \<times> nat) \<Rightarrow> protocol_stream
     \<Rightarrow> (tunnel_error + 'm option) \<times> protocol_stream" where
  "read_frame header frame_total decode s =
     (case fill header s of
        (Inl e, s1) \<Rightarrow> (Inl e, s1)
      | (Inr False, s1) \<Rightarrow> (Inr None, s1)
      | (Inr True, s1) \<Rightarrow>
          (case rb_unread header (ps_buffer s1) of
             None \<Rightarrow> (Inl Panicked, s1)
           | Some h \<Rightarrow>
               (case frame_total h of
                  Inl e \<Rightarrow> (Inl e, s1)
                | Inr frame_len \<Rightarrow>
                    (case fill frame_len s1 of
                       (Inl e, s2) \<Rightarrow> (Inl e, s2)
                     | (Inr False, s2) \<Rightarrow> (Inl EofInFrame, s2)
                     | (Inr True, s2) \<Rightarrow>
                         (case rb_unread frame_len (ps_buffer s2) of
                            None \<Rightarrow> (Inl Panicked, s2)
                          | Some frame \<Rightarrow>
                              (case decode frame of
                                 Inl e \<Rightarrow> (Inl e, s2)
                               | Inr (m, _) \<Rightarrow>
                                   (Inr (Some m),
                                    s2\<lparr>ps_buffer := rb_consume frame_len (ps_buffer s2)\<rparr>)))))))"

definition preface_total :: "bytes \<Rightarrow> tunnel_error + nat" where
  "preface_total h =
     (let metadata_len = be_value (slice 12 4 h)
      in if metadata_len > MAX_PREFACE_METADATA_BYTES then Inl MetadataExceedsLimit
         else Inr (16 + metadata_len))"

definition read_preface ::
  "(bytes \<Rightarrow> stream_preface option) \<Rightarrow> protocol_stream
     \<Rightarrow> (tunnel_error + stream_preface) \<times> protocol_stream" where
  "read_preface from_slice s =
     (case read_frame 16 preface_total (decode_preface from_slice) s of
        (Inl e, s') \<Rightarrow> (Inl e, s')
      | (Inr None, s') \<Rightarrow> (Inl EofBeforePreface, s')
      | (Inr (Some p), s') \<Rightarrow> (Inr p, s'))"

definition message_total :: "nat \<Rightarrow> bytes \<Rightarrow> tunnel_error + nat" where
  "message_total limit h =
     (let payload_len = be_value (take 4 h)
      in if payload_len > limit then Inl MessageExceedsLimit else Inr (4 + payload_len))"

definition read_message ::
  "(bytes \<Rightarrow> 'm option) \<Rightarrow> nat \<Rightarrow> protocol_stream \<Rightarrow> (tunnel_error + 'm option) \<times> protocol_stream" where
  "read_message from_slice limit =
     read_frame 4 (message_total limit) (\<lambda>frame. decode_message from_slice frame limit)"

definition compact_total :: "nat \<Rightarrow> bytes \<Rightarrow> tunnel_error + nat" where
  "compact_total limit h =
     (let framed_len = be_value (take 4 h)
      in if framed_len = 0 \<or> framed_len - 1 > limit then Inl MessageExceedsLimit
         else Inr (4 + framed_len))"

definition read_compact_message ::
  "(bytes \<Rightarrow> 'm option) \<Rightarrow> compact_channel \<Rightarrow> nat \<Rightarrow> protocol_stream
     \<Rightarrow> (tunnel_error + 'm option) \<times> protocol_stream" where
  "read_compact_message from_slice expected_channel limit =
     read_frame 4 (compact_total limit)
       (\<lambda>frame. decode_compact_message from_slice frame expected_channel limit)"

text \<open>Calling a reader \<open>k\<close> times.\<close>

fun repeat_read :: "nat \<Rightarrow> ('s \<Rightarrow> 'r \<times> 's) \<Rightarrow> 's \<Rightarrow> 'r list" where
  "repeat_read 0 read s = []"
| "repeat_read (Suc k) read s = (let (r, s') = read s in r # repeat_read k read s')"

section \<open>Client packets\<close>

text \<open>The local service's packets (\<open>ghosttea/src/service.rs\<close>), little-endian.\<close>

definition write_packet :: "bytes \<Rightarrow> bytes" where
  "write_packet bs = u32_le (of_nat (length bs)) @ bs"

definition take_frame :: "bytes \<Rightarrow> nat \<Rightarrow> tunnel_error + bytes option \<times> bytes" where
  "take_frame buffered limit =
     (if length buffered < 4 then Inr (None, buffered)
      else let len = le_value (take 4 buffered)
      in if len > limit then Inl MessageExceedsLimit
      else if length buffered < 4 + len then Inr (None, buffered)
      else Inr (Some (slice 4 len buffered), drop (4 + len) buffered))"

text \<open>
  The connection loop of the service: take the frames that are complete, then read another
  chunk, until the stream ends or a frame is refused.
\<close>

function take_frames :: "bytes \<Rightarrow> nat \<Rightarrow> bytes list \<times> bytes option" where
  "take_frames buffered limit =
     (case take_frame buffered limit of
        Inl e \<Rightarrow> ([], None)
      | Inr (None, rest) \<Rightarrow> ([], Some rest)
      | Inr (Some packet, rest) \<Rightarrow>
          let (packets, final) = take_frames rest limit in (packet # packets, final))"
  by pat_completeness auto
termination
  by (relation "measure (\<lambda>(buffered, limit). length buffered)")
    (auto simp: take_frame_def Let_def split: if_splits)

declare take_frames.simps [simp del]

fun receive_packets :: "nat \<Rightarrow> bytes \<Rightarrow> bytes list \<Rightarrow> bytes list" where
  "receive_packets limit inbound [] = fst (take_frames inbound limit)"
| "receive_packets limit inbound (chunk # chunks) =
     (case take_frames inbound limit of
        (packets, None) \<Rightarrow> packets
      | (packets, Some rest) \<Rightarrow> packets @ receive_packets limit (rest @ chunk) chunks)"

end
