(* ===== verification/Framing_Facts.thy ===== *)
theory Framing_Facts
  imports Tunnel_Framing
begin

text \<open>
  The readers refine reading from the unread bytes: whatever is buffered and however the rest
  is split into chunks, a read does what the specification does on the concatenation. The
  locale \<open>frame_codec\<close> is the contract between an encoder and the reader that parses its
  frames; each codec of the protocol interprets it.
\<close>

section \<open>The unread bytes of a stream\<close>

definition unread :: "protocol_stream \<Rightarrow> bytes" where
  "unread s = drop (rb_start (ps_buffer s)) (rb_bytes (ps_buffer s)) @ concat (ps_chunks s)"

definition wf_stream :: "protocol_stream \<Rightarrow> bool" where
  "wf_stream s \<longleftrightarrow> rb_start (ps_buffer s) \<le> length (rb_bytes (ps_buffer s))"

definition buffered :: "read_buffer \<Rightarrow> bytes" where
  "buffered b = drop (rb_start b) (rb_bytes b)"

lemma wf_new_stream [simp]: "wf_stream (new_stream chunks)" "unread (new_stream chunks) = concat chunks"
  by (simp_all add: wf_stream_def new_stream_def empty_buffer_def unread_def)

lemma length_buffered: "length (buffered b) = rb_available b"
  by (simp add: buffered_def rb_available_def)

lemma buffered_append:
  "rb_start b \<le> length (rb_bytes b) \<Longrightarrow>
     buffered (rb_append chunk b) = buffered b @ chunk
     \<and> rb_start (rb_append chunk b) \<le> length (rb_bytes (rb_append chunk b))"
  by (auto simp: buffered_def rb_append_def rb_available_def rb_compact_def Let_def)

lemma buffered_consume:
  "rb_start b + n \<le> length (rb_bytes b) \<Longrightarrow>
     buffered (rb_consume n b) = drop n (buffered b)
     \<and> rb_start (rb_consume n b) \<le> length (rb_bytes (rb_consume n b))"
  by (auto simp: buffered_def rb_consume_def Let_def add.commute)

lemma unread_available:
  "n \<le> rb_available b \<Longrightarrow> rb_start b \<le> length (rb_bytes b) \<Longrightarrow> rb_unread n b = Some (take n (buffered b))"
  by (auto simp: rb_unread_def rb_available_def buffered_def slice_def)

lemma fill_buffer_spec:
  assumes "rb_start b \<le> length (rb_bytes b)" and "fill_buffer n b chunks = (r, b', chunks')"
  shows "rb_start b' \<le> length (rb_bytes b') \<and> buffered b' @ concat chunks' = buffered b @ concat chunks
     \<and> r = (if n \<le> length (buffered b @ concat chunks) then Inr True
            else if buffered b @ concat chunks = [] then Inr False else Inl TruncatedStream)
     \<and> (r = Inr True \<longrightarrow> n \<le> rb_available b')"
  using assms
proof (induction n b chunks rule: fill_buffer.induct)
  case (1 n b)
  then show ?case by (auto simp: length_buffered [symmetric] split: if_splits)
next
  case (2 n b chunk chunks)
  show ?case
  proof (cases "rb_available b \<ge> n")
    case True
    with 2 show ?thesis by (auto simp: length_buffered)
  next
    case False
    note app = buffered_append [OF 2(2), of chunk]
    have "fill_buffer n (rb_append chunk b) chunks = (r, b', chunks')"
      using 2(3) False by simp
    from 2(1) [OF False conjunct2 [OF app] this] show ?thesis
      by (simp add: conjunct1 [OF app])
  qed
qed

lemma unread_buffered: "unread s = buffered (ps_buffer s) @ concat (ps_chunks s)"
  by (simp add: unread_def buffered_def)

lemma fill_spec:
  assumes "wf_stream s" and "fill n s = (r, s')"
  shows "wf_stream s'" and "unread s' = unread s"
    and "r = (if n \<le> length (unread s) then Inr True
              else if unread s = [] then Inr False else Inl TruncatedStream)"
    and "r = Inr True \<Longrightarrow> rb_unread n (ps_buffer s') = Some (take n (unread s))"
    and "r = Inr True \<Longrightarrow> n \<le> rb_available (ps_buffer s')"
proof -
  obtain b chunks where f: "fill_buffer n (ps_buffer s) (ps_chunks s) = (r, b, chunks)"
    and s': "s' = \<lparr>ps_buffer = b, ps_chunks = chunks\<rparr>"
    using assms(2) by (auto simp: fill_def split: prod.splits)
  note spec = fill_buffer_spec [OF assms(1) [unfolded wf_stream_def] f]
  show "wf_stream s'" "unread s' = unread s"
    using spec by (simp_all add: s' wf_stream_def unread_buffered)
  show "r = (if n \<le> length (unread s) then Inr True
              else if unread s = [] then Inr False else Inl TruncatedStream)"
    using spec by (simp add: unread_buffered)
  assume "r = Inr True"
  with spec have av: "n \<le> rb_available b" "rb_start b \<le> length (rb_bytes b)"
    and eq: "buffered b @ concat chunks = unread s"
    by (simp_all add: unread_buffered)
  from av(1) show "n \<le> rb_available (ps_buffer s')" by (simp add: s')
  have "take n (unread s) = take n (buffered b)"
    unfolding eq [symmetric] using av(1) by (simp add: length_buffered)
  then show "rb_unread n (ps_buffer s') = Some (take n (unread s))"
    by (simp add: s' unread_available [OF av])
qed

section \<open>Specification of a read\<close>

definition read_spec ::
  "nat \<Rightarrow> (bytes \<Rightarrow> tunnel_error + nat) \<Rightarrow> (bytes \<Rightarrow> tunnel_error + 'm \<times> nat) \<Rightarrow> bytes
     \<Rightarrow> (tunnel_error + 'm option) \<times> bytes" where
  "read_spec header frame_total decode u =
     (if u = [] then (Inr None, u)
      else if length u < header then (Inl TruncatedStream, u)
      else case frame_total (take header u) of
        Inl e \<Rightarrow> (Inl e, u)
      | Inr n \<Rightarrow>
          if length u < n then (Inl TruncatedStream, u)
          else case decode (take n u) of
            Inl e \<Rightarrow> (Inl e, u)
          | Inr (m, _) \<Rightarrow> (Inr (Some m), drop n u))"

lemma read_frame_spec:
  assumes "wf_stream s" and "0 < header" and "read_frame header frame_total decode s = (r, s')"
  shows "(r, unread s') = read_spec header frame_total decode (unread s) \<and> wf_stream s'"
proof -
  obtain r1 s1 where f1: "fill header s = (r1, s1)" by fastforce
  note p1 = fill_spec [OF assms(1) f1]
  show ?thesis
  proof (cases "header \<le> length (unread s)")
    case False
    with p1(3) assms(2,3) f1 p1(1,2) show ?thesis
      by (auto simp: read_frame_def read_spec_def split: if_splits)
  next
    case True
    then have r1: "r1 = Inr True" using p1(3) by simp
    have h: "rb_unread header (ps_buffer s1) = Some (take header (unread s))"
      by (rule p1(4) [OF r1])
    show ?thesis
    proof (cases "frame_total (take header (unread s))")
      case (Inl e)
      with assms(2,3) f1 r1 h True p1(1,2) show ?thesis
        by (auto simp: read_frame_def read_spec_def) 
    next
      case (Inr n)
      obtain r2 s2 where f2: "fill n s1 = (r2, s2)" by fastforce
      note p2 = fill_spec [OF p1(1) f2, unfolded p1(2)]
      show ?thesis
      proof (cases "n \<le> length (unread s)")
        case False
        with p2(1,2,3) assms(2,3) f1 r1 h Inr f2 True show ?thesis
          by (auto simp: read_frame_def read_spec_def split: if_splits)
      next
        case fits: True
        then have r2: "r2 = Inr True" using p2(3) by simp
        note u2 = p2(4) [OF r2]
        have room: "rb_start (ps_buffer s2) + n \<le> length (rb_bytes (ps_buffer s2))"
          using p2(5) [OF r2] p2(1) by (simp add: rb_available_def wf_stream_def)
        have "unread (s2\<lparr>ps_buffer := rb_consume n (ps_buffer s2)\<rparr>) = drop n (unread s2)"
          using buffered_consume [OF room] p2(5) [OF r2] by (simp add: unread_buffered length_buffered)
        then have drop: "unread (s2\<lparr>ps_buffer := rb_consume n (ps_buffer s2)\<rparr>) = drop n (unread s)"
          "wf_stream (s2\<lparr>ps_buffer := rb_consume n (ps_buffer s2)\<rparr>)"
          using buffered_consume [OF room] p2(2) by (simp_all add: wf_stream_def)
        have "unread s \<noteq> []" using True assms(2) by auto
        with True assms(3) f1 r1 h Inr f2 r2 u2 fits drop p2(1,2) show ?thesis
          by (auto simp: read_frame_def read_spec_def split: sum.splits prod.splits)
      qed
    qed
  qed
qed

section \<open>The contract of a codec\<close>

text \<open>
  What a reader needs of an encoder: the header of an encoded frame announces its length, and
  the decoder recovers the message (up to a normal form \<open>norm\<close>) of every encoding that is
  \<open>ok\<close>, which is what the model asks of the serialization library for that message.
\<close>

locale frame_codec =
  fixes encode :: "'m \<Rightarrow> tunnel_error + bytes"
    and header :: nat
    and frame_total :: "bytes \<Rightarrow> tunnel_error + nat"
    and decode :: "bytes \<Rightarrow> tunnel_error + 'm \<times> nat"
    and ok :: "'m \<Rightarrow> bool"
    and norm :: "'m \<Rightarrow> 'm"
  assumes header_pos: "0 < header"
    and encode_total: "encode m = Inr bs \<Longrightarrow>
      header \<le> length bs \<and> frame_total (take header bs) = Inr (length bs)"
    and decode_encode: "encode m = Inr bs \<Longrightarrow> ok m \<Longrightarrow> decode bs = Inr (norm m, length bs)"
begin

lemma spec_encoded:
  assumes "encode m = Inr bs" and "ok m"
  shows "read_spec header frame_total decode (bs @ rest) = (Inr (Some (norm m)), rest)"
  using encode_total [OF assms(1)] decode_encode [OF assms] header_pos
  by (auto simp: read_spec_def)

lemma read_frame_encoded:
  assumes "encode m = Inr bs" and "ok m" and "wf_stream s" and "unread s = bs @ rest"
  shows "\<exists>s'. read_frame header frame_total decode s = (Inr (Some (norm m)), s')
           \<and> wf_stream s' \<and> unread s' = rest"
proof -
  obtain r s' where r: "read_frame header frame_total decode s = (r, s')" by fastforce
  with read_frame_spec [OF assms(3) header_pos r] spec_encoded [OF assms(1,2), of rest] assms(4)
  show ?thesis by auto
qed

text \<open>Any chunking of a sequence of encoded messages is read back as those messages.\<close>

lemma read_frames_encoded:
  "list_all ok ms \<Longrightarrow> map encode ms = map Inr bss \<Longrightarrow> wf_stream s \<Longrightarrow> unread s = concat bss \<Longrightarrow>
     repeat_read (Suc (length ms)) (read_frame header frame_total decode) s
       = map (\<lambda>m. Inr (Some (norm m))) ms @ [Inr None]"
proof (induction ms arbitrary: s bss)
  case Nil
  obtain r s' where r: "read_frame header frame_total decode s = (r, s')" by fastforce
  with read_frame_spec [OF Nil(3) header_pos r] Nil show ?case by (simp add: read_spec_def)
next
  case (Cons m ms)
  then obtain bs bss' where bss: "bss = bs # bss'" "encode m = Inr bs" "map encode ms = map Inr bss'"
    by auto
  have "unread s = bs @ concat bss'" using Cons.prems(4) bss by simp
  from read_frame_encoded [OF bss(2) _ Cons.prems(3) this] Cons.prems(1)
  obtain s' where s': "read_frame header frame_total decode s = (Inr (Some (norm m)), s')"
    "wf_stream s'" "unread s' = concat bss'" by auto
  from Cons.IH [OF _ bss(3) s'(2,3)] Cons.prems(1) s'(1) show ?case by simp
qed

end

section \<open>The codecs\<close>

text \<open>The library reads back what it wrote for this message.\<close>

definition json_ok :: "('m \<Rightarrow> bytes option) \<Rightarrow> (bytes \<Rightarrow> 'm option) \<Rightarrow> 'm \<Rightarrow> bool" where
  "json_ok to_vec from_slice m \<longleftrightarrow>
     (case to_vec m of None \<Rightarrow> True | Some bs \<Rightarrow> from_slice bs = Some m)"

lemma unat_small [simp]:
  "n < 4294967296 \<Longrightarrow> unat (of_nat n :: u32) = n"
  "n < 65536 \<Longrightarrow> unat (of_nat n :: u16) = n"
  by (simp_all add: unat_of_nat)

lemma unat_u32: "unat (limit :: u32) < 2 ^ 32"
  using unsigned_less [of limit, where ?'a = nat] by simp

lemma message_encoded:
  assumes "encode_message to_vec m (unat (limit :: u32)) = Inr bs"
  shows "\<exists>payload. to_vec m = Some payload \<and> length payload \<le> unat limit
     \<and> bs = u32_be (of_nat (length payload)) @ payload \<and> length payload < 2 ^ 32"
  using assms unat_u32 [of limit]
  by (auto simp: encode_message_def split: option.splits if_splits)

interpretation message: frame_codec "\<lambda>m. encode_message to_vec m (unat (limit :: u32))" 4
    "message_total (unat limit)" "\<lambda>frame. decode_message from_slice frame (unat limit)"
    "json_ok to_vec from_slice" id for to_vec from_slice limit
proof unfold_locales
  fix m bs
  assume e: "encode_message to_vec m (unat limit) = Inr bs"
  from message_encoded [OF e] show "4 \<le> length bs \<and> message_total (unat limit) (take 4 bs) = Inr (length bs)"
    by (auto simp: message_total_def Let_def)
  assume "json_ok to_vec from_slice m"
  with message_encoded [OF e]
  show "decode_message from_slice bs (unat limit) = Inr (id m, length bs)"
    by (auto simp: decode_message_def json_ok_def slice_def Let_def)
qed simp

lemma channel_round_trip [simp]: "channel_from_byte (channel_as_byte c) = Inr c"
  by (cases c) (simp_all add: channel_from_byte_def channel_as_byte_def)

lemma kind_round_trip [simp]: "kind_from_byte (kind_as_byte k) = Inr k"
  by (cases k) (simp_all add: kind_from_byte_def kind_as_byte_def)

lemma compact_encoded:
  assumes "encode_compact_message to_vec channel m (unat (limit :: u32)) = Inr bs"
  shows "\<exists>payload. to_vec m = Some payload \<and> length payload \<le> unat limit
     \<and> bs = u32_be (of_nat (length payload + 1)) @ channel_as_byte channel # payload
     \<and> length payload + 1 < 2 ^ 32"
  using assms
  by (auto simp: encode_compact_message_def Let_def not_le split: option.splits if_splits)

interpretation compact: frame_codec
    "\<lambda>m. encode_compact_message to_vec channel m (unat (limit :: u32))" 4
    "compact_total (unat limit)"
    "\<lambda>frame. decode_compact_message from_slice frame channel (unat limit)"
    "json_ok to_vec from_slice" id for to_vec from_slice channel limit
proof unfold_locales
  fix m bs
  assume e: "encode_compact_message to_vec channel m (unat limit) = Inr bs"
  then obtain payload where p: "to_vec m = Some payload" "length payload \<le> unat limit"
    "bs = u32_be (of_nat (length payload + 1)) @ channel_as_byte channel # payload"
    "length payload + 1 < 2 ^ 32"
    using compact_encoded [OF e] by blast
  have len: "be_value (u32_be (of_nat (length payload + 1))) = length payload + 1"
    using p(4) by (simp del: of_nat_add of_nat_Suc)
  show "4 \<le> length bs \<and> compact_total (unat limit) (take 4 bs) = Inr (length bs)"
    using p(2,3) len by (simp add: compact_total_def Let_def del: of_nat_add of_nat_Suc)
  assume "json_ok to_vec from_slice m"
  with p len show "decode_compact_message from_slice bs channel (unat limit) = Inr (id m, length bs)"
    by (simp add: decode_compact_message_def json_ok_def slice_def nth_append Let_def
        del: of_nat_add of_nat_Suc)
qed simp

interpretation preface: frame_codec "encode_preface to_vec" 16 preface_total
    "decode_preface from_slice" "json_ok to_vec from_slice" id for to_vec from_slice
proof unfold_locales
  fix p bs
  assume "encode_preface to_vec p = Inr bs"
  then obtain metadata where m: "to_vec p = Some metadata" "length metadata \<le> MAX_PREFACE_METADATA_BYTES"
    "bs = MAGIC @ u16_be PROTOCOL_MAJOR @ u16_be PROTOCOL_MINOR @ [kind_as_byte (sp_stream_kind p)]
        @ [0, 0, 0] @ u32_be (of_nat (length metadata)) @ metadata"
    by (auto simp: encode_preface_def split: option.splits if_splits)
  have magic: "length MAGIC = 4" by (simp add: MAGIC_def)
  have len: "be_value (u32_be (of_nat (length metadata))) = length metadata"
    using m(2) by (simp add: MAX_PREFACE_METADATA_BYTES_def)
  have fields: "take 4 bs = MAGIC" "slice 4 2 bs = u16_be PROTOCOL_MAJOR"
    "bs ! 8 = kind_as_byte (sp_stream_kind p)" "slice 12 4 bs = u32_be (of_nat (length metadata))"
    "slice 16 (length metadata) bs = metadata" "length bs = 16 + length metadata"
    "slice 12 4 (take 16 bs) = u32_be (of_nat (length metadata))"
    by (simp_all add: m(3) magic slice_def nth_append)
  show "16 \<le> length bs \<and> preface_total (take 16 bs) = Inr (length bs)"
    using m(2) by (simp add: preface_total_def fields len Let_def del: be_value_uint)
  assume "json_ok to_vec from_slice p"
  with m(1,2) show "decode_preface from_slice bs = Inr (id p, length bs)"
    by (simp add: decode_preface_def fields len PREFACE_HEADER_BYTES_def json_ok_def Let_def del: be_value_uint(2))
qed simp

section \<open>Client packets\<close>

lemma take_frame_packet:
  assumes "length p \<le> limit" and "length p < 2 ^ 32"
  shows "take_frame (write_packet p @ rest) limit = Inr (Some p, rest)"
  using assms by (simp add: take_frame_def write_packet_def slice_def Let_def)

lemma take_frame_partial:
  assumes "length p \<le> limit" and "length p < 2 ^ 32"
    and "u @ v = write_packet p @ w" and "length u < length (write_packet p)"
  shows "take_frame u limit = Inr (None, u)"
proof (cases "length u < 4")
  case True
  then show ?thesis by (simp add: take_frame_def)
next
  case False
  have "take 4 u = take 4 (u @ v)" using False by simp
  also have "\<dots> = u32_le (of_nat (length p))" by (simp add: assms(3)) (simp add: write_packet_def)
  finally have "le_value (take 4 u) = length p" using assms(2) by simp
  with False assms(1,4) show ?thesis by (simp add: take_frame_def write_packet_def Let_def)
qed

lemma take_frames_prefix:
  assumes "list_all (\<lambda>p. length p \<le> limit \<and> length p < 2 ^ 32) ps"
    and "u @ v = concat (map write_packet ps)"
  shows "\<exists>taken left rest. ps = taken @ left \<and> take_frames u limit = (taken, Some rest)
     \<and> rest @ v = concat (map write_packet left)
     \<and> (case left of [] \<Rightarrow> rest = [] | p # _ \<Rightarrow> length rest < length (write_packet p))"
  using assms
proof (induction ps arbitrary: u)
  case Nil
  then show ?case by (subst take_frames.simps) (simp add: take_frame_def)
next
  case (Cons p ps)
  have p: "length p \<le> limit" "length p < 2 ^ 32" using Cons.prems(1) by simp_all
  show ?case
  proof (cases "length u < length (write_packet p)")
    case True
    then have "take_frame u limit = Inr (None, u)"
      by (intro take_frame_partial [OF p]) (use Cons.prems(2) in simp_all)
    then have "take_frames u limit = ([], Some u)" by (subst take_frames.simps) simp
    with True Cons.prems(2) show ?thesis
      by (intro exI [of _ "[]"] exI [of _ "p # ps"] exI [of _ u]) simp
  next
    case False
    define u' where "u' = drop (length (write_packet p)) u"
    have eq: "u @ v = write_packet p @ concat (map write_packet ps)" using Cons.prems(2) by simp
    from arg_cong [OF eq, of "take (length (write_packet p))"] False
    have "take (length (write_packet p)) u = write_packet p" by simp
    then have u1: "u = write_packet p @ u'"
      unfolding u'_def by (metis append_take_drop_id)
    with eq have u: "u = write_packet p @ u'" "u' @ v = concat (map write_packet ps)" by simp_all
    from Cons.IH [OF _ u(2)] Cons.prems(1) obtain taken left rest where
      r: "ps = taken @ left" "take_frames u' limit = (taken, Some rest)"
      "rest @ v = concat (map write_packet left)"
      "case left of [] \<Rightarrow> rest = [] | p # _ \<Rightarrow> length rest < length (write_packet p)"
      by auto
    have "take_frames u limit = (p # taken, Some rest)"
      by (subst take_frames.simps) (simp add: u(1) take_frame_packet [OF p] r(2))
    with r show ?thesis by (intro exI [of _ "p # taken"] exI [of _ left]) simp
  qed
qed

lemma receive_packets_all:
  "list_all (\<lambda>p. length p \<le> limit \<and> length p < 2 ^ 32) ps \<Longrightarrow>
     inbound @ concat chunks = concat (map write_packet ps) \<Longrightarrow>
     receive_packets limit inbound chunks = ps"
proof (induction chunks arbitrary: inbound ps)
  case Nil
  then have eq: "inbound @ [] = concat (map write_packet ps)" by simp
  from take_frames_prefix [OF Nil(1) eq] obtain taken left rest where
    r: "ps = taken @ left" "take_frames inbound limit = (taken, Some rest)"
    "rest = concat (map write_packet left)"
    "case left of [] \<Rightarrow> rest = [] | p # _ \<Rightarrow> length rest < length (write_packet p)"
    by auto
  then show ?case by (cases left) auto
next
  case (Cons chunk chunks)
  then have "inbound @ chunk @ concat chunks = concat (map write_packet ps)" by simp
  from take_frames_prefix [OF Cons.prems(1) this] obtain taken left rest where
    r: "ps = taken @ left" "take_frames inbound limit = (taken, Some rest)"
    "rest @ chunk @ concat chunks = concat (map write_packet left)"
    by blast
  have "receive_packets limit (rest @ chunk) chunks = left"
    by (rule Cons.IH) (use Cons.prems(1) r in simp_all)
  with r show ?case by simp
qed

end
