(* ===== verification/Framing_Properties.thy ===== *)
theory Framing_Properties
  imports Framing_Facts
begin

text \<open>What the framing of the tunnel and of the local service guarantees.\<close>

section \<open>A concrete codec\<close>

text \<open>A message that is its own serialization, and a preface serialized as its session id.\<close>

definition demo_preface_vec :: "stream_preface \<Rightarrow> bytes option" where
  "demo_preface_vec p = (case sp_session_id p of None \<Rightarrow> None | Some s \<Rightarrow> Some (str_bytes s))"

definition demo_preface_parse :: "bytes \<Rightarrow> stream_preface option" where
  "demo_preface_parse bs =
     Some \<lparr>sp_stream_kind = LiveState, sp_session_id = Some (bytes_str bs), sp_view_id = None\<rparr>"

definition demo_preface :: stream_preface where
  "demo_preface = \<lparr>sp_stream_kind = LiveState, sp_session_id = Some ''s1'', sp_view_id = None\<rparr>"

lemma demo_preface_encoded:
  "encode_preface demo_preface_vec demo_preface =
     Inr (MAGIC @ [0, 1, 0, 9, 3, 0, 0, 0, 0, 0, 0, 2] @ str_bytes ''s1'')"
  by (simp add: encode_preface_def demo_preface_def demo_preface_vec_def MAX_PREFACE_METADATA_BYTES_def
      PROTOCOL_MAJOR_def PROTOCOL_MINOR_def uint_bytes kind_as_byte_def)

lemma demo_preface_ok: "json_ok demo_preface_vec demo_preface_parse demo_preface"
  by (simp add: json_ok_def demo_preface_vec_def demo_preface_parse_def demo_preface_def)

section \<open>Streams\<close>

text \<open>
  C11. A stream survives any chunking. If a peer writes a preface and then messages, the reader
  that receives those bytes in any chunks, however they are split, reads the preface, then each
  message in order, then the end of the stream, for every limit below 4 GiB and every message
  the serialization library reads back as written.
\<close>

theorem stream_survives_chunking:
  assumes "json_ok pvec pslice p" and "encode_preface pvec p = Inr pbytes"
    and "list_all (json_ok to_vec from_slice) ms" and "limit < 2 ^ 32"
    and "map (\<lambda>m. encode_message to_vec m limit) ms = map Inr bss"
    and "concat chunks = pbytes @ concat bss"
  shows "\<exists>s. read_preface pslice (new_stream chunks) = (Inr p, s)
     \<and> repeat_read (Suc (length ms)) (read_message from_slice limit) s
         = map (\<lambda>m. Inr (Some m)) ms @ [Inr None]"
proof -
  define l :: u32 where "l = of_nat limit"
  have l: "unat l = limit" using assms(4) by (simp add: l_def unat_of_nat)
  obtain s where s: "read_frame 16 preface_total (decode_preface pslice) (new_stream chunks)
      = (Inr (Some (id p)), s)" "wf_stream s" "unread s = concat bss"
    using preface.read_frame_encoded [OF assms(2,1) wf_new_stream(1)] assms(6) by auto
  have "repeat_read (Suc (length ms)) (read_message from_slice limit) s
      = map (\<lambda>m. Inr (Some (id m))) ms @ [Inr None]"
    unfolding read_message_def l [symmetric]
    by (rule message.read_frames_encoded [OF assms(3) _ s(2,3)]) (use assms(5) l in simp)
  with s(1) show ?thesis by (simp add: read_preface_def)
qed

lemma stream_survives_chunking_witness:
  "\<exists>s. read_preface demo_preface_parse (new_stream
       [MAGIC @ [0], [1, 0, 9, 3, 0, 0, 0, 0, 0, 0, 2] @ str_bytes ''s1'' @ [0, 0], [0, 1, 5]])
     = (Inr demo_preface, s)
     \<and> repeat_read (Suc (Suc 0)) (read_message Some 10) s = [Inr (Some [5]), Inr None]"
  using stream_survives_chunking [OF demo_preface_ok demo_preface_encoded, where to_vec = Some and from_slice = Some
      and ms = "[[5]]" and limit = 10 and bss = "[[0, 0, 0, 1, 5]]" and
      chunks = "[MAGIC @ [0], [1, 0, 9, 3, 0, 0, 0, 0, 0, 0, 2] @ str_bytes ''s1'' @ [0, 0], [0, 1, 5]]"]
  by (simp add: json_ok_def encode_message_def uint_bytes)

text \<open>
  The same holds of the compact transport: messages written on one channel are read back
  from any chunking, in order, then the end of the stream.
\<close>

theorem compact_survives_chunking:
  assumes "list_all (json_ok to_vec from_slice) ms" and "limit < 2 ^ 32"
    and "map (\<lambda>m. encode_compact_message to_vec channel m limit) ms = map Inr bss"
    and "concat chunks = concat bss"
  shows "repeat_read (Suc (length ms)) (read_compact_message from_slice channel limit) (new_stream chunks)
     = map (\<lambda>m. Inr (Some m)) ms @ [Inr None]"
proof -
  define l :: u32 where "l = of_nat limit"
  have l: "unat l = limit" using assms(2) by (simp add: l_def unat_of_nat)
  have "repeat_read (Suc (length ms)) (read_compact_message from_slice channel limit) (new_stream chunks)
      = map (\<lambda>m. Inr (Some (id m))) ms @ [Inr None]"
    unfolding read_compact_message_def l [symmetric]
    by (rule compact.read_frames_encoded [OF assms(1) _ wf_new_stream(1)])
      (use assms(3,4) l in simp_all)
  then show ?thesis by simp
qed

lemma compact_survives_chunking_witness:
  "repeat_read (Suc (Suc 0)) (read_compact_message Some StateChannel 10) (new_stream [[0, 0, 0], [2, 2, 7]])
     = [Inr (Some [7 :: u8]), Inr None]"
  using compact_survives_chunking [of Some Some "[[7]]" 10 StateChannel "[[0, 0, 0, 2, 2, 7]]"
      "[[0, 0, 0], [2, 2, 7]]"]
  by (simp add: json_ok_def encode_compact_message_def uint_bytes channel_as_byte_def)

text \<open>
  C21. A reader never panics and sees only the unread bytes: reading a message from a buffer and
  the chunks still to come gives the result, and leaves the unread bytes, that the specification
  gives on their concatenation; in particular it depends neither on the chunking nor on where
  the buffer's start offset lies, and the reader's own check for an end of stream inside a frame
  is never reached.
\<close>

theorem read_message_refines:
  assumes "wf_stream s" and "read_message from_slice limit s = (r, s')"
  shows "(r, unread s') = read_spec 4 (message_total limit)
            (\<lambda>frame. decode_message from_slice frame limit) (unread s)
     \<and> wf_stream s' \<and> r \<noteq> Inl Panicked \<and> r \<noteq> Inl EofInFrame"
proof -
  have "(r, unread s') = read_spec 4 (message_total limit)
            (\<lambda>frame. decode_message from_slice frame limit) (unread s) \<and> wf_stream s'"
    using read_frame_spec [OF assms(1) _ assms(2) [unfolded read_message_def]] by simp
  moreover from this have "r \<noteq> Inl Panicked \<and> r \<noteq> Inl EofInFrame"
    by (auto simp: read_spec_def message_total_def decode_message_def Let_def
        split: if_splits sum.splits option.splits)
  ultimately show ?thesis by blast
qed

lemma read_message_refines_witness:
  "fst (read_message Some 10 (new_stream [[0, 0], [0, 1], [9]])) \<noteq> Inl Panicked
   \<and> fst (read_message Some 10 (new_stream [[0, 0], [0, 1], [9]])) = Inr (Some [9])"
proof -
  obtain r s' where r: "read_message Some 10 (new_stream [[0, 0], [0, 1], [9]]) = (r, s')" by fastforce
  from read_message_refines [OF wf_new_stream(1) r] show ?thesis
    by (simp add: r read_spec_def message_total_def decode_message_def be_value_def slice_def)
qed

section \<open>Decoders\<close>

text \<open>
  A decoder reads its frame and nothing else: what it accepts lies within the bytes and
  within the limit, bytes after the frame change nothing, and every proper prefix of an accepted
  frame is refused as truncated rather than misread.
\<close>

theorem decoder_reads_only_its_frame:
  assumes "decode_message from_slice bs limit = Inr (m, n)"
  shows "n \<le> length bs \<and> n \<le> 4 + limit
     \<and> decode_message from_slice (take n bs @ rest) limit = Inr (m, n)
     \<and> (k < n \<longrightarrow> decode_message from_slice (take k bs) limit \<in> {Inl TruncatedFrame, Inl TruncatedPayload})"
proof -
  have n: "n = 4 + be_value (take 4 bs)" "4 \<le> length bs" "n \<le> length bs"
    "be_value (take 4 bs) \<le> limit" "from_slice (slice 4 (be_value (take 4 bs)) bs) = Some m"
    using assms by (auto simp: decode_message_def Let_def split: if_splits option.splits)
  have "decode_message from_slice (take n bs @ rest) limit = Inr (m, n)"
    using n by (simp add: decode_message_def slice_def min_absorb2 take_drop Let_def)
  moreover have "k < n \<Longrightarrow> decode_message from_slice (take k bs) limit
      \<in> {Inl TruncatedFrame, Inl TruncatedPayload}"
    using n by (auto simp: decode_message_def min_def Let_def)
  ultimately show ?thesis using n by auto
qed

lemma decoder_reads_only_its_frame_witness:
  "decode_message Some (take 5 [0, 0, 0, 1, 9, 9 :: u8] @ [3]) 10 = Inr ([9], 5)"
proof -
  have "decode_message Some [0, 0, 0, 1, 9, 9 :: u8] 10 = Inr ([9], 5)"
    by (simp add: decode_message_def be_value_def slice_def)
  from decoder_reads_only_its_frame [OF this, of "[3]" 0] show ?thesis by blast
qed

section \<open>Client packets\<close>

text \<open>
  The local service recovers every packet a client wrote, in order, from any chunking of the
  connection's bytes, when no packet exceeds the limit.
\<close>

theorem packets_survive_chunking:
  assumes "list_all (\<lambda>p. length p \<le> limit \<and> length p < 2 ^ 32) packets"
    and "concat chunks = concat (map write_packet packets)"
  shows "receive_packets limit [] chunks = packets"
  using receive_packets_all [OF assms(1), of "[]" chunks] assms(2) by simp

lemma packets_survive_chunking_witness:
  "receive_packets 16 [] [[2, 0], [0, 0, 7], [8, 0, 0, 0, 0]] = [[7, 8], []]"
  using packets_survive_chunking [of 16 "[[7, 8], []]" "[[2, 0], [0, 0, 7], [8, 0, 0, 0, 0]]"]
  by (simp add: write_packet_def uint_bytes)

end
