(* ===== verification/Logical_State.thy ===== *)
theory Logical_State
  imports Prelude
begin

text \<open>
  The logical terminal state a host replicates (\<open>ghosttea-core/src/logical.rs\<close>) and the
  messages that carry it (\<open>StateMessage\<close> of \<open>ghosttea/src/tunnel_protocol.rs\<close>). The
  session activity and the terminal presentation are type parameters.
\<close>

type_synonym rgb = "u8 \<times> u8 \<times> u8"

record cell_style =
  st_bold :: bool
  st_italic :: bool
  st_faint :: bool
  st_inverse :: bool
  st_invisible :: bool
  st_strikethrough :: bool
  st_underline :: bool
  st_foreground :: "rgb option"
  st_background :: "rgb option"
  st_foreground_default :: bool
  st_foreground_palette :: "u8 option"
  st_background_default :: bool
  st_background_palette :: "u8 option"

record logical_cell =
  ce_column :: u16
  ce_span :: u16
  ce_text :: string
  ce_style :: cell_style

record logical_row =
  ro_text :: string
  ro_cells :: "logical_cell list"

record logical_cursor =
  cu_x :: u16
  cu_y :: u16
  cu_visible :: bool
  cu_style :: u8
  cu_blinking :: bool

record logical_scrollbar =
  sb_total :: u64
  sb_offset :: u64
  sb_len :: u64

record logical_snapshot =
  ss_session_epoch :: u64
  ss_layout_epoch :: u64
  ss_terminal_revision :: u64
  ss_cols :: u16
  ss_rows :: "logical_row list"
  ss_cursor :: logical_cursor
  ss_mouse_tracking :: bool
  ss_scrollbar :: logical_scrollbar
  ss_title :: "string option"
  ss_cwd :: "string option"

record row_replacement =
  rr_row_index :: u16
  rr_row_revision :: u64
  rr_row :: logical_row

record logical_patch_rec =
  pa_session_epoch :: u64
  pa_layout_epoch :: u64
  pa_patch_sequence :: u64
  pa_terminal_revision :: u64
  pa_row_replacements :: "row_replacement list"
  pa_cursor :: "logical_cursor option"
  pa_mouse_tracking :: "bool option"
  pa_scrollbar :: "logical_scrollbar option"

record selection_point =
  pt_column :: u16
  pt_row :: u32

record tracked_selection =
  se_anchor :: selection_point
  se_focus :: selection_point

record controller_info =
  ci_controller_view_id :: string
  ci_control_epoch :: u64

datatype session_end_reason = Exited "i32 option" | Closed

datatype ('act, 'pres) state_message =
    Snapshot logical_snapshot
  | Patch logical_patch_rec
  | ControlChanged string u64 u16 u16 u64
  | ActivityChanged 'act
  | ConfigurationChanged 'pres
  | SelectionChanged "tracked_selection option"
  | ControlState "controller_info option" u64 u16 u16 u64
  | SessionEnded session_end_reason
  | HostShutdown

datatype state_codec = Json | CompactJsonV1

section \<open>Styles of a message\<close>

text \<open>\<open>visit_styles_mut\<close>: apply a function to the style of every cell.\<close>

definition map_row_styles :: "(cell_style \<Rightarrow> cell_style) \<Rightarrow> logical_row \<Rightarrow> logical_row" where
  "map_row_styles f r = r\<lparr>ro_cells := map (\<lambda>c. c\<lparr>ce_style := f (ce_style c)\<rparr>) (ro_cells r)\<rparr>"

definition map_replacement_styles :: "(cell_style \<Rightarrow> cell_style) \<Rightarrow> row_replacement \<Rightarrow> row_replacement" where
  "map_replacement_styles f r = r\<lparr>rr_row := map_row_styles f (rr_row r)\<rparr>"

fun visit_styles ::
  "(cell_style \<Rightarrow> cell_style) \<Rightarrow> ('act, 'pres) state_message \<Rightarrow> ('act, 'pres) state_message" where
  "visit_styles f (Snapshot s) = Snapshot (s\<lparr>ss_rows := map (map_row_styles f) (ss_rows s)\<rparr>)"
| "visit_styles f (Patch p) =
     Patch (p\<lparr>pa_row_replacements := map (map_replacement_styles f) (pa_row_replacements p)\<rparr>)"
| "visit_styles f m = m"

fun message_styles :: "('act, 'pres) state_message \<Rightarrow> cell_style list" where
  "message_styles (Snapshot s) = concat (map (\<lambda>r. map ce_style (ro_cells r)) (ss_rows s))"
| "message_styles (Patch p) =
     concat (map (\<lambda>r. map ce_style (ro_cells (rr_row r))) (pa_row_replacements p))"
| "message_styles m = []"

definition legacy_style :: "cell_style \<Rightarrow> cell_style" where
  "legacy_style s = s\<lparr>st_foreground_default := False, st_foreground_palette := None,
     st_background_default := False, st_background_palette := None\<rparr>"

definition legacy_state_message :: "('act, 'pres) state_message \<Rightarrow> ('act, 'pres) state_message" where
  "legacy_state_message = visit_styles legacy_style"

definition uses_semantic_colors :: "cell_style \<Rightarrow> bool" where
  "uses_semantic_colors s \<longleftrightarrow> st_foreground_default s \<or> st_foreground_palette s \<noteq> None
     \<or> st_background_default s \<or> st_background_palette s \<noteq> None"

datatype state_error =
    ForegroundConflict | BackgroundConflict | LegacyPaletteColor | UnsupportedExtensionFlags
  | ClosedWithExitCode | UnknownEndReason string | SemanticColorsRequireMinor8 | MalformedCompact

definition style_conflict :: "cell_style \<Rightarrow> state_error option" where
  "style_conflict s =
     (if st_foreground_default s \<and> st_foreground_palette s \<noteq> None then Some ForegroundConflict
      else if st_background_default s \<and> st_background_palette s \<noteq> None then Some BackgroundConflict
      else None)"

fun validate_styles :: "cell_style list \<Rightarrow> bool \<Rightarrow> state_error + bool" where
  "validate_styles [] uses = Inr uses"
| "validate_styles (s # ss) uses =
     (case style_conflict s of
        Some e \<Rightarrow> Inl e
      | None \<Rightarrow> validate_styles ss (uses \<or> uses_semantic_colors s))"

definition validate_semantic_colors :: "('act, 'pres) state_message \<Rightarrow> state_error + bool" where
  "validate_semantic_colors m = validate_styles (message_styles m) False"

end
