(* ===== verification/Compact_Codec.thy ===== *)
theory Compact_Codec
  imports Logical_State Tunnel_Framing "HOL-Library.Monad_Syntax"
begin

text \<open>
  The compact state codec of \<open>ghosttea/src/tunnel_protocol.rs\<close>: the \<open>Serialize\<close>
  implementations of the \<open>Compact*Ref\<close> types, the \<open>Deserialize\<close> implementations of the
  \<open>Compact*\<close> types, and the conversions between those and the logical state. A value is
  serialized to, and deserialized from, the data model of \<open>serde\<close>, \<open>sval\<close>; turning it
  into JSON text is \<open>serde_json\<close>'s. The derived implementations for the session activity and
  the terminal presentation are generated code: the fields of \<open>derived\<close>.
\<close>

section \<open>The data model\<close>

datatype sval =
    SNull
  | SBool bool
  | SNum int
  | SStr string
  | SSeq "sval list"
  | SVariant string sval

record ('act, 'pres) derived =
  dv_ser_activity :: "'act \<Rightarrow> sval"
  dv_de_activity :: "sval \<Rightarrow> 'act option"
  dv_ser_presentation :: "'pres \<Rightarrow> sval"
  dv_de_presentation :: "sval \<Rightarrow> 'pres option"

definition ser_uint :: "'a::len word \<Rightarrow> sval" where
  "ser_uint n = SNum (uint n)"

definition ser_opt :: "('a \<Rightarrow> sval) \<Rightarrow> 'a option \<Rightarrow> sval" where
  "ser_opt f x = (case x of None \<Rightarrow> SNull | Some y \<Rightarrow> f y)"

definition ser_rgb :: "rgb \<Rightarrow> sval" where
  "ser_rgb c = (case c of (r, g, b) \<Rightarrow> SSeq [ser_uint r, ser_uint g, ser_uint b])"

text \<open>An integer outside the target's range is a deserialization error.\<close>

definition de_uint :: "sval \<Rightarrow> 'a::len word option" where
  "de_uint v = (case v of
     SNum n \<Rightarrow> if 0 \<le> n \<and> n < 2 ^ LENGTH('a) then Some (word_of_int n) else None
   | _ \<Rightarrow> None)"

definition de_i32 :: "sval \<Rightarrow> i32 option" where
  "de_i32 v = (case v of
     SNum n \<Rightarrow> if - (2 ^ 31) \<le> n \<and> n < 2 ^ 31 then Some (word_of_int n) else None
   | _ \<Rightarrow> None)"

definition de_bool :: "sval \<Rightarrow> bool option" where
  "de_bool v = (case v of SBool b \<Rightarrow> Some b | _ \<Rightarrow> None)"

definition de_str :: "sval \<Rightarrow> string option" where
  "de_str v = (case v of SStr s \<Rightarrow> Some s | _ \<Rightarrow> None)"

definition de_opt :: "(sval \<Rightarrow> 'a option) \<Rightarrow> sval \<Rightarrow> 'a option option" where
  "de_opt f v = (case v of SNull \<Rightarrow> Some None | _ \<Rightarrow> map_option Some (f v))"

definition de_seq :: "(sval \<Rightarrow> 'a option) \<Rightarrow> sval \<Rightarrow> 'a list option" where
  "de_seq f v = (case v of SSeq vs \<Rightarrow> collect_opt (map f vs) | _ \<Rightarrow> None)"

definition de_tuple :: "nat \<Rightarrow> sval \<Rightarrow> sval list option" where
  "de_tuple n v = (case v of SSeq vs \<Rightarrow> if length vs = n then Some vs else None | _ \<Rightarrow> None)"

definition de_rgb :: "sval \<Rightarrow> rgb option" where
  "de_rgb v = do {
     vs \<leftarrow> de_tuple 3 v;
     r \<leftarrow> de_uint (vs ! 0); g \<leftarrow> de_uint (vs ! 1); b \<leftarrow> de_uint (vs ! 2);
     Some (r, g, b)}"

section \<open>Cell styles\<close>

datatype semantic_color_ref = DefaultRef | PaletteRef u8 | RgbRef rgb

definition compact_semantic_color ::
  "bool \<Rightarrow> u8 option \<Rightarrow> rgb option \<Rightarrow> semantic_color_ref" where
  "compact_semantic_color is_default palette color =
     (if is_default then DefaultRef
      else case palette of
        Some index \<Rightarrow> PaletteRef index
      | None \<Rightarrow> (case color of Some c \<Rightarrow> RgbRef c | None \<Rightarrow> DefaultRef))"

fun ser_semantic_color :: "semantic_color_ref \<Rightarrow> sval" where
  "ser_semantic_color DefaultRef = SNull"
| "ser_semantic_color (PaletteRef index) = ser_uint index"
| "ser_semantic_color (RgbRef c) = ser_rgb c"

definition style_flags :: "cell_style \<Rightarrow> u8" where
  "style_flags s =
     of_bool (st_bold s) OR push_bit 1 (of_bool (st_italic s)) OR push_bit 2 (of_bool (st_faint s))
     OR push_bit 3 (of_bool (st_inverse s)) OR push_bit 4 (of_bool (st_invisible s))
     OR push_bit 5 (of_bool (st_strikethrough s)) OR push_bit 6 (of_bool (st_underline s))"

definition ser_style :: "bool \<Rightarrow> cell_style \<Rightarrow> state_error + sval" where
  "ser_style semantic_colors s =
     (case style_conflict s of
        Some e \<Rightarrow> Inl e
      | None \<Rightarrow>
          let flags = style_flags s
          in if semantic_colors \<and> uses_semantic_colors s
             then Inr (SSeq [ser_uint (flags OR 0x80),
                    ser_semantic_color (compact_semantic_color (st_foreground_default s)
                      (st_foreground_palette s) (st_foreground s)),
                    ser_semantic_color (compact_semantic_color (st_background_default s)
                      (st_background_palette s) (st_background s))])
             else Inr (SSeq [ser_uint flags, ser_opt ser_rgb (st_foreground s),
                    ser_opt ser_rgb (st_background s)]))"

datatype compact_color = Palette u8 | Rgb rgb

type_synonym compact_style = "u8 \<times> compact_color option \<times> compact_color option"

definition de_compact_color :: "sval \<Rightarrow> compact_color option" where
  "de_compact_color v = (case v of
     SNum n \<Rightarrow> map_option Palette (de_uint v)
   | SSeq vs \<Rightarrow> map_option Rgb (de_rgb v)
   | _ \<Rightarrow> None)"

definition de_style :: "sval \<Rightarrow> compact_style option" where
  "de_style v = do {
     vs \<leftarrow> de_tuple 3 v;
     flags \<leftarrow> de_uint (vs ! 0);
     if flags AND 0x80 \<noteq> 0 then do {
       foreground \<leftarrow> de_opt de_compact_color (vs ! 1);
       background \<leftarrow> de_opt de_compact_color (vs ! 2);
       Some (flags, foreground, background)}
     else do {
       foreground \<leftarrow> de_opt de_rgb (vs ! 1);
       background \<leftarrow> de_opt de_rgb (vs ! 2);
       Some (flags, map_option Rgb foreground, map_option Rgb background)}}"

text \<open>The colour, default marker and palette index one side of a style decodes to.\<close>

definition style_color ::
  "bool \<Rightarrow> compact_color option \<Rightarrow> state_error + rgb option \<times> bool \<times> u8 option" where
  "style_color semantic color =
     (case color of
        None \<Rightarrow> Inr (None, False, None)
      | Some (Palette index) \<Rightarrow>
          if semantic then Inr (None, False, Some index) else Inl LegacyPaletteColor
      | Some (Rgb c) \<Rightarrow> Inr (Some c, False, None))"

definition style_of_compact :: "compact_style \<Rightarrow> state_error + cell_style" where
  "style_of_compact s =
     (case s of (flags, foreground, background) \<Rightarrow>
        bind_res (style_color (flags AND 0x80 \<noteq> 0) foreground) (\<lambda>(fg, fg_default, fg_palette).
        bind_res (style_color (flags AND 0x80 \<noteq> 0) background) (\<lambda>(bg, bg_default, bg_palette).
          Inr \<lparr>st_bold = flags AND 1 \<noteq> 0, st_italic = flags AND 2 \<noteq> 0, st_faint = flags AND 4 \<noteq> 0,
               st_inverse = flags AND 8 \<noteq> 0, st_invisible = flags AND 16 \<noteq> 0,
               st_strikethrough = flags AND 32 \<noteq> 0, st_underline = flags AND 64 \<noteq> 0,
               st_foreground = fg, st_background = bg, st_foreground_default = fg_default,
               st_foreground_palette = fg_palette, st_background_default = bg_default,
               st_background_palette = bg_palette\<rparr>)))"

section \<open>Rows\<close>

definition ser_cell :: "bool \<Rightarrow> logical_cell \<Rightarrow> state_error + sval" where
  "ser_cell semantic c =
     bind_res (ser_style semantic (ce_style c)) (\<lambda>style.
       Inr (SSeq [ser_uint (ce_column c), ser_uint (ce_span c), SStr (ce_text c), style]))"

definition ser_row :: "bool \<Rightarrow> logical_row \<Rightarrow> state_error + sval" where
  "ser_row semantic r =
     bind_res (collect_res (map (ser_cell semantic) (ro_cells r))) (\<lambda>cells.
       Inr (SSeq [SStr (ro_text r), SSeq cells]))"

definition ser_replacement :: "bool \<Rightarrow> row_replacement \<Rightarrow> state_error + sval" where
  "ser_replacement semantic r =
     bind_res (ser_row semantic (rr_row r)) (\<lambda>row.
       Inr (SSeq [ser_uint (rr_row_index r), ser_uint (rr_row_revision r), row]))"

type_synonym compact_cell = "u16 \<times> u16 \<times> string \<times> compact_style"
type_synonym compact_row = "string \<times> compact_cell list"
type_synonym compact_replacement = "u16 \<times> u64 \<times> compact_row"

definition de_cell :: "sval \<Rightarrow> compact_cell option" where
  "de_cell v = do {
     vs \<leftarrow> de_tuple 4 v;
     column \<leftarrow> de_uint (vs ! 0); span \<leftarrow> de_uint (vs ! 1); cell_text \<leftarrow> de_str (vs ! 2); style \<leftarrow> de_style (vs ! 3);
     Some (column, span, cell_text, style)}"

definition de_row :: "sval \<Rightarrow> compact_row option" where
  "de_row v = do {
     vs \<leftarrow> de_tuple 2 v;
     row_text \<leftarrow> de_str (vs ! 0); cells \<leftarrow> de_seq de_cell (vs ! 1);
     Some (row_text, cells)}"

definition de_replacement :: "sval \<Rightarrow> compact_replacement option" where
  "de_replacement v = do {
     vs \<leftarrow> de_tuple 3 v;
     index \<leftarrow> de_uint (vs ! 0); revision \<leftarrow> de_uint (vs ! 1); row \<leftarrow> de_row (vs ! 2);
     Some (index, revision, row)}"

definition cell_of_compact :: "compact_cell \<Rightarrow> state_error + logical_cell" where
  "cell_of_compact c = (case c of (column, span, cell_text, style) \<Rightarrow>
     bind_res (style_of_compact style) (\<lambda>style.
       Inr \<lparr>ce_column = column, ce_span = span, ce_text = cell_text, ce_style = style\<rparr>))"

definition row_of_compact :: "compact_row \<Rightarrow> state_error + logical_row" where
  "row_of_compact r = (case r of (row_text, cells) \<Rightarrow>
     bind_res (collect_res (map cell_of_compact cells)) (\<lambda>cells.
       Inr \<lparr>ro_text = row_text, ro_cells = cells\<rparr>))"

definition replacement_of_compact :: "compact_replacement \<Rightarrow> state_error + row_replacement" where
  "replacement_of_compact r = (case r of (index, revision, row) \<Rightarrow>
     bind_res (row_of_compact row) (\<lambda>row.
       Inr \<lparr>rr_row_index = index, rr_row_revision = revision, rr_row = row\<rparr>))"

section \<open>Cursor and scrollbar\<close>

definition ser_cursor :: "logical_cursor \<Rightarrow> sval" where
  "ser_cursor c = SSeq [ser_uint (cu_x c), ser_uint (cu_y c), SBool (cu_visible c),
     ser_uint (cu_style c), SBool (cu_blinking c)]"

definition de_cursor :: "sval \<Rightarrow> logical_cursor option" where
  "de_cursor v = do {
     vs \<leftarrow> de_tuple 5 v;
     x \<leftarrow> de_uint (vs ! 0); y \<leftarrow> de_uint (vs ! 1); visible \<leftarrow> de_bool (vs ! 2);
     style \<leftarrow> de_uint (vs ! 3); blinking \<leftarrow> de_bool (vs ! 4);
     Some \<lparr>cu_x = x, cu_y = y, cu_visible = visible, cu_style = style, cu_blinking = blinking\<rparr>}"

definition ser_scrollbar :: "logical_scrollbar \<Rightarrow> sval" where
  "ser_scrollbar s = SSeq [ser_uint (sb_total s), ser_uint (sb_offset s), ser_uint (sb_len s)]"

definition de_scrollbar :: "sval \<Rightarrow> logical_scrollbar option" where
  "de_scrollbar v = do {
     vs \<leftarrow> de_tuple 3 v;
     whole \<leftarrow> de_uint (vs ! 0); offset \<leftarrow> de_uint (vs ! 1); len \<leftarrow> de_uint (vs ! 2);
     Some \<lparr>sb_total = whole, sb_offset = offset, sb_len = len\<rparr>}"

section \<open>Snapshots and patches\<close>

definition ser_snapshot :: "bool \<Rightarrow> logical_snapshot \<Rightarrow> state_error + sval" where
  "ser_snapshot semantic s =
     bind_res (collect_res (map (ser_row semantic) (ss_rows s))) (\<lambda>rows.
       Inr (SSeq [ser_uint (ss_session_epoch s), ser_uint (ss_layout_epoch s),
         ser_uint (ss_terminal_revision s), ser_uint (ss_cols s), SSeq rows,
         ser_cursor (ss_cursor s), SBool (ss_mouse_tracking s), ser_scrollbar (ss_scrollbar s),
         ser_opt SStr (ss_title s), ser_opt SStr (ss_cwd s)]))"

definition ser_patch :: "bool \<Rightarrow> logical_patch_rec \<Rightarrow> state_error + sval" where
  "ser_patch semantic p =
     bind_res (collect_res (map (ser_replacement semantic) (pa_row_replacements p))) (\<lambda>replacements.
       Inr (SSeq [ser_uint (pa_session_epoch p), ser_uint (pa_layout_epoch p),
         ser_uint (pa_patch_sequence p), ser_uint (pa_terminal_revision p), SSeq replacements,
         ser_opt ser_cursor (pa_cursor p), ser_opt SBool (pa_mouse_tracking p),
         ser_opt ser_scrollbar (pa_scrollbar p), ser_uint (0 :: u8)]))"

record compact_snapshot =
  cp_head :: "u64 \<times> u64 \<times> u64 \<times> u16"
  cp_rows :: "compact_row list"
  cp_cursor :: logical_cursor
  cp_mouse_tracking :: bool
  cp_scrollbar :: logical_scrollbar
  cp_title :: "string option"
  cp_cwd :: "string option"

record compact_patch =
  cq_head :: "u64 \<times> u64 \<times> u64 \<times> u64"
  cq_replacements :: "compact_replacement list"
  cq_cursor :: "logical_cursor option"
  cq_mouse_tracking :: "bool option"
  cq_scrollbar :: "logical_scrollbar option"
  cq_extension :: u8

definition de_snapshot :: "sval \<Rightarrow> compact_snapshot option" where
  "de_snapshot v = do {
     vs \<leftarrow> de_tuple 10 v;
     session_epoch \<leftarrow> de_uint (vs ! 0); layout_epoch \<leftarrow> de_uint (vs ! 1);
     revision \<leftarrow> de_uint (vs ! 2); cols \<leftarrow> de_uint (vs ! 3);
     rows \<leftarrow> de_seq de_row (vs ! 4); cursor \<leftarrow> de_cursor (vs ! 5);
     mouse_tracking \<leftarrow> de_bool (vs ! 6); scrollbar \<leftarrow> de_scrollbar (vs ! 7);
     title \<leftarrow> de_opt de_str (vs ! 8); cwd \<leftarrow> de_opt de_str (vs ! 9);
     Some \<lparr>cp_head = (session_epoch, layout_epoch, revision, cols), cp_rows = rows,
           cp_cursor = cursor, cp_mouse_tracking = mouse_tracking, cp_scrollbar = scrollbar,
           cp_title = title, cp_cwd = cwd\<rparr>}"

definition de_patch :: "sval \<Rightarrow> compact_patch option" where
  "de_patch v = do {
     vs \<leftarrow> de_tuple 9 v;
     session_epoch \<leftarrow> de_uint (vs ! 0); layout_epoch \<leftarrow> de_uint (vs ! 1);
     patch_sequence \<leftarrow> de_uint (vs ! 2); revision \<leftarrow> de_uint (vs ! 3);
     replacements \<leftarrow> de_seq de_replacement (vs ! 4); cursor \<leftarrow> de_opt de_cursor (vs ! 5);
     mouse_tracking \<leftarrow> de_opt de_bool (vs ! 6); scrollbar \<leftarrow> de_opt de_scrollbar (vs ! 7);
     extension \<leftarrow> de_uint (vs ! 8);
     Some \<lparr>cq_head = (session_epoch, layout_epoch, patch_sequence, revision),
           cq_replacements = replacements, cq_cursor = cursor, cq_mouse_tracking = mouse_tracking,
           cq_scrollbar = scrollbar, cq_extension = extension\<rparr>}"

definition snapshot_of_compact :: "compact_snapshot \<Rightarrow> state_error + logical_snapshot" where
  "snapshot_of_compact s =
     (case cp_head s of (session_epoch, layout_epoch, revision, cols) \<Rightarrow>
        bind_res (collect_res (map row_of_compact (cp_rows s))) (\<lambda>rows.
          Inr \<lparr>ss_session_epoch = session_epoch, ss_layout_epoch = layout_epoch,
               ss_terminal_revision = revision, ss_cols = cols, ss_rows = rows,
               ss_cursor = cp_cursor s, ss_mouse_tracking = cp_mouse_tracking s,
               ss_scrollbar = cp_scrollbar s, ss_title = cp_title s, ss_cwd = cp_cwd s\<rparr>))"

definition patch_of_compact :: "compact_patch \<Rightarrow> state_error + logical_patch_rec" where
  "patch_of_compact p =
     (if cq_extension p \<noteq> 0 then Inl UnsupportedExtensionFlags
      else case cq_head p of (session_epoch, layout_epoch, patch_sequence, revision) \<Rightarrow>
        bind_res (collect_res (map replacement_of_compact (cq_replacements p))) (\<lambda>replacements.
          Inr \<lparr>pa_session_epoch = session_epoch, pa_layout_epoch = layout_epoch,
               pa_patch_sequence = patch_sequence, pa_terminal_revision = revision,
               pa_row_replacements = replacements, pa_cursor = cq_cursor p,
               pa_mouse_tracking = cq_mouse_tracking p, pa_scrollbar = cq_scrollbar p\<rparr>))"

section \<open>Messages\<close>

definition ser_point :: "selection_point \<Rightarrow> sval list" where
  "ser_point p = [ser_uint (pt_column p), ser_uint (pt_row p)]"

definition ser_selection :: "tracked_selection option \<Rightarrow> sval" where
  "ser_selection = ser_opt (\<lambda>s. SSeq (ser_point (se_anchor s) @ ser_point (se_focus s)))"

definition ser_controller :: "controller_info \<Rightarrow> sval" where
  "ser_controller c = SSeq [SStr (ci_controller_view_id c), ser_uint (ci_control_epoch c)]"

definition ser_end_reason :: "session_end_reason \<Rightarrow> sval" where
  "ser_end_reason r = (case r of
     Exited code \<Rightarrow> SSeq [SStr ''exited'', ser_opt (\<lambda>c. SNum (sint c)) code]
   | Closed \<Rightarrow> SSeq [SStr ''closed'', SNull])"

fun ser_message ::
  "('act, 'pres) derived \<Rightarrow> bool \<Rightarrow> ('act, 'pres) state_message \<Rightarrow> state_error + sval" where
  "ser_message D semantic (Snapshot s) = bind_res (ser_snapshot semantic s) (\<lambda>v. Inr (SVariant ''s'' v))"
| "ser_message D semantic (Patch p) = bind_res (ser_patch semantic p) (\<lambda>v. Inr (SVariant ''p'' v))"
| "ser_message D semantic (ControlChanged view_id control_epoch cols rows layout_epoch) =
     Inr (SVariant ''c'' (SSeq [SStr view_id, ser_uint control_epoch, ser_uint cols,
            ser_uint rows, ser_uint layout_epoch]))"
| "ser_message D semantic (ActivityChanged activity) =
     Inr (SVariant ''a'' (dv_ser_activity D activity))"
| "ser_message D semantic (ConfigurationChanged presentation) =
     Inr (SVariant ''g'' (dv_ser_presentation D presentation))"
| "ser_message D semantic (SelectionChanged selection) = Inr (SVariant ''l'' (ser_selection selection))"
| "ser_message D semantic (ControlState controller control_revision cols rows layout_epoch) =
     Inr (SVariant ''cs'' (SSeq [ser_opt ser_controller controller, ser_uint control_revision,
            ser_uint cols, ser_uint rows, ser_uint layout_epoch]))"
| "ser_message D semantic (SessionEnded reason) = Inr (SVariant ''se'' (ser_end_reason reason))"
| "ser_message D semantic HostShutdown = Inr (SVariant ''hs'' (SSeq []))"

datatype ('act, 'pres) compact_message =
    CSnapshot compact_snapshot
  | CPatch compact_patch
  | CControlChanged string u64 u16 u16 u64
  | CActivityChanged 'act
  | CConfigurationChanged 'pres
  | CControlState "(string \<times> u64) option" u64 u16 u16 u64
  | CSessionEnded string "i32 option"
  | CHostShutdown
  | CSelectionChanged "(u16 \<times> u32 \<times> u16 \<times> u32) option"

definition de_controller :: "sval \<Rightarrow> (string \<times> u64) option" where
  "de_controller v = do {
     vs \<leftarrow> de_tuple 2 v; view_id \<leftarrow> de_str (vs ! 0); epoch \<leftarrow> de_uint (vs ! 1);
     Some (view_id, epoch)}"

definition de_selection :: "sval \<Rightarrow> (u16 \<times> u32 \<times> u16 \<times> u32) option" where
  "de_selection v = do {
     vs \<leftarrow> de_tuple 4 v;
     a \<leftarrow> de_uint (vs ! 0); b \<leftarrow> de_uint (vs ! 1); c \<leftarrow> de_uint (vs ! 2); d \<leftarrow> de_uint (vs ! 3);
     Some (a, b, c, d)}"

definition de_control_changed :: "sval \<Rightarrow> ('act, 'pres) compact_message option" where
  "de_control_changed v = do {
     vs \<leftarrow> de_tuple 5 v;
     view_id \<leftarrow> de_str (vs ! 0); epoch \<leftarrow> de_uint (vs ! 1); cols \<leftarrow> de_uint (vs ! 2);
     rows \<leftarrow> de_uint (vs ! 3); layout \<leftarrow> de_uint (vs ! 4);
     Some (CControlChanged view_id epoch cols rows layout)}"

definition de_control_state :: "sval \<Rightarrow> ('act, 'pres) compact_message option" where
  "de_control_state v = do {
     vs \<leftarrow> de_tuple 5 v;
     controller \<leftarrow> de_opt de_controller (vs ! 0); revision \<leftarrow> de_uint (vs ! 1);
     cols \<leftarrow> de_uint (vs ! 2); rows \<leftarrow> de_uint (vs ! 3); layout \<leftarrow> de_uint (vs ! 4);
     Some (CControlState controller revision cols rows layout)}"

definition de_session_ended :: "sval \<Rightarrow> ('act, 'pres) compact_message option" where
  "de_session_ended v = do {
     vs \<leftarrow> de_tuple 2 v;
     reason \<leftarrow> de_str (vs ! 0); code \<leftarrow> de_opt de_i32 (vs ! 1);
     Some (CSessionEnded reason code)}"

definition de_message ::
  "('act, 'pres) derived \<Rightarrow> sval \<Rightarrow> ('act, 'pres) compact_message option" where
  "de_message D value = (case value of
     SVariant tag v \<Rightarrow>
       if tag = ''s'' then map_option CSnapshot (de_snapshot v)
       else if tag = ''p'' then map_option CPatch (de_patch v)
       else if tag = ''c'' then de_control_changed v
       else if tag = ''a'' then map_option CActivityChanged (dv_de_activity D v)
       else if tag = ''g'' then map_option CConfigurationChanged (dv_de_presentation D v)
       else if tag = ''cs'' then de_control_state v
       else if tag = ''se'' then de_session_ended v
       else if tag = ''hs'' then map_option (\<lambda>_. CHostShutdown) (de_tuple 0 v)
       else if tag = ''l'' then map_option CSelectionChanged (de_opt de_selection v)
       else None
   | _ \<Rightarrow> None)"

definition end_reason_of_compact :: "string \<Rightarrow> i32 option \<Rightarrow> state_error + session_end_reason" where
  "end_reason_of_compact reason code =
     (if reason = ''exited'' then Inr (Exited code)
      else if reason = ''closed''
           then (if code = None then Inr Closed else Inl ClosedWithExitCode)
           else Inl (UnknownEndReason reason))"

fun message_of_compact ::
  "('act, 'pres) compact_message \<Rightarrow> state_error + ('act, 'pres) state_message" where
  "message_of_compact (CSnapshot s) = bind_res (snapshot_of_compact s) (\<lambda>s. Inr (Snapshot s))"
| "message_of_compact (CPatch p) = bind_res (patch_of_compact p) (\<lambda>p. Inr (Patch p))"
| "message_of_compact (CControlChanged view_id epoch cols rows layout) =
     Inr (ControlChanged view_id epoch cols rows layout)"
| "message_of_compact (CActivityChanged activity) = Inr (ActivityChanged activity)"
| "message_of_compact (CConfigurationChanged presentation) = Inr (ConfigurationChanged presentation)"
| "message_of_compact (CControlState controller revision cols rows layout) =
     Inr (ControlState
       (map_option (\<lambda>(view_id, epoch).
          \<lparr>ci_controller_view_id = view_id, ci_control_epoch = epoch\<rparr>) controller)
       revision cols rows layout)"
| "message_of_compact (CSessionEnded reason code) =
     bind_res (end_reason_of_compact reason code) (\<lambda>r. Inr (SessionEnded r))"
| "message_of_compact CHostShutdown = Inr HostShutdown"
| "message_of_compact (CSelectionChanged selection) =
     Inr (SelectionChanged (map_option (\<lambda>(a, b, c, d).
       \<lparr>se_anchor = \<lparr>pt_column = a, pt_row = b\<rparr>, se_focus = \<lparr>pt_column = c, pt_row = d\<rparr>\<rparr>) selection))"

definition row_flags_semantic :: "compact_row \<Rightarrow> bool" where
  "row_flags_semantic r \<longleftrightarrow> list_ex (\<lambda>(column, span, cell_text, flags, fg, bg). flags AND 0x80 \<noteq> 0) (snd r)"

fun compact_message_uses_semantic_colors :: "('act, 'pres) compact_message \<Rightarrow> bool" where
  "compact_message_uses_semantic_colors (CSnapshot s) = list_ex row_flags_semantic (cp_rows s)"
| "compact_message_uses_semantic_colors (CPatch p) =
     list_ex (\<lambda>(index, revision, row). row_flags_semantic row) (cq_replacements p)"
| "compact_message_uses_semantic_colors m = False"

section \<open>State frames\<close>

text \<open>
  \<open>encode_state_message_for_minor\<close> and its inverse. \<open>json\<close> writes and reads a message in the
  plain JSON codec, \<open>text\<close> a value of the data model; both are \<open>serde_json\<close>'s. The error of
  a failing serialization is the first component of the sum, a framing error the second.
\<close>

definition encode_state_message_for_minor ::
  "('act, 'pres) derived \<Rightarrow> (('act, 'pres) state_message \<Rightarrow> bytes option) \<Rightarrow> (sval \<Rightarrow> bytes option)
     \<Rightarrow> ('act, 'pres) state_message \<Rightarrow> state_codec \<Rightarrow> u16 \<Rightarrow> nat
     \<Rightarrow> (state_error + tunnel_error) + bytes" where
  "encode_state_message_for_minor D json_vec text_vec m codec minor limit =
     (case codec of
        Json \<Rightarrow>
          (case validate_semantic_colors m of
             Inl e \<Rightarrow> Inl (Inl e)
           | Inr uses \<Rightarrow>
               let m' = (if minor < SEMANTIC_CELL_COLOR_PROTOCOL_MINOR \<and> uses
                         then legacy_state_message m else m)
               in (case encode_message json_vec m' limit of
                     Inl e \<Rightarrow> Inl (Inr e) | Inr bs \<Rightarrow> Inr bs))
      | CompactJsonV1 \<Rightarrow>
          (case ser_message D (SEMANTIC_CELL_COLOR_PROTOCOL_MINOR \<le> minor) m of
             Inl e \<Rightarrow> Inl (Inl e)
           | Inr v \<Rightarrow>
               (case encode_message text_vec v limit of
                  Inl e \<Rightarrow> Inl (Inr e) | Inr bs \<Rightarrow> Inr bs)))"

definition decode_state_message_for_minor ::
  "('act, 'pres) derived \<Rightarrow> (bytes \<Rightarrow> ('act, 'pres) state_message option) \<Rightarrow> (bytes \<Rightarrow> sval option)
     \<Rightarrow> bytes \<Rightarrow> state_codec \<Rightarrow> u16 \<Rightarrow> nat
     \<Rightarrow> (state_error + tunnel_error) + ('act, 'pres) state_message \<times> nat" where
  "decode_state_message_for_minor D json_slice text_slice bs codec minor limit =
     (case codec of
        Json \<Rightarrow>
          (case decode_message json_slice bs limit of
             Inl e \<Rightarrow> Inl (Inr e)
           | Inr (m, consumed) \<Rightarrow>
               (case validate_semantic_colors m of
                  Inl e \<Rightarrow> Inl (Inl e)
                | Inr uses \<Rightarrow>
                    if minor < SEMANTIC_CELL_COLOR_PROTOCOL_MINOR \<and> uses
                    then Inl (Inl SemanticColorsRequireMinor8) else Inr (m, consumed)))
      | CompactJsonV1 \<Rightarrow>
          (case decode_message (\<lambda>payload. Option.bind (text_slice payload) (de_message D)) bs limit of
             Inl e \<Rightarrow> Inl (Inr e)
           | Inr (m, consumed) \<Rightarrow>
               if minor < SEMANTIC_CELL_COLOR_PROTOCOL_MINOR \<and> compact_message_uses_semantic_colors m
               then Inl (Inl SemanticColorsRequireMinor8)
               else (case message_of_compact m of
                       Inl e \<Rightarrow> Inl (Inl e) | Inr message \<Rightarrow> Inr (message, consumed))))"

text \<open>\<open>encode_state_message\<close> and \<open>decode_state_message\<close>: at this build's own minor.\<close>

definition encode_state_message ::
  "('act, 'pres) derived \<Rightarrow> (('act, 'pres) state_message \<Rightarrow> bytes option) \<Rightarrow> (sval \<Rightarrow> bytes option)
     \<Rightarrow> ('act, 'pres) state_message \<Rightarrow> state_codec \<Rightarrow> nat \<Rightarrow> (state_error + tunnel_error) + bytes" where
  "encode_state_message D json_vec text_vec m codec limit =
     encode_state_message_for_minor D json_vec text_vec m codec PROTOCOL_MINOR limit"

definition decode_state_message ::
  "('act, 'pres) derived \<Rightarrow> (bytes \<Rightarrow> ('act, 'pres) state_message option) \<Rightarrow> (bytes \<Rightarrow> sval option)
     \<Rightarrow> bytes \<Rightarrow> state_codec \<Rightarrow> nat \<Rightarrow> (state_error + tunnel_error) + ('act, 'pres) state_message \<times> nat" where
  "decode_state_message D json_slice text_slice bs codec limit =
     decode_state_message_for_minor D json_slice text_slice bs codec PROTOCOL_MINOR limit"

section \<open>Attach rejection codes\<close>

datatype attach_reject_code =
    RejectStaleResume | RejectViewInvalid | RejectViewLimit | RejectUnknownSession
  | RejectSessionEpochMismatch | RejectAccessDenied | RejectUnknown

fun reject_code_str :: "attach_reject_code \<Rightarrow> string" where
  "reject_code_str RejectStaleResume = ''stale-resume''"
| "reject_code_str RejectViewInvalid = ''view-invalid''"
| "reject_code_str RejectViewLimit = ''view-limit''"
| "reject_code_str RejectUnknownSession = ''unknown-session''"
| "reject_code_str RejectSessionEpochMismatch = ''session-epoch-mismatch''"
| "reject_code_str RejectAccessDenied = ''access-denied''"
| "reject_code_str RejectUnknown = ''unknown''"

definition reject_code_parse :: "string \<Rightarrow> attach_reject_code" where
  "reject_code_parse raw =
     (if raw = ''stale-resume'' then RejectStaleResume
      else if raw = ''view-invalid'' then RejectViewInvalid
      else if raw = ''view-limit'' then RejectViewLimit
      else if raw = ''unknown-session'' then RejectUnknownSession
      else if raw = ''session-epoch-mismatch'' then RejectSessionEpochMismatch
      else if raw = ''access-denied'' then RejectAccessDenied
      else RejectUnknown)"

end
