(* ===== verification/Codec_Facts.thy ===== *)
theory Codec_Facts
  imports Compact_Codec
begin

text \<open>
  The compact codec recovers what it encodes, up to the normal form of its cell colours: each
  serializer has a round-trip lemma in \<open>codec_simps\<close>, and lists are handled once.
\<close>

section \<open>Scalars\<close>

lemma de_uint_ser [codec_simps]: "de_uint (ser_uint n) = Some n"
  by (simp add: de_uint_def ser_uint_def uint_lt2p)

lemma de_bool_ser [codec_simps]: "de_bool (SBool b) = Some b"
  by (simp add: de_bool_def)

lemma de_str_ser [codec_simps]: "de_str (SStr s) = Some s"
  by (simp add: de_str_def)

lemma de_i32_ser [codec_simps]: "de_i32 (SNum (sint c)) = Some c"
  using sint_greater_eq [of c] sint_less [of c] by (simp add: de_i32_def)

lemma de_opt_not_null: "v \<noteq> SNull \<Longrightarrow> de_opt f v = map_option Some (f v)"
  by (cases v) (simp_all add: de_opt_def)

lemma de_opt_ser:
  assumes "\<And>y. g y \<noteq> SNull" and "\<And>y. f (g y) = Some y"
  shows "de_opt f (ser_opt g x) = Some x"
  using assms by (cases x) (simp_all add: ser_opt_def de_opt_not_null, simp add: de_opt_def)

lemma de_tuple_ser [codec_simps]: "de_tuple n (SSeq vs) = (if length vs = n then Some vs else None)"
  by (simp add: de_tuple_def)

lemma de_rgb_ser [codec_simps]: "de_rgb (ser_rgb c) = Some c"
  by (cases c) (simp add: ser_rgb_def de_rgb_def codec_simps)

lemma ser_not_null [codec_simps]:
  "ser_rgb c \<noteq> SNull" "ser_uint n \<noteq> SNull" "ser_cursor cu \<noteq> SNull" "ser_scrollbar sb \<noteq> SNull"
  "ser_controller ci \<noteq> SNull"
  by (auto simp: ser_rgb_def ser_uint_def ser_cursor_def ser_scrollbar_def ser_controller_def
      split: prod.splits)

lemma de_cursor_ser [codec_simps]: "de_cursor (ser_cursor c) = Some c"
  by (simp add: ser_cursor_def de_cursor_def codec_simps)

lemma de_scrollbar_ser [codec_simps]: "de_scrollbar (ser_scrollbar s) = Some s"
  by (simp add: ser_scrollbar_def de_scrollbar_def codec_simps)

lemma de_opt_sers [codec_simps]:
  "de_opt de_str (ser_opt SStr x) = Some x"
  "de_opt de_bool (ser_opt SBool b) = Some b"
  "de_opt de_rgb (ser_opt ser_rgb c) = Some c"
  "de_opt de_cursor (ser_opt ser_cursor cu) = Some cu"
  "de_opt de_scrollbar (ser_opt ser_scrollbar sb) = Some sb"
  "de_opt de_i32 (ser_opt (\<lambda>c. SNum (sint c)) code) = Some code"
  by (rule de_opt_ser; simp add: codec_simps)+

section \<open>Lists\<close>

text \<open>
  A list whose elements round-trip (from \<open>f\<close> through \<open>g\<close> and \<open>h\<close> to \<open>n\<close>) round-trips.
\<close>

lemma collect_round_trip:
  assumes "collect_res (map f xs) = Inr vs"
    and "\<And>x v. x \<in> set xs \<Longrightarrow> f x = Inr v \<Longrightarrow> \<exists>c. g v = Some c \<and> h c = Inr (n x)"
  shows "\<exists>cs. collect_opt (map g vs) = Some cs \<and> collect_res (map h cs) = Inr (map n xs)"
  using assms
proof (induction xs arbitrary: vs)
  case Nil
  then show ?case by simp
next
  case (Cons x xs)
  then obtain v vs' where v: "f x = Inr v" "collect_res (map f xs) = Inr vs'" "vs = v # vs'"
    by (auto simp: bind_res_Inr)
  from Cons.prems(2) [OF _ v(1)] obtain c where "g v = Some c" "h c = Inr (n x)" by auto
  moreover from Cons.IH [OF v(2)] Cons.prems(2) obtain cs where
    "collect_opt (map g vs') = Some cs" "collect_res (map h cs) = Inr (map n xs)"
    by auto
  ultimately show ?case by (auto simp: v(3))
qed

section \<open>Styles\<close>

text \<open>
  The normal form of a style under the codec: with semantic colours a default or palette colour
  supersedes its resolved RGB and a default is the absent colour; without them the markers are
  stripped.
\<close>

definition norm_color :: "bool \<Rightarrow> u8 option \<Rightarrow> rgb option \<Rightarrow> rgb option" where
  "norm_color is_default palette color = (if is_default \<or> palette \<noteq> None then None else color)"

definition norm_style :: "bool \<Rightarrow> cell_style \<Rightarrow> cell_style" where
  "norm_style semantic s =
     (if semantic
      then s\<lparr>st_foreground := norm_color (st_foreground_default s) (st_foreground_palette s) (st_foreground s),
             st_background := norm_color (st_background_default s) (st_background_palette s) (st_background s),
             st_foreground_default := False, st_background_default := False\<rparr>
      else legacy_style s)"

text \<open>The seven flags and the marker occupy one bit each.\<close>

definition pack_flags :: "bool \<Rightarrow> bool \<Rightarrow> bool \<Rightarrow> bool \<Rightarrow> bool \<Rightarrow> bool \<Rightarrow> bool \<Rightarrow> u8" where
  "pack_flags a b c d e f g =
     of_bool a OR push_bit 1 (of_bool b) OR push_bit 2 (of_bool c) OR push_bit 3 (of_bool d)
     OR push_bit 4 (of_bool e) OR push_bit 5 (of_bool f) OR push_bit 6 (of_bool g)"

lemma pack_flags_bits:
  "(pack_flags a b c d e f g AND 1 = 0) = (\<not> a) \<and> (pack_flags a b c d e f g AND 2 = 0) = (\<not> b)
   \<and> (pack_flags a b c d e f g AND 4 = 0) = (\<not> c) \<and> (pack_flags a b c d e f g AND 8 = 0) = (\<not> d)
   \<and> (pack_flags a b c d e f g AND 16 = 0) = (\<not> e) \<and> (pack_flags a b c d e f g AND 32 = 0) = (\<not> f)
   \<and> (pack_flags a b c d e f g AND 64 = 0) = (\<not> g) \<and> pack_flags a b c d e f g AND 128 = 0"
  by (cases a; cases b; cases c; cases d; cases e; cases f; cases g; simp add: pack_flags_def)

lemma pack_flags_or:
  "(pack_flags a b c d e f g OR 128) AND 128 \<noteq> 0
   \<and> (pack_flags a b c d e f g OR 128) AND 1 = pack_flags a b c d e f g AND 1
   \<and> (pack_flags a b c d e f g OR 128) AND 2 = pack_flags a b c d e f g AND 2
   \<and> (pack_flags a b c d e f g OR 128) AND 4 = pack_flags a b c d e f g AND 4
   \<and> (pack_flags a b c d e f g OR 128) AND 8 = pack_flags a b c d e f g AND 8
   \<and> (pack_flags a b c d e f g OR 128) AND 16 = pack_flags a b c d e f g AND 16
   \<and> (pack_flags a b c d e f g OR 128) AND 32 = pack_flags a b c d e f g AND 32
   \<and> (pack_flags a b c d e f g OR 128) AND 64 = pack_flags a b c d e f g AND 64"
  by (cases a; cases b; cases c; cases d; cases e; cases f; cases g; simp add: pack_flags_def)

lemma style_flags_pack:
  "style_flags s = pack_flags (st_bold s) (st_italic s) (st_faint s) (st_inverse s) (st_invisible s)
     (st_strikethrough s) (st_underline s)"
  by (simp add: style_flags_def pack_flags_def)

lemma de_compact_color_ser [codec_simps]:
  "de_compact_color (ser_rgb c) = Some (Rgb c)"
  "de_compact_color (ser_uint (n :: u8)) = Some (Palette n)"
proof -
  have "\<exists>vs. ser_rgb c = SSeq vs" by (cases c) (simp add: ser_rgb_def)
  then show "de_compact_color (ser_rgb c) = Some (Rgb c)"
    using de_rgb_ser [of c] by (auto simp: de_compact_color_def)
  show "de_compact_color (ser_uint n) = Some (Palette n)"
    using de_uint_ser [of n] by (simp add: de_compact_color_def ser_uint_def)
qed

lemma semantic_color_round_trip:
  assumes "\<not> (is_default \<and> palette \<noteq> None)"
  shows "\<exists>c. de_opt de_compact_color (ser_semantic_color (compact_semantic_color is_default palette color)) = Some c
     \<and> style_color True c = Inr (norm_color is_default palette color, False, palette)"
proof -
  have "de_opt f SNull = Some None" for f :: "sval \<Rightarrow> compact_color option" by (simp add: de_opt_def)
  with assms show ?thesis
    by (cases palette; cases color)
      (auto simp: compact_semantic_color_def style_color_def norm_color_def de_opt_not_null codec_simps)
qed

lemma plain_color_round_trip:
  "style_color False (map_option Rgb color) = Inr (color, False, None)"
  by (cases color) (simp_all add: style_color_def)

lemma style_round_trip:
  assumes "ser_style semantic s = Inr v"
  shows "\<exists>c. de_style v = Some c \<and> style_of_compact c = Inr (norm_style semantic s)
     \<and> (fst c AND 0x80 \<noteq> 0) = (semantic \<and> uses_semantic_colors s)"
proof -
  have ok: "style_conflict s = None"
    using assms by (cases "style_conflict s") (simp_all add: ser_style_def)
  then have fg: "\<not> (st_foreground_default s \<and> st_foreground_palette s \<noteq> None)"
    and bg: "\<not> (st_background_default s \<and> st_background_palette s \<noteq> None)"
    by (auto simp: style_conflict_def split: if_splits)
  show ?thesis
  proof (cases "semantic \<and> uses_semantic_colors s")
    case True
    with assms ok have v: "v = SSeq [ser_uint (style_flags s OR 0x80),
        ser_semantic_color (compact_semantic_color (st_foreground_default s) (st_foreground_palette s) (st_foreground s)),
        ser_semantic_color (compact_semantic_color (st_background_default s) (st_background_palette s) (st_background s))]"
      by (simp add: ser_style_def Let_def)
    from semantic_color_round_trip [OF fg, of "st_foreground s"] semantic_color_round_trip [OF bg, of "st_background s"]
    obtain f b where fb:
      "de_opt de_compact_color (ser_semantic_color (compact_semantic_color (st_foreground_default s) (st_foreground_palette s) (st_foreground s))) = Some f"
      "style_color True f = Inr (norm_color (st_foreground_default s) (st_foreground_palette s) (st_foreground s), False, st_foreground_palette s)"
      "de_opt de_compact_color (ser_semantic_color (compact_semantic_color (st_background_default s) (st_background_palette s) (st_background s))) = Some b"
      "style_color True b = Inr (norm_color (st_background_default s) (st_background_palette s) (st_background s), False, st_background_palette s)"
      by blast
    have "de_style v = Some (style_flags s OR 0x80, f, b)"
      using fb(1,3) pack_flags_or by (simp add: v de_style_def codec_simps style_flags_pack)
    moreover have "style_of_compact (style_flags s OR 0x80, f, b) = Inr (norm_style semantic s)"
      using True fb(2,4)
      by (simp add: style_of_compact_def style_flags_pack pack_flags_or pack_flags_bits norm_style_def)
    ultimately show ?thesis using True by (simp add: style_flags_pack pack_flags_or)
  next
    case False
    with assms ok have v: "v = SSeq [ser_uint (style_flags s), ser_opt ser_rgb (st_foreground s),
        ser_opt ser_rgb (st_background s)]"
      by (simp add: ser_style_def Let_def)
    have "de_style v = Some (style_flags s, map_option Rgb (st_foreground s), map_option Rgb (st_background s))"
      by (simp add: v de_style_def codec_simps style_flags_pack pack_flags_bits)
    moreover have "style_of_compact (style_flags s, map_option Rgb (st_foreground s), map_option Rgb (st_background s))
        = Inr (norm_style semantic s)"
      using False
      by (auto simp: style_of_compact_def style_flags_pack pack_flags_bits plain_color_round_trip
          norm_style_def legacy_style_def norm_color_def uses_semantic_colors_def)
    ultimately show ?thesis using False by (simp add: style_flags_pack pack_flags_bits)
  qed
qed

section \<open>Rows\<close>

lemma cell_round_trip:
  assumes "ser_cell semantic c = Inr v"
  shows "\<exists>k. de_cell v = Some k
     \<and> cell_of_compact k = Inr (c\<lparr>ce_style := norm_style semantic (ce_style c)\<rparr>)"
proof -
  from assms obtain sv where sv: "ser_style semantic (ce_style c) = Inr sv"
    "v = SSeq [ser_uint (ce_column c), ser_uint (ce_span c), SStr (ce_text c), sv]"
    by (auto simp: ser_cell_def bind_res_Inr)
  from style_round_trip [OF sv(1)] obtain k where
    "de_style sv = Some k" "style_of_compact k = Inr (norm_style semantic (ce_style c))"
    by blast
  then show ?thesis by (simp add: sv(2) de_cell_def cell_of_compact_def codec_simps)
qed

lemma row_round_trip:
  assumes "ser_row semantic r = Inr v"
  shows "\<exists>k. de_row v = Some k \<and> row_of_compact k = Inr (map_row_styles (norm_style semantic) r)"
proof -
  from assms obtain cells where cells: "collect_res (map (ser_cell semantic) (ro_cells r)) = Inr cells"
    "v = SSeq [SStr (ro_text r), SSeq cells]"
    by (auto simp: ser_row_def bind_res_Inr)
  from collect_round_trip [OF cells(1), of de_cell cell_of_compact
      "\<lambda>c. c\<lparr>ce_style := norm_style semantic (ce_style c)\<rparr>"] cell_round_trip
  obtain ks where "collect_opt (map de_cell cells) = Some ks"
    "collect_res (map cell_of_compact ks)
       = Inr (map (\<lambda>c. c\<lparr>ce_style := norm_style semantic (ce_style c)\<rparr>) (ro_cells r))"
    by blast
  then show ?thesis
    by (simp add: cells(2) de_row_def de_seq_def row_of_compact_def map_row_styles_def codec_simps)
qed

lemma replacement_round_trip:
  assumes "ser_replacement semantic r = Inr v"
  shows "\<exists>k. de_replacement v = Some k
     \<and> replacement_of_compact k = Inr (map_replacement_styles (norm_style semantic) r)"
proof -
  from assms obtain row where row: "ser_row semantic (rr_row r) = Inr row"
    "v = SSeq [ser_uint (rr_row_index r), ser_uint (rr_row_revision r), row]"
    by (auto simp: ser_replacement_def bind_res_Inr)
  from row_round_trip [OF row(1)] obtain k where "de_row row = Some k"
    "row_of_compact k = Inr (map_row_styles (norm_style semantic) (rr_row r))"
    by blast
  then show ?thesis
    by (simp add: row(2) de_replacement_def replacement_of_compact_def map_replacement_styles_def codec_simps)
qed

section \<open>Messages\<close>

lemma snapshot_round_trip:
  assumes "ser_snapshot semantic s = Inr v"
  shows "\<exists>k. de_snapshot v = Some k \<and> snapshot_of_compact k
     = Inr (s\<lparr>ss_rows := map (map_row_styles (norm_style semantic)) (ss_rows s)\<rparr>)"
proof -
  from assms obtain rows where rows: "collect_res (map (ser_row semantic) (ss_rows s)) = Inr rows"
    "v = SSeq [ser_uint (ss_session_epoch s), ser_uint (ss_layout_epoch s),
         ser_uint (ss_terminal_revision s), ser_uint (ss_cols s), SSeq rows,
         ser_cursor (ss_cursor s), SBool (ss_mouse_tracking s), ser_scrollbar (ss_scrollbar s),
         ser_opt SStr (ss_title s), ser_opt SStr (ss_cwd s)]"
    by (auto simp: ser_snapshot_def bind_res_Inr)
  from collect_round_trip [OF rows(1)] row_round_trip obtain ks where
    "collect_opt (map de_row rows) = Some ks"
    "collect_res (map row_of_compact ks) = Inr (map (map_row_styles (norm_style semantic)) (ss_rows s))"
    by metis
  then show ?thesis
    by (simp add: rows(2) de_snapshot_def de_seq_def snapshot_of_compact_def codec_simps)
qed

lemma patch_round_trip:
  assumes "ser_patch semantic p = Inr v"
  shows "\<exists>k. de_patch v = Some k \<and> patch_of_compact k
     = Inr (p\<lparr>pa_row_replacements :=
          map (map_replacement_styles (norm_style semantic)) (pa_row_replacements p)\<rparr>)"
proof -
  from assms obtain rs where rs: "collect_res (map (ser_replacement semantic) (pa_row_replacements p)) = Inr rs"
    "v = SSeq [ser_uint (pa_session_epoch p), ser_uint (pa_layout_epoch p),
         ser_uint (pa_patch_sequence p), ser_uint (pa_terminal_revision p), SSeq rs,
         ser_opt ser_cursor (pa_cursor p), ser_opt SBool (pa_mouse_tracking p),
         ser_opt ser_scrollbar (pa_scrollbar p), ser_uint (0 :: u8)]"
    by (auto simp: ser_patch_def bind_res_Inr)
  from collect_round_trip [OF rs(1)] replacement_round_trip obtain ks where
    "collect_opt (map de_replacement rs) = Some ks"
    "collect_res (map replacement_of_compact ks)
       = Inr (map (map_replacement_styles (norm_style semantic)) (pa_row_replacements p))"
    by metis
  then show ?thesis
    by (simp add: rs(2) de_patch_def de_seq_def patch_of_compact_def codec_simps)
qed

text \<open>The generated implementations read back what they wrote for this message.\<close>

fun derived_ok :: "('act, 'pres) derived \<Rightarrow> ('act, 'pres) state_message \<Rightarrow> bool" where
  "derived_ok D (ActivityChanged a) = (dv_de_activity D (dv_ser_activity D a) = Some a)"
| "derived_ok D (ConfigurationChanged p) = (dv_de_presentation D (dv_ser_presentation D p) = Some p)"
| "derived_ok D _ = True"

lemma selection_round_trip:
  "de_opt de_selection (ser_selection sel) = Some (map_option
     (\<lambda>s. (pt_column (se_anchor s), pt_row (se_anchor s), pt_column (se_focus s), pt_row (se_focus s))) sel)"
  by (cases sel)
    (simp_all add: ser_selection_def ser_opt_def ser_point_def de_selection_def codec_simps de_opt_not_null,
      simp add: de_opt_def)

lemma controller_round_trip:
  "de_opt de_controller (ser_opt ser_controller c) =
     Some (map_option (\<lambda>c. (ci_controller_view_id c, ci_control_epoch c)) c)"
proof -
  have "de_controller (ser_controller c) = Some (ci_controller_view_id c, ci_control_epoch c)" for c
    by (simp add: ser_controller_def de_controller_def codec_simps)
  then show ?thesis
    by (cases c) (simp_all add: ser_opt_def de_opt_not_null codec_simps, simp add: de_opt_def)
qed

lemma end_reason_round_trip:
  "\<exists>reason code. de_session_ended (ser_end_reason r) = Some (CSessionEnded reason code)
     \<and> end_reason_of_compact reason code = Inr r"
proof (cases r)
  case (Exited code)
  then show ?thesis by (simp add: ser_end_reason_def de_session_ended_def end_reason_of_compact_def codec_simps)
next
  case Closed
  then show ?thesis
    by (simp add: ser_end_reason_def de_session_ended_def end_reason_of_compact_def codec_simps de_opt_def)
qed

lemma message_round_trip:
  assumes "ser_message D semantic m = Inr v" and "derived_ok D m"
  shows "\<exists>k. de_message D v = Some k \<and> message_of_compact k = Inr (visit_styles (norm_style semantic) m)"
proof (cases m)
  case (Snapshot s)
  with assms(1) snapshot_round_trip [of semantic s] show ?thesis
    by (fastforce simp: bind_res_Inr de_message_def)
next
  case (Patch p)
  with assms(1) patch_round_trip [of semantic p] show ?thesis
    by (fastforce simp: bind_res_Inr de_message_def)
next
  case (SelectionChanged sel)
  with assms(1) show ?thesis
    by (cases sel) (auto simp: de_message_def selection_round_trip)
next
  case (ControlState c rev cols rows layout)
  with assms(1) show ?thesis
    by (cases c) (auto simp: de_message_def de_control_state_def controller_round_trip codec_simps)
next
  case (SessionEnded r)
  with assms(1) end_reason_round_trip [of r] show ?thesis by (auto simp: de_message_def)
qed (use assms in \<open>auto simp: de_message_def de_control_changed_def codec_simps\<close>)

text \<open>Serialization fails exactly on a style with conflicting markers.\<close>

lemma collect_res_ok: "(\<exists>vs. collect_res rs = Inr vs) \<longleftrightarrow> (\<forall>r \<in> set rs. \<exists>v. r = Inr v)"
  by (induction rs) (auto simp: bind_res_Inr)

lemma ser_row_ok:
  "(\<exists>v. ser_row semantic r = Inr v) \<longleftrightarrow> (\<forall>c \<in> set (ro_cells r). style_conflict (ce_style c) = None)"
proof -
  have cell: "(\<exists>v. ser_cell semantic c = Inr v) \<longleftrightarrow> style_conflict (ce_style c) = None" for c
    by (auto simp: ser_cell_def ser_style_def bind_res_Inr Let_def split: option.splits)
  show ?thesis by (auto simp: ser_row_def bind_res_Inr collect_res_ok cell)
qed

lemma ser_message_ok:
  "(\<exists>v. ser_message D semantic m = Inr v) \<longleftrightarrow> (\<forall>s \<in> set (message_styles m). style_conflict s = None)"
  by (cases m)
    (auto simp: bind_res_Inr ser_snapshot_def ser_patch_def ser_replacement_def collect_res_ok ser_row_ok)

lemma validate_styles_ok:
  "validate_styles ss u = Inr u' \<longleftrightarrow>
     (\<forall>s \<in> set ss. style_conflict s = None) \<and> u' = (u \<or> list_ex uses_semantic_colors ss)"
  by (induction ss arbitrary: u) (auto split: option.splits)

section \<open>Legacy encodings carry no semantic colours\<close>

lemma style_flag_legacy:
  "ser_style False s = Inr v \<Longrightarrow> de_style v = Some k \<Longrightarrow> fst k AND 0x80 = 0"
  using style_round_trip [of False s v] by auto

lemma cell_flag_legacy:
  "ser_cell False c = Inr v \<Longrightarrow> de_cell v = Some (column, span, cell_text, style) \<Longrightarrow> fst style AND 0x80 = 0"
  using style_flag_legacy [of "ce_style c"]
  by (auto simp: ser_cell_def de_cell_def bind_res_Inr bind_eq_Some_conv codec_simps)

lemma row_flags_legacy:
  assumes "ser_row False r = Inr v" and "de_row v = Some k"
  shows "\<not> row_flags_semantic k"
proof -
  from assms(1) obtain cells where cells: "map (ser_cell False) (ro_cells r) = map Inr cells"
    "v = SSeq [SStr (ro_text r), SSeq cells]"
    by (auto simp: ser_row_def bind_res_Inr collect_res_Inr)
  with assms(2) have k: "map de_cell cells = map Some (snd k)"
    by (auto simp: de_row_def de_seq_def bind_eq_Some_conv collect_opt_Some codec_simps)
  have "fst style AND 0x80 = 0" if "(column, span, cell_text, style) \<in> set (snd k)"
    for column span cell_text style
  proof -
    from that obtain i where i: "i < length (snd k)" "snd k ! i = (column, span, cell_text, style)"
      by (auto simp: in_set_conv_nth)
    have len: "length cells = length (snd k)" "length (ro_cells r) = length cells"
      using arg_cong [OF k, of length] arg_cong [OF cells(1), of length] by simp_all
    have "de_cell (cells ! i) = Some (column, span, cell_text, style)"
      using arg_cong [OF k, of "\<lambda>xs. xs ! i"] i len by simp
    moreover have "ser_cell False (ro_cells r ! i) = Inr (cells ! i)"
      using arg_cong [OF cells(1), of "\<lambda>xs. xs ! i"] i len by simp
    ultimately show ?thesis by (rule cell_flag_legacy [rotated])
  qed
  then show ?thesis by (fastforce simp: row_flags_semantic_def list_ex_iff)
qed

lemma rows_flags_legacy:
  "map (ser_row False) rs = map Inr vs \<Longrightarrow> map de_row vs = map Some ks \<Longrightarrow>
     \<not> list_ex row_flags_semantic ks"
proof (induction rs arbitrary: vs ks)
  case Nil
  then show ?case by simp
next
  case (Cons r rs)
  then obtain v vs' k ks' where eqs: "vs = v # vs'" "ser_row False r = Inr v"
    "map (ser_row False) rs = map Inr vs'" "ks = k # ks'" "de_row v = Some k"
    "map de_row vs' = map Some ks'"
    by auto
  from row_flags_legacy [OF eqs(2,5)] Cons.IH [OF eqs(3,6)] show ?case by (simp add: eqs(4))
qed

lemma replacements_flags_legacy:
  "map (ser_replacement False) rs = map Inr vs \<Longrightarrow> map de_replacement vs = map Some ks \<Longrightarrow>
     \<not> list_ex (\<lambda>(index, revision, row). row_flags_semantic row) ks"
proof (induction rs arbitrary: vs ks)
  case Nil
  then show ?case by simp
next
  case (Cons r rs)
  then obtain v vs' k ks' where eqs: "vs = v # vs'" "ser_replacement False r = Inr v"
    "map (ser_replacement False) rs = map Inr vs'" "ks = k # ks'" "de_replacement v = Some k"
    "map de_replacement vs' = map Some ks'"
    by auto
  have "\<not> row_flags_semantic (snd (snd k))"
    using eqs(2,5) row_flags_legacy [of "rr_row r"]
    by (auto simp: ser_replacement_def de_replacement_def bind_res_Inr bind_eq_Some_conv codec_simps)
  with Cons.IH [OF eqs(3,6)] show ?case by (auto simp: eqs(4) split: prod.splits)
qed

lemma message_flags_legacy:
  assumes "ser_message D False m = Inr v" and "de_message D v = Some k"
  shows "\<not> compact_message_uses_semantic_colors k"
proof (cases m)
  case (Snapshot s)
  with assms show ?thesis
    by (auto simp: de_message_def bind_res_Inr ser_snapshot_def de_snapshot_def de_seq_def
        collect_res_Inr collect_opt_Some bind_eq_Some_conv codec_simps)
      (metis rows_flags_legacy)
next
  case (Patch p)
  with assms show ?thesis
    by (auto simp: de_message_def bind_res_Inr ser_patch_def de_patch_def de_seq_def
        collect_res_Inr collect_opt_Some bind_eq_Some_conv codec_simps)
      (metis (lifting) replacements_flags_legacy)
qed (use assms in \<open>auto simp: de_message_def de_control_changed_def de_control_state_def
      de_session_ended_def bind_eq_Some_conv ser_end_reason_def codec_simps split: session_end_reason.splits\<close>)

section \<open>Legacy messages\<close>

lemma message_styles_visit [simp]: "message_styles (visit_styles f m) = map f (message_styles m)"
  by (cases m)
    (simp_all add: map_row_styles_def map_replacement_styles_def map_concat comp_def)

lemma legacy_style_plain [simp]: "style_conflict (legacy_style s) = None" "\<not> uses_semantic_colors (legacy_style s)"
  by (simp_all add: style_conflict_def legacy_style_def uses_semantic_colors_def)

lemma legacy_validates: "validate_semantic_colors (legacy_state_message m) = Inr False"
proof -
  have "\<not> list_ex uses_semantic_colors (map legacy_style ss)" for ss
    by (simp add: list_ex_iff)
  then show ?thesis
    by (simp add: validate_semantic_colors_def legacy_state_message_def validate_styles_ok)
qed

lemma legacy_style_id: "\<not> uses_semantic_colors s \<Longrightarrow> legacy_style s = s"
  by (cases s) (simp add: uses_semantic_colors_def legacy_style_def)

lemma visit_styles_id:
  assumes "\<forall>s \<in> set (message_styles m). f s = s"
  shows "visit_styles f m = m"
proof -
  have row: "map_row_styles f r = r" if "\<forall>s \<in> set (map ce_style (ro_cells r)). f s = s" for r
    using that by (cases r) (auto simp: map_row_styles_def intro!: map_idI)
  show ?thesis
  proof (cases m)
    case (Snapshot s)
    with assms show ?thesis by (cases s) (auto intro!: map_idI row)
  next
    case (Patch p)
    have rep: "map_replacement_styles f r = r"
      if "\<forall>s \<in> set (map ce_style (ro_cells (rr_row r))). f s = s" for r
      using row [OF that] by (cases r) (simp add: map_replacement_styles_def)
    with assms Patch show ?thesis by (cases p) (auto intro!: map_idI rep)
  qed simp_all
qed

lemma legacy_message_id:
  "validate_semantic_colors m = Inr False \<Longrightarrow> legacy_state_message m = m"
  unfolding legacy_state_message_def validate_semantic_colors_def validate_styles_ok
  by (rule visit_styles_id) (auto simp: list_ex_iff legacy_style_id)

end
