(* ===== verification/Codec_Properties.thy ===== *)
theory Codec_Properties
  imports Codec_Facts Framing_Facts
begin

text \<open>What a viewer decodes of a state frame, and which messages are refused.\<close>

section \<open>Frames\<close>

text \<open>A frame is decoded from the front of whatever follows it.\<close>

lemma decode_message_prefix:
  assumes "encode_message to_vec m limit = Inr bs" and "limit < 2 ^ 32"
    and "\<forall>payload. to_vec m = Some payload \<longrightarrow> from_slice payload = Some k"
  shows "decode_message from_slice (bs @ rest) limit = Inr (k, length bs)"
proof -
  define l :: u32 where "l = of_nat limit"
  have l: "unat l = limit" using assms(2) by (simp add: l_def unat_of_nat)
  from message_encoded [of to_vec m l bs] assms(1) obtain payload where p:
    "to_vec m = Some payload" "length payload \<le> limit"
    "bs = u32_be (of_nat (length payload)) @ payload" "length payload < 2 ^ 32"
    unfolding l by blast
  with assms(3) show ?thesis by (simp add: decode_message_def slice_def Let_def)
qed

text \<open>What reaches the viewer: the message with its colours in the codec's normal form.\<close>

definition received_message ::
  "state_codec \<Rightarrow> u16 \<Rightarrow> ('act, 'pres) state_message \<Rightarrow> ('act, 'pres) state_message" where
  "received_message codec minor m =
     (case codec of
        Json \<Rightarrow> if minor < SEMANTIC_CELL_COLOR_PROTOCOL_MINOR then legacy_state_message m else m
      | CompactJsonV1 \<Rightarrow> visit_styles (norm_style (SEMANTIC_CELL_COLOR_PROTOCOL_MINOR \<le> minor)) m)"

lemma encoded_json:
  assumes "encode_state_message_for_minor D json_vec text_vec m Json minor limit = Inr bs"
  shows "encode_message json_vec (received_message Json minor m) limit = Inr bs"
    and "\<exists>uses. validate_semantic_colors m = Inr uses"
  using assms legacy_message_id [of m]
  by (auto simp: encode_state_message_for_minor_def received_message_def Let_def
      split: sum.splits if_splits)

lemma received_validates:
  assumes "validate_semantic_colors m = Inr uses"
  shows "\<exists>uses. validate_semantic_colors (received_message Json minor m) = Inr uses
     \<and> \<not> (minor < SEMANTIC_CELL_COLOR_PROTOCOL_MINOR \<and> uses)"
  using assms legacy_validates [of m] by (auto simp: received_message_def)

lemma encoded_compact:
  assumes "encode_state_message_for_minor D json_vec text_vec m CompactJsonV1 minor limit = Inr bs"
  shows "\<exists>v. ser_message D (SEMANTIC_CELL_COLOR_PROTOCOL_MINOR \<le> minor) m = Inr v
     \<and> encode_message text_vec v limit = Inr bs"
  using assms by (auto simp: encode_state_message_for_minor_def split: sum.splits)

text \<open>
  C5. Host and viewer agree on the state. Whatever state message a host encodes for a negotiated
  codec and protocol minor, a viewer that negotiated the same decodes from the front of its
  stream, consuming exactly the frame. Up to minor 7 the semantic colour markers are stripped;
  from minor 8 the plain codec delivers the message as it is, and the compact codec delivers
  a default colour as the absent colour and a palette colour without its resolved RGB.
\<close>

theorem state_message_survives_codec:
  assumes "encode_state_message_for_minor D json_vec text_vec m codec minor limit = Inr bs"
    and "limit < 2 ^ 32" and "derived_ok D m"
    and "json_ok json_vec json_slice (received_message Json minor m)"
    and "\<forall>v. ser_message D (SEMANTIC_CELL_COLOR_PROTOCOL_MINOR \<le> minor) m = Inr v \<longrightarrow>
           json_ok text_vec text_slice v"
  shows "decode_state_message_for_minor D json_slice text_slice (bs @ rest) codec minor limit
     = Inr (received_message codec minor m, length bs)"
proof (cases codec)
  case Json
  note enc = encoded_json [OF assms(1) [unfolded Json]]
  from enc(2) obtain uses where "validate_semantic_colors m = Inr uses" by blast
  then obtain u where u: "validate_semantic_colors (received_message Json minor m) = Inr u"
    "\<not> (minor < SEMANTIC_CELL_COLOR_PROTOCOL_MINOR \<and> u)"
    using received_validates by blast
  have "decode_message json_slice (bs @ rest) limit = Inr (received_message Json minor m, length bs)"
    by (rule decode_message_prefix [OF enc(1) assms(2)]) (use assms(4) in \<open>simp add: json_ok_def split: option.splits\<close>)
  with u show ?thesis by (simp add: decode_state_message_for_minor_def Json)
next
  case CompactJsonV1
  from encoded_compact [OF assms(1) [unfolded this]] obtain v where v:
    "ser_message D (SEMANTIC_CELL_COLOR_PROTOCOL_MINOR \<le> minor) m = Inr v"
    "encode_message text_vec v limit = Inr bs" by blast
  from message_round_trip [OF v(1) assms(3)] obtain k where k: "de_message D v = Some k"
    "message_of_compact k = Inr (received_message CompactJsonV1 minor m)"
    by (auto simp: received_message_def)
  have "decode_message (\<lambda>payload. Option.bind (text_slice payload) (de_message D)) (bs @ rest) limit
      = Inr (k, length bs)"
    by (rule decode_message_prefix [OF v(2) assms(2)]) (use assms(5) v(1) k(1) in \<open>auto simp: json_ok_def split: option.splits\<close>)
  moreover have "\<not> (minor < SEMANTIC_CELL_COLOR_PROTOCOL_MINOR \<and> compact_message_uses_semantic_colors k)"
    using message_flags_legacy [OF _ k(1)] v(1) by (auto simp: not_le [symmetric])
  ultimately show ?thesis using k(2) by (simp add: decode_state_message_for_minor_def CompactJsonV1)
qed

text \<open>A message and a library that writes its title: the witness sends a palette-coloured cell.\<close>

definition demo_style :: cell_style where
  "demo_style = \<lparr>st_bold = True, st_italic = False, st_faint = False, st_inverse = False,
     st_invisible = False, st_strikethrough = False, st_underline = True,
     st_foreground = Some (1, 2, 3), st_background = None, st_foreground_default = False,
     st_foreground_palette = Some 4, st_background_default = False, st_background_palette = None\<rparr>"

definition demo_message :: "cell_style \<Rightarrow> (unit, unit) state_message" where
  "demo_message style = Patch \<lparr>pa_session_epoch = 1, pa_layout_epoch = 2, pa_patch_sequence = 3,
     pa_terminal_revision = 4,
     pa_row_replacements = [\<lparr>rr_row_index = 0, rr_row_revision = 4,
       rr_row = \<lparr>ro_text = ''x'', ro_cells = [\<lparr>ce_column = 0, ce_span = 1, ce_text = ''x'', ce_style = style\<rparr>]\<rparr>\<rparr>],
     pa_cursor = None, pa_mouse_tracking = None, pa_scrollbar = None\<rparr>"

definition demo_derived :: "(unit, unit) derived" where
  "demo_derived = \<lparr>dv_ser_activity = (\<lambda>_. SNull), dv_de_activity = (\<lambda>_. Some ()),
     dv_ser_presentation = (\<lambda>_. SNull), dv_de_presentation = (\<lambda>_. Some ())\<rparr>"

definition demo_text :: "sval \<Rightarrow> sval \<Rightarrow> bytes option" where
  "demo_text v0 v = (if v = v0 then Some [123, 125] else None)"

definition demo_value :: sval where
  "demo_value = SVariant ''p'' (SSeq [SNum 1, SNum 2, SNum 3, SNum 4,
     SSeq [SSeq [SNum 0, SNum 4, SSeq [SStr ''x'', SSeq [SSeq [SNum 0, SNum 1, SStr ''x'',
       SSeq [SNum 193, SNum 4, SNull]]]]]], SNull, SNull, SNull, SNum 0])"

lemma demo_serialized: "ser_message demo_derived True (demo_message demo_style) = Inr demo_value"
  by (simp add: demo_message_def demo_style_def ser_patch_def ser_replacement_def ser_row_def ser_cell_def
      ser_style_def style_conflict_def uses_semantic_colors_def style_flags_def compact_semantic_color_def
      ser_uint_def ser_opt_def demo_value_def Let_def)

lemma demo_derived_ok: "derived_ok demo_derived (demo_message style)"
  by (simp add: demo_message_def)

lemma demo_encoded:
  "encode_state_message_for_minor demo_derived (\<lambda>_. None) (demo_text demo_value)
     (demo_message demo_style) CompactJsonV1 8 16 = Inr [0, 0, 0, 2, 123, 125]"
  by (simp add: encode_state_message_for_minor_def SEMANTIC_CELL_COLOR_PROTOCOL_MINOR_def demo_serialized
      encode_message_def demo_text_def uint_bytes)

lemma state_message_survives_codec_witness:
  "decode_state_message_for_minor demo_derived (\<lambda>_. None)
     (\<lambda>bs. if bs = [123, 125] then Some demo_value else None) ([0, 0, 0, 2, 123, 125] @ [9]) CompactJsonV1 8 16
   = Inr (demo_message (demo_style\<lparr>st_foreground := None\<rparr>), 6)"
proof -
  have norm: "received_message CompactJsonV1 8 (demo_message demo_style)
      = demo_message (demo_style\<lparr>st_foreground := None\<rparr>)"
    by (simp add: received_message_def SEMANTIC_CELL_COLOR_PROTOCOL_MINOR_def demo_message_def
        map_replacement_styles_def map_row_styles_def norm_style_def norm_color_def demo_style_def)
  show ?thesis
    using state_message_survives_codec [OF demo_encoded, where rest = "[9]" and json_slice = "\<lambda>_. None"
        and text_slice = "\<lambda>bs. if bs = [123, 125] then Some demo_value else None"]
    by (simp add: norm demo_serialized SEMANTIC_CELL_COLOR_PROTOCOL_MINOR_def json_ok_def demo_text_def
        demo_derived_ok)
qed

text \<open>
  No codec sends a contradictory colour. Encoding a state message fails with an error of
  its own, before any byte is framed, exactly when some cell marks a colour both as the
  terminal's default and as a palette entry; this holds for every codec and protocol minor.
\<close>

theorem conflicting_colors_refused:
  "(\<exists>e. encode_state_message_for_minor D json_vec text_vec m codec minor limit = Inl (Inl e))
     \<longleftrightarrow> (\<exists>s \<in> set (message_styles m). style_conflict s \<noteq> None)"
proof (cases codec)
  case Json
  have "(\<exists>e. validate_semantic_colors m = Inl e) \<longleftrightarrow> (\<exists>s \<in> set (message_styles m). style_conflict s \<noteq> None)"
  proof -
    have "(\<exists>u. validate_semantic_colors m = Inr u) \<longleftrightarrow> (\<forall>s \<in> set (message_styles m). style_conflict s = None)"
      by (auto simp: validate_semantic_colors_def validate_styles_ok)
    then show ?thesis by (cases "validate_semantic_colors m") auto
  qed
  then show ?thesis
    by (auto simp: encode_state_message_for_minor_def Json Let_def split: sum.splits)
next
  case CompactJsonV1
  let ?semantic = "SEMANTIC_CELL_COLOR_PROTOCOL_MINOR \<le> minor"
  have "(\<exists>e. ser_message D ?semantic m = Inl e) \<longleftrightarrow> (\<exists>s \<in> set (message_styles m). style_conflict s \<noteq> None)"
    using ser_message_ok [of D ?semantic m] by (cases "ser_message D ?semantic m") auto
  then show ?thesis
    by (auto simp: encode_state_message_for_minor_def CompactJsonV1 split: sum.splits)
qed

end
