(* ===== verification/Frame_Encoder.thy ===== *)
theory Frame_Encoder
  imports Logical_State
begin

text \<open>
  The terminal frame encoder (\<open>ghosttea-core/src/frame.rs\<close>): the packet a host hands to its
  renderer for a snapshot or for the rows an update touched. The structures of the shaper and
  of the VT layer the encoder reads are included; \<open>FrameCursor\<close>, \<open>TerminalScrollbar\<close> and
  \<open>TerminalSelection\<close> have the fields of the logical types and are those types here. An
  \<open>f32\<close> is its 32 bits and an \<open>i16\<close> its 16 bits, which is what the encoder writes.
\<close>

section \<open>Inputs\<close>

datatype glyph_format = Alpha8 | Rgba8Premultiplied

record glyph_definition =
  gd_id :: u32
  gd_width :: u16
  gd_height :: u16
  gd_bearing_x :: u16
  gd_bearing_y :: u16
  gd_format :: glyph_format
  gd_pixels :: bytes

record glyph_instance =
  gi_glyph_id :: u32
  gi_style_id :: u32
  gi_x :: u32
  gi_y :: u32
  gi_width :: u32
  gi_height :: u32
  gi_cell_start :: u16
  gi_cell_span :: u16

record shaped_row =
  sr_glyphs :: "glyph_instance list"
  sr_definitions :: "glyph_definition list"

record vt_style =
  vs_bold :: bool
  vs_italic :: bool
  vs_faint :: bool
  vs_inverse :: bool
  vs_invisible :: bool
  vs_strikethrough :: bool
  vs_underline :: bool
  vs_foreground :: "rgb option"
  vs_background :: "rgb option"

definition default_style :: vt_style where
  "default_style = \<lparr>vs_bold = False, vs_italic = False, vs_faint = False, vs_inverse = False,
     vs_invisible = False, vs_strikethrough = False, vs_underline = False,
     vs_foreground = None, vs_background = None\<rparr>"

record style_palette =
  py_foreground :: "u8 option"
  py_background :: "u8 option"

definition palette_is_empty :: "style_palette \<Rightarrow> bool" where
  "palette_is_empty p \<longleftrightarrow> py_foreground p = None \<and> py_background p = None"

record frame_style =
  fy_style :: vt_style
  fy_palette :: style_palette

definition default_frame_style :: frame_style where
  "default_frame_style =
     \<lparr>fy_style = default_style, fy_palette = \<lparr>py_foreground = None, py_background = None\<rparr>\<rparr>"

text \<open>What the trait \<open>FrameCell\<close> exposes of a cell.\<close>

record frame_cell =
  fc_column :: u16
  fc_span :: u16
  fc_style :: vt_style
  fc_palette :: style_palette

definition frame_style_of :: "frame_cell \<Rightarrow> frame_style" where
  "frame_style_of c = \<lparr>fy_style = fc_style c, fy_palette = fc_palette c\<rparr>"

record terminal_cell =
  tc_column :: u16
  tc_span :: u16
  tc_text :: string
  tc_style :: vt_style
  tc_foreground_default :: bool
  tc_foreground_palette :: "u8 option"
  tc_background_default :: bool
  tc_background_palette :: "u8 option"

text \<open>\<open>impl FrameCell for TerminalCell\<close>: a palette index counts only beside its resolved colour.\<close>

definition frame_cell_of_terminal :: "terminal_cell \<Rightarrow> frame_cell" where
  "frame_cell_of_terminal c =
     \<lparr>fc_column = tc_column c, fc_span = tc_span c, fc_style = tc_style c,
      fc_palette = \<lparr>py_foreground = (if vs_foreground (tc_style c) \<noteq> None then tc_foreground_palette c else None),
                    py_background = (if vs_background (tc_style c) \<noteq> None then tc_background_palette c else None)\<rparr>\<rparr>"

record link_span =
  ls_row :: u16
  ls_start_column :: u16
  ls_end_column :: u16

record terminal_link =
  tl_uri :: string
  tl_explicit :: bool
  tl_spans :: "link_span list"

record 'c frame_snapshot =
  fs_session_handle :: u64
  fs_session_epoch :: u64
  fs_layout_epoch :: u64
  fs_sequence :: u64
  fs_revision :: u64
  fs_cols :: u16
  fs_rows :: "string list"
  fs_shaped_rows :: "shaped_row list"
  fs_cells :: "'c list list"
  fs_updated_rows :: "u16 list"
  fs_full_snapshot :: bool
  fs_catalog_reset :: bool
  fs_mouse_tracking :: bool
  fs_scrollbar :: logical_scrollbar
  fs_selection :: "tracked_selection option"
  fs_new_glyphs :: "glyph_definition list"
  fs_clipboard :: "bytes option"
  fs_cursor :: logical_cursor
  fs_links :: "terminal_link list option"

text \<open>\<open>FramePanic\<close> is the panic of an updated row that is outside the snapshot.\<close>

datatype frame_error = TooManyRows | RowCountsDiffer | CountOverflow | RowTooLarge | FramePanic

section \<open>Glyphs and styles\<close>

definition encode_glyph_definition :: "glyph_definition \<Rightarrow> frame_error + bytes" where
  "encode_glyph_definition d =
     (if 2 ^ 32 \<le> length (gd_pixels d) then Inl CountOverflow
      else Inr (u32_le (gd_id d) @ u16_le (gd_width d) @ u16_le (gd_height d)
        @ u16_le (gd_bearing_x d) @ u16_le (gd_bearing_y d)
        @ [case gd_format d of Alpha8 \<Rightarrow> 0 | Rgba8Premultiplied \<Rightarrow> 1] @ [0, 0, 0]
        @ u32_le (of_nat (length (gd_pixels d))) @ gd_pixels d))"

definition encode_glyph_definitions :: "glyph_definition list \<Rightarrow> frame_error + bytes \<times> u32" where
  "encode_glyph_definitions definitions =
     (if 2 ^ 32 \<le> length definitions then Inl CountOverflow
      else let count = of_nat (length definitions)
      in bind_res (collect_res (map encode_glyph_definition definitions)) (\<lambda>parts.
           Inr (u32_le count @ concat parts, count)))"

definition color_bytes :: "rgb option \<Rightarrow> bytes" where
  "color_bytes color = (case color of None \<Rightarrow> [0, 0, 0] | Some (r, g, b) \<Rightarrow> [r, g, b])"

definition bool_byte :: "bool \<Rightarrow> u8" where
  "bool_byte b = of_bool b"

definition index_byte :: "u8 option \<Rightarrow> u8" where
  "index_byte i = (case i of None \<Rightarrow> 0 | Some n \<Rightarrow> n)"

text \<open>The FNV-1a hash of a style is its identifier; the default style is 0.\<close>

definition hash_step :: "u8 \<Rightarrow> u32 \<Rightarrow> u32" where
  "hash_step byte hash = (hash XOR ucast byte) * 16777619"

definition style_hash_bytes :: "frame_style \<Rightarrow> bytes" where
  "style_hash_bytes fs =
     (let s = fy_style fs; p = fy_palette fs
      in map bool_byte [vs_bold s, vs_italic s, vs_faint s, vs_inverse s, vs_invisible s,
           vs_strikethrough s, vs_underline s]
         @ [bool_byte (vs_foreground s \<noteq> None)] @ color_bytes (vs_foreground s)
         @ [bool_byte (vs_background s \<noteq> None)] @ color_bytes (vs_background s)
         @ (if palette_is_empty p then []
            else [2, bool_byte (py_foreground p \<noteq> None), index_byte (py_foreground p),
                  bool_byte (py_background p \<noteq> None), index_byte (py_background p)]))"

definition style_id :: "frame_style \<Rightarrow> u32" where
  "style_id fs =
     (if fy_style fs = default_style then 0
      else let hash = fold hash_step (style_hash_bytes fs) 2166136261
      in if hash = 0 then 1 else hash)"

definition style_flag_bits :: "vt_style \<Rightarrow> u16" where
  "style_flag_bits s =
     of_bool (vs_bold s) OR push_bit 1 (of_bool (vs_italic s)) OR push_bit 2 (of_bool (vs_faint s))
     OR push_bit 3 (of_bool (vs_inverse s)) OR push_bit 4 (of_bool (vs_invisible s))
     OR push_bit 5 (of_bool (vs_strikethrough s)) OR push_bit 6 (of_bool (vs_underline s))"

definition encode_style_definitions :: "(u32 \<times> frame_style) list \<Rightarrow> bytes" where
  "encode_style_definitions styles =
     u32_le (of_nat (length styles))
     @ concat (map (\<lambda>(sid, fs). let s = fy_style fs in
         u32_le sid @ u16_le (style_flag_bits s)
         @ [bool_byte (vs_foreground s \<noteq> None), bool_byte (vs_background s \<noteq> None)]
         @ color_bytes (vs_foreground s) @ color_bytes (vs_background s) @ u16_le 0) styles)"

definition encode_style_palette :: "(u32 \<times> frame_style) list \<Rightarrow> bytes \<times> u32" where
  "encode_style_palette styles =
     (let entries = filter (\<lambda>(sid, fs). \<not> palette_is_empty (fy_palette fs)) styles
      in (u32_le (of_nat (length entries))
            @ concat (map (\<lambda>(sid, fs). let p = fy_palette fs in
                u32_le sid
                @ [bool_byte (py_foreground p \<noteq> None) OR push_bit 1 (bool_byte (py_background p \<noteq> None)),
                   index_byte (py_foreground p), index_byte (py_background p), 0]) entries),
          of_nat (length entries)))"

section \<open>The styles of a frame\<close>

record row_styles =
  rs_cell_ids :: "u32 list"
  rs_column_ids :: "u32 list"

datatype prepared_styles =
    Linear "(u32, frame_style) fmap"
  | Indexed "(u32, frame_style) fmap" "row_styles list"

fun prepared_definitions :: "prepared_styles \<Rightarrow> (u32, frame_style) fmap" where
  "prepared_definitions (Linear styles) = styles"
| "prepared_definitions (Indexed styles rows) = styles"

definition prepared_len :: "prepared_styles \<Rightarrow> nat" where
  "prepared_len p = fm_len (prepared_definitions p)"

text \<open>In the order of the identifiers, for either map.\<close>

definition prepared_sorted :: "prepared_styles \<Rightarrow> (u32 \<times> frame_style) list" where
  "prepared_sorted p =
     map (\<lambda>sid. (sid, the (fmlookup (prepared_definitions p) sid)))
       (sorted_list_of_fset (fmdom (prepared_definitions p)))"

text \<open>\<open>styles.entry(id).or_insert(style)\<close>: the first style of an identifier stays.\<close>

definition insert_style :: "frame_style \<Rightarrow> (u32, frame_style) fmap \<Rightarrow> (u32, frame_style) fmap" where
  "insert_style style styles =
     (case fmlookup styles (style_id style) of
        Some _ \<Rightarrow> styles | None \<Rightarrow> fmupd (style_id style) style styles)"

definition fill_range :: "nat \<Rightarrow> nat \<Rightarrow> 'a \<Rightarrow> 'a list \<Rightarrow> 'a list" where
  "fill_range start stop v xs =
     map (\<lambda>i. if start \<le> i \<and> i < stop then v else xs ! i) [0..<length xs]"

definition cell_stop :: "frame_cell \<Rightarrow> u16" where
  "cell_stop c = sat_add (fc_column c) (fc_span c)"

definition column_count :: "shaped_row \<Rightarrow> nat" where
  "column_count shaped = fold max (map (\<lambda>g. unat (gi_cell_start g) + 1) (sr_glyphs shaped)) 0"

definition fill_columns :: "frame_cell \<times> u32 \<Rightarrow> u32 list \<Rightarrow> u32 list" where
  "fill_columns p ids =
     (case p of (cell, sid) \<Rightarrow>
        fill_range (min (unat (fc_column cell)) (length ids)) (min (unat (cell_stop cell)) (length ids)) sid ids)"

definition row_column_ids :: "frame_cell list \<Rightarrow> shaped_row \<Rightarrow> u32 list" where
  "row_column_ids cells shaped =
     fold fill_columns (rev (zip cells (map (\<lambda>c. style_id (frame_style_of c)) cells)))
       (replicate (column_count shaped) 0)"

definition prepare_row_styles ::
  "frame_cell list \<Rightarrow> shaped_row \<Rightarrow> (u32, frame_style) fmap \<Rightarrow> row_styles \<times> (u32, frame_style) fmap" where
  "prepare_row_styles cells shaped styles =
     (\<lparr>rs_cell_ids = map (\<lambda>c. style_id (frame_style_of c)) cells,
       rs_column_ids = row_column_ids cells shaped\<rparr>,
      fold (\<lambda>c. insert_style (frame_style_of c)) cells styles)"

fun prepare_rows ::
  "frame_cell list list \<Rightarrow> shaped_row list \<Rightarrow> u16 list \<Rightarrow> (u32, frame_style) fmap
     \<Rightarrow> row_styles list \<times> (u32, frame_style) fmap" where
  "prepare_rows cells shaped [] styles = ([], styles)"
| "prepare_rows cells shaped (row # rows) styles =
     (let (prepared, styles') = prepare_row_styles (cells ! unat row) (shaped ! unat row) styles;
          (rest, styles'') = prepare_rows cells shaped rows styles'
      in (prepared # rest, styles''))"

definition initial_styles :: "(u32, frame_style) fmap" where
  "initial_styles = fmupd 0 default_frame_style fmempty"

definition prepare_styles :: "bool \<Rightarrow> frame_cell frame_snapshot \<Rightarrow> prepared_styles" where
  "prepare_styles indexed s =
     (if indexed
      then (case prepare_rows (fs_cells s) (fs_shaped_rows s) (fs_updated_rows s) initial_styles of
              (rows, definitions) \<Rightarrow> Indexed definitions rows)
      else Linear (fold (\<lambda>row. fold (\<lambda>c. insert_style (frame_style_of c)) (fs_cells s ! unat row))
             (fs_updated_rows s) initial_styles))"

definition uses_index :: "frame_cell frame_snapshot \<Rightarrow> bool" where
  "uses_index s \<longleftrightarrow> (\<exists>row \<in> set (fs_updated_rows s). 8 \<le> length (fs_cells s ! unat row))"

section \<open>Rows\<close>

type_synonym style_run = "u32 \<times> u16 \<times> u16"

text \<open>
  \<open>append_style_run\<close>, on the reversed list of runs: the last run is at the head.
\<close>

definition append_style_run :: "style_run list \<Rightarrow> frame_cell \<Rightarrow> u32 \<Rightarrow> style_run list" where
  "append_style_run runs cell sid =
     (if sid = 0 then runs
      else case runs of
        (previous_id, start, span) # earlier \<Rightarrow>
          if previous_id = sid \<and> sat_add start span = fc_column cell
          then (previous_id, start, sat_add span (fc_span cell)) # earlier
          else (sid, fc_column cell, fc_span cell) # runs
      | [] \<Rightarrow> [(sid, fc_column cell, fc_span cell)])"

definition style_runs :: "(frame_cell \<times> u32) list \<Rightarrow> style_run list" where
  "style_runs cells = rev (foldl (\<lambda>runs (cell, sid). append_style_run runs cell sid) [] cells)"

definition encode_glyph_instance :: "glyph_instance \<Rightarrow> u32 \<Rightarrow> bytes" where
  "encode_glyph_instance g style =
     u32_le (gi_glyph_id g) @ u32_le style @ u32_le (gi_x g) @ u32_le (gi_y g)
     @ u32_le (gi_width g) @ u32_le (gi_height g) @ u16_le (gi_cell_start g) @ u16_le (gi_cell_span g)"

text \<open>The identifiers of a row's cells and of its glyphs, for either preparation.\<close>

fun cell_ids :: "prepared_styles \<Rightarrow> nat \<Rightarrow> frame_cell list \<Rightarrow> u32 list" where
  "cell_ids (Linear _) updated_index cells = map (\<lambda>c. style_id (frame_style_of c)) cells"
| "cell_ids (Indexed _ rows) updated_index cells = rs_cell_ids (rows ! updated_index)"

definition covers :: "u16 \<Rightarrow> frame_cell \<Rightarrow> bool" where
  "covers column c \<longleftrightarrow> fc_column c \<le> column \<and> column < cell_stop c"

fun glyph_style_id :: "prepared_styles \<Rightarrow> nat \<Rightarrow> frame_cell list \<Rightarrow> glyph_instance \<Rightarrow> u32" where
  "glyph_style_id (Linear _) updated_index cells g =
     (case find (covers (gi_cell_start g)) cells of
        Some c \<Rightarrow> style_id (frame_style_of c) | None \<Rightarrow> 0)"
| "glyph_style_id (Indexed _ rows) updated_index cells g =
     (let ids = rs_column_ids (rows ! updated_index)
      in if unat (gi_cell_start g) < length ids then ids ! unat (gi_cell_start g) else 0)"

definition encode_run :: "style_run \<Rightarrow> bytes" where
  "encode_run r = (case r of (sid, start, span) \<Rightarrow> u32_le sid @ u16_le start @ u16_le span)"

definition encode_row ::
  "frame_cell frame_snapshot \<Rightarrow> prepared_styles \<Rightarrow> nat \<times> u16 \<Rightarrow> frame_error + bytes \<times> bytes" where
  "encode_row s prepared p =
     (case p of (updated_index, row) \<Rightarrow>
        let txt = str_bytes (fs_rows s ! unat row);
            shaped = fs_shaped_rows s ! unat row;
            cells = fs_cells s ! unat row;
            runs = style_runs (zip cells (cell_ids prepared updated_index cells))
        in if 2 ^ 32 \<le> length txt then Inl RowTooLarge
           else Inr (u16_le row @ u32_le (of_nat (length txt)) @ txt,
             u16_le row @ u64_le (fs_revision s) @ u32_le (of_nat (length txt))
             @ u16_le (of_nat (length (sr_glyphs shaped))) @ u16_le (of_nat (length runs)) @ txt
             @ concat (map (\<lambda>g. encode_glyph_instance g (glyph_style_id prepared updated_index cells g))
                 (sr_glyphs shaped))
             @ concat (map encode_run runs)))"

definition encode_link :: "terminal_link \<Rightarrow> frame_error + bytes" where
  "encode_link l =
     (if 2 ^ 32 \<le> length (tl_uri l) \<or> 2 ^ 16 \<le> length (tl_spans l) then Inl CountOverflow
      else Inr (u32_le (of_nat (length (tl_uri l))) @ u16_le (of_nat (length (tl_spans l)))
        @ u16_le (of_bool (tl_explicit l)) @ str_bytes (tl_uri l)
        @ concat (map (\<lambda>p. u16_le (ls_row p) @ u16_le (ls_start_column p) @ u16_le (ls_end_column p))
            (tl_spans l))))"

definition encode_links :: "terminal_link list option \<Rightarrow> frame_error + bytes" where
  "encode_links links =
     (case links of
        None \<Rightarrow> Inr []
      | Some ls \<Rightarrow>
          if 2 ^ 32 \<le> length ls then Inl CountOverflow
          else bind_res (collect_res (map encode_link ls)) (\<lambda>parts.
                 Inr (u32_le (of_nat (length ls)) @ concat parts)))"

section \<open>The packet\<close>

definition FRAME_MAGIC :: u32 where "FRAME_MAGIC = 0x31465254"
definition FRAME_HEADER_BYTES :: nat where "FRAME_HEADER_BYTES = 64"
definition SECTION_HEADER_BYTES :: nat where "SECTION_HEADER_BYTES = 16"
definition GLYPH_DEFINITIONS :: u16 where "GLYPH_DEFINITIONS = 1"
definition STYLE_DEFINITIONS :: u16 where "STYLE_DEFINITIONS = 2"
definition ROW_REPLACEMENTS :: u16 where "ROW_REPLACEMENTS = 3"
definition CURSOR_STATE :: u16 where "CURSOR_STATE = 4"
definition SELECTION_SPANS :: u16 where "SELECTION_SPANS = 5"
definition SCROLLBAR_STATE :: u16 where "SCROLLBAR_STATE = 8"
definition ACCESSIBILITY_TEXT :: u16 where "ACCESSIBILITY_TEXT = 10"
definition CLIPBOARD_WRITE :: u16 where "CLIPBOARD_WRITE = 11"
definition LINK_TARGETS :: u16 where "LINK_TARGETS = 12"
definition STYLE_PALETTE :: u16 where "STYLE_PALETTE = 13"
definition FULL_SNAPSHOT :: u16 where "FULL_SNAPSHOT = 1"
definition MOUSE_TRACKING :: u16 where "MOUSE_TRACKING = push_bit 1 1"
definition CATALOG_RESET :: u16 where "CATALOG_RESET = push_bit 2 1"

text \<open>\<open>put_u16\<close>, \<open>put_u32\<close> and \<open>put_u64\<close> write the bytes of a field over the packet's.\<close>

definition put_bytes :: "nat \<times> bytes \<Rightarrow> bytes \<Rightarrow> bytes" where
  "put_bytes field target =
     (case field of (offset, v) \<Rightarrow> take offset target @ v @ drop (offset + length v) target)"

definition put_all :: "(nat \<times> bytes) list \<Rightarrow> bytes \<Rightarrow> bytes" where
  "put_all puts target = fold put_bytes puts target"

text \<open>The header of a section: its kind, two bytes of flags, offset, length and entry count.\<close>

definition section_fields :: "nat \<Rightarrow> u16 \<Rightarrow> nat \<Rightarrow> nat \<Rightarrow> u32 \<Rightarrow> (nat \<times> bytes) list" where
  "section_fields header kind offset len count =
     [(header, u16_le kind), (header + 4, u32_le (of_nat offset)), (header + 8, u32_le (of_nat len)),
      (header + 12, u32_le count)]"

definition frame_flags :: "'c frame_snapshot \<Rightarrow> u16" where
  "frame_flags s = (if fs_full_snapshot s then FULL_SNAPSHOT else 0)
     OR (if fs_mouse_tracking s then MOUSE_TRACKING else 0)
     OR (if fs_catalog_reset s then CATALOG_RESET else 0)"

definition cursor_bytes :: "logical_cursor \<Rightarrow> bytes" where
  "cursor_bytes c = u16_le (cu_x c) @ u16_le (cu_y c)
     @ [bool_byte (cu_visible c), cu_style c, bool_byte (cu_blinking c), 0]"

definition scrollbar_bytes :: "logical_scrollbar \<Rightarrow> bytes" where
  "scrollbar_bytes b = u64_le (sb_total b) @ u64_le (sb_offset b) @ u64_le (sb_len b)"

definition selection_bytes :: "tracked_selection \<Rightarrow> bytes" where
  "selection_bytes s = u16_le (pt_column (se_anchor s)) @ u32_le (pt_row (se_anchor s))
     @ u16_le (pt_column (se_focus s)) @ u32_le (pt_row (se_focus s))"

definition clipboard_bytes :: "bytes \<Rightarrow> bytes" where
  "clipboard_bytes t = u32_le (of_nat (length t)) @ t"

definition option_bytes :: "bytes option \<Rightarrow> bytes" where
  "option_bytes x = (case x of None \<Rightarrow> [] | Some bs \<Rightarrow> bs)"

text \<open>
  The parts of the packet once they are encoded, and the layout of the packet over them.
\<close>

record frame_parts =
  fp_glyphs :: bytes
  fp_glyph_count :: u32
  fp_styles :: bytes
  fp_style_count :: u32
  fp_replacements :: bytes
  fp_accessibility :: bytes
  fp_selection :: "bytes option"
  fp_clipboard :: "bytes option"
  fp_links :: bytes
  fp_palette :: bytes
  fp_palette_count :: u32

definition section_count :: "'c frame_snapshot \<Rightarrow> frame_parts \<Rightarrow> nat" where
  "section_count s p = 7 + of_bool (fs_links s \<noteq> None) + of_bool (fp_clipboard p \<noteq> None)
     + of_bool (0 < fp_palette_count p)"

definition assemble_frame :: "'c frame_snapshot \<Rightarrow> frame_parts \<Rightarrow> bytes" where
  "assemble_frame s p =
     (let glyph_offset = FRAME_HEADER_BYTES + SECTION_HEADER_BYTES * section_count s p;
          style_offset = glyph_offset + length (fp_glyphs p);
          replacement_offset = style_offset + length (fp_styles p);
          cursor_offset = replacement_offset + length (fp_replacements p);
          accessibility_offset = cursor_offset + 8;
          scrollbar_offset = accessibility_offset + length (fp_accessibility p);
          body = replicate glyph_offset 0 @ fp_glyphs p @ fp_styles p @ fp_replacements p
            @ cursor_bytes (fs_cursor s) @ fp_accessibility p @ scrollbar_bytes (fs_scrollbar s);
          selection_offset = length body;
          clipboard_offset = selection_offset + length (option_bytes (fp_selection p));
          link_offset = clipboard_offset + length (option_bytes (fp_clipboard p));
          palette_offset = link_offset + length (fp_links p);
          packet = body @ option_bytes (fp_selection p) @ option_bytes (fp_clipboard p) @ fp_links p
            @ (if 0 < fp_palette_count p then fp_palette p else []);
          updated = of_nat (length (fs_updated_rows s));
          link_header = 176 + of_bool (fp_clipboard p \<noteq> None) * SECTION_HEADER_BYTES;
          palette_header = 176 + (of_bool (fp_clipboard p \<noteq> None) + of_bool (fs_links s \<noteq> None))
            * SECTION_HEADER_BYTES
      in put_all
           ([(0, u32_le FRAME_MAGIC), (4, u16_le 1), (6, u16_le (frame_flags s)),
             (8, u64_le (fs_session_handle s)), (16, u64_le (fs_session_handle s)),
             (24, u64_le (fs_session_epoch s)), (32, u64_le (fs_layout_epoch s)),
             (40, u64_le (fs_sequence s)), (48, u64_le (fs_revision s)), (56, u16_le (fs_cols s)),
             (58, u16_le (of_nat (length (fs_rows s)))), (60, u16_le (of_nat (section_count s p)))]
            @ section_fields 64 GLYPH_DEFINITIONS glyph_offset (length (fp_glyphs p)) (fp_glyph_count p)
            @ section_fields 80 STYLE_DEFINITIONS style_offset (length (fp_styles p)) (fp_style_count p)
            @ [(96, u16_le ROW_REPLACEMENTS), (98, u16_le (if fs_full_snapshot s then FULL_SNAPSHOT else 0)),
               (100, u32_le (of_nat replacement_offset)), (104, u32_le (of_nat (length (fp_replacements p)))),
               (108, u32_le updated)]
            @ section_fields 112 CURSOR_STATE cursor_offset 8 1
            @ section_fields 128 ACCESSIBILITY_TEXT accessibility_offset (length (fp_accessibility p)) updated
            @ section_fields 144 SCROLLBAR_STATE scrollbar_offset 24 1
            @ section_fields 160 SELECTION_SPANS selection_offset (length (option_bytes (fp_selection p)))
                (of_bool (fp_selection p \<noteq> None))
            @ (case fp_clipboard p of None \<Rightarrow> []
               | Some bs \<Rightarrow> section_fields 176 CLIPBOARD_WRITE clipboard_offset (length bs) 1)
            @ (case fs_links s of None \<Rightarrow> []
               | Some ls \<Rightarrow> section_fields link_header LINK_TARGETS link_offset (length (fp_links p))
                   (of_nat (length ls)))
            @ (if 0 < fp_palette_count p
               then section_fields palette_header STYLE_PALETTE palette_offset (length (fp_palette p))
                      (fp_palette_count p)
               else []))
           packet)"

definition encode_parts ::
  "bool \<Rightarrow> frame_cell frame_snapshot \<Rightarrow> frame_error + frame_parts" where
  "encode_parts indexed s =
     (if 65535 < length (fs_rows s) then Inl TooManyRows
      else if length (fs_rows s) \<noteq> length (fs_shaped_rows s) \<or> length (fs_rows s) \<noteq> length (fs_cells s)
           then Inl RowCountsDiffer
      else if \<exists>row \<in> set (fs_updated_rows s). length (fs_cells s) \<le> unat row then Inl FramePanic
      else let prepared = prepare_styles indexed s;
               updated = u16_le (of_nat (length (fs_updated_rows s)))
      in bind_res (encode_glyph_definitions (fs_new_glyphs s)) (\<lambda>(glyphs, glyph_count).
         let sorted_styles = prepared_sorted prepared;
             (palette, palette_count) = encode_style_palette sorted_styles
         in bind_res (collect_res (map (encode_row s prepared) (enumerate 0 (fs_updated_rows s)))) (\<lambda>rows.
            bind_res (encode_links (fs_links s)) (\<lambda>links.
              Inr \<lparr>fp_glyphs = glyphs, fp_glyph_count = glyph_count,
                   fp_styles = encode_style_definitions sorted_styles,
                   fp_style_count = of_nat (prepared_len prepared),
                   fp_replacements = updated @ concat (map snd rows),
                   fp_accessibility = updated @ concat (map fst rows),
                   fp_selection = map_option selection_bytes (fs_selection s),
                   fp_clipboard = map_option clipboard_bytes (fs_clipboard s),
                   fp_links = links, fp_palette = palette, fp_palette_count = palette_count\<rparr>))))"

text \<open>\<open>encode_frame_text_snapshot\<close>: rows of eight cells and more go through the index.\<close>

definition encode_frame_with :: "bool \<Rightarrow> frame_cell frame_snapshot \<Rightarrow> frame_error + bytes" where
  "encode_frame_with indexed s = bind_res (encode_parts indexed s) (\<lambda>p. Inr (assemble_frame s p))"

definition encode_frame :: "frame_cell frame_snapshot \<Rightarrow> frame_error + bytes" where
  "encode_frame s = encode_frame_with (uses_index s) s"

text \<open>\<open>encode_text_snapshot\<close>: the same over the cells of the local terminal.\<close>

definition encode_text_snapshot :: "terminal_cell frame_snapshot \<Rightarrow> frame_error + bytes" where
  "encode_text_snapshot s = encode_frame
     \<lparr>fs_session_handle = fs_session_handle s, fs_session_epoch = fs_session_epoch s,
      fs_layout_epoch = fs_layout_epoch s, fs_sequence = fs_sequence s, fs_revision = fs_revision s,
      fs_cols = fs_cols s, fs_rows = fs_rows s, fs_shaped_rows = fs_shaped_rows s,
      fs_cells = map (map frame_cell_of_terminal) (fs_cells s),
      fs_updated_rows = fs_updated_rows s, fs_full_snapshot = fs_full_snapshot s,
      fs_catalog_reset = fs_catalog_reset s, fs_mouse_tracking = fs_mouse_tracking s,
      fs_scrollbar = fs_scrollbar s, fs_selection = fs_selection s, fs_new_glyphs = fs_new_glyphs s,
      fs_clipboard = fs_clipboard s, fs_cursor = fs_cursor s, fs_links = fs_links s\<rparr>"

end
