(* ===== verification/Frame_Facts.thy ===== *)
theory Frame_Facts
  imports Frame_Encoder
begin

text \<open>
  Facts behind the properties of the frame encoder: the indexed preparation of styles against
  the linear search, the effect of the header writes, and the merging of style runs.
\<close>

section \<open>The index of styles\<close>

lemma length_fill_range [simp]: "length (fill_range a b v xs) = length xs"
  by (simp add: fill_range_def)

lemma nth_fill_range [simp]:
  "k < length xs \<Longrightarrow> fill_range a b v xs ! k = (if a \<le> k \<and> k < b then v else xs ! k)"
  by (simp add: fill_range_def)

lemma length_fill_columns [simp]: "length (fill_columns p ids) = length ids"
  by (cases p) (simp add: fill_columns_def)

lemma length_foldr_fill [simp]: "length (foldr fill_columns ps ids) = length ids"
  by (induction ps) simp_all

lemma nth_fill_columns:
  "k < length ids \<Longrightarrow> fill_columns (c, sid) ids ! k =
     (if unat (fc_column c) \<le> k \<and> k < unat (cell_stop c) then sid else ids ! k)"
  by (auto simp: fill_columns_def)

text \<open>Filling from the last cell to the first leaves in each column the first cell that covers it.\<close>

lemma foldr_fill_columns:
  "k < length ids \<Longrightarrow>
     foldr fill_columns ps ids ! k =
       (case find (\<lambda>(c, _). unat (fc_column c) \<le> k \<and> k < unat (cell_stop c)) ps of
          Some (_, sid) \<Rightarrow> sid | None \<Rightarrow> ids ! k)"
proof (induction ps)
  case Nil
  then show ?case by simp
next
  case (Cons p ps)
  then show ?case by (cases p) (auto simp: nth_fill_columns split: option.splits)
qed

lemma covers_unat: "covers column c \<longleftrightarrow> unat (fc_column c) \<le> unat column \<and> unat column < unat (cell_stop c)"
  by (simp add: covers_def word_le_nat_alt word_less_nat_alt)

lemma find_zip_map:
  "find (\<lambda>(c, _). P c) (zip cs (map f cs)) = map_option (\<lambda>c. (c, f c)) (find P cs)"
  by (induction cs) auto

lemma fold_max_ge: "n \<in> set ns \<Longrightarrow> n \<le> fold max ns (a :: nat)"
proof (induction ns arbitrary: a)
  case Nil
  then show ?case by simp
next
  case (Cons m ns)
  have start: "b \<le> fold max xs b" for xs and b :: nat
  proof (induction xs arbitrary: b)
    case (Cons x xs)
    from Cons [of "max x b"] show ?case by simp
  qed simp
  show ?case
  proof (cases "n = m")
    case True
    then show ?thesis using start [of "max m a" ns] by simp
  next
    case False
    with Cons show ?thesis by simp
  qed
qed

lemma column_count_glyph: "g \<in> set (sr_glyphs shaped) \<Longrightarrow> unat (gi_cell_start g) < column_count shaped"
  using fold_max_ge [of "unat (gi_cell_start g) + 1" "map (\<lambda>g. unat (gi_cell_start g) + 1) (sr_glyphs shaped)" 0]
  by (auto simp: column_count_def)

lemma row_column_ids_lookup:
  assumes "g \<in> set (sr_glyphs shaped)"
  shows "unat (gi_cell_start g) < length (row_column_ids cells shaped)"
    and "row_column_ids cells shaped ! unat (gi_cell_start g) =
       (case find (covers (gi_cell_start g)) cells of
          Some c \<Rightarrow> style_id (frame_style_of c) | None \<Rightarrow> 0)"
proof -
  note lt = column_count_glyph [OF assms]
  show "unat (gi_cell_start g) < length (row_column_ids cells shaped)"
    using lt by (simp add: row_column_ids_def foldr_conv_fold [symmetric])
  have "find (\<lambda>(c, _). unat (fc_column c) \<le> unat (gi_cell_start g) \<and> unat (gi_cell_start g) < unat (cell_stop c))
      (zip cells (map (\<lambda>c. style_id (frame_style_of c)) cells))
    = map_option (\<lambda>c. (c, style_id (frame_style_of c))) (find (covers (gi_cell_start g)) cells)"
    using find_zip_map [of "covers (gi_cell_start g)" cells "\<lambda>c. style_id (frame_style_of c)"]
    by (simp add: covers_unat)
  with lt show "row_column_ids cells shaped ! unat (gi_cell_start g) =
       (case find (covers (gi_cell_start g)) cells of
          Some c \<Rightarrow> style_id (frame_style_of c) | None \<Rightarrow> 0)"
    by (auto simp: row_column_ids_def foldr_conv_fold [symmetric] foldr_fill_columns split: option.splits)
qed

lemma prepare_rows_fold:
  "snd (prepare_rows cells shaped rows styles) =
     fold (\<lambda>row. fold (\<lambda>c. insert_style (frame_style_of c)) (cells ! unat row)) rows styles"
  by (induction rows arbitrary: styles) (simp_all add: prepare_row_styles_def case_prod_beta Let_def)

lemma prepare_rows_nth:
  "i < length rows \<Longrightarrow> fst (prepare_rows cells shaped rows styles) ! i =
     \<lparr>rs_cell_ids = map (\<lambda>c. style_id (frame_style_of c)) (cells ! unat (rows ! i)),
      rs_column_ids = row_column_ids (cells ! unat (rows ! i)) (shaped ! unat (rows ! i))\<rparr>"
  by (induction rows arbitrary: styles i)
    (auto simp: prepare_row_styles_def case_prod_beta Let_def nth_Cons split: nat.splits)

lemma prepared_definitions_indexed:
  "prepared_definitions (prepare_styles True s) = prepared_definitions (prepare_styles False s)"
  using prepare_rows_fold [of "fs_cells s" "fs_shaped_rows s" "fs_updated_rows s" initial_styles]
  by (simp add: prepare_styles_def case_prod_beta Let_def)

lemma cell_ids_indexed:
  assumes "i < length (fs_updated_rows s)"
  shows "cell_ids (prepare_styles True s) i (fs_cells s ! unat (fs_updated_rows s ! i))
     = cell_ids (prepare_styles False s) i (fs_cells s ! unat (fs_updated_rows s ! i))"
  using prepare_rows_nth [OF assms, of "fs_cells s" "fs_shaped_rows s" initial_styles]
  by (simp add: prepare_styles_def case_prod_beta Let_def)

lemma glyph_style_indexed:
  assumes "i < length (fs_updated_rows s)"
    and "g \<in> set (sr_glyphs (fs_shaped_rows s ! unat (fs_updated_rows s ! i)))"
  shows "glyph_style_id (prepare_styles True s) i (fs_cells s ! unat (fs_updated_rows s ! i)) g
     = glyph_style_id (prepare_styles False s) i (fs_cells s ! unat (fs_updated_rows s ! i)) g"
  using prepare_rows_nth [OF assms(1), of "fs_cells s" "fs_shaped_rows s" initial_styles]
    row_column_ids_lookup [OF assms(2), of "fs_cells s ! unat (fs_updated_rows s ! i)"]
  by (simp add: prepare_styles_def case_prod_beta Let_def)

lemma encode_row_indexed:
  assumes "(i, row) \<in> set (enumerate 0 (fs_updated_rows s))"
  shows "encode_row s (prepare_styles True s) (i, row) = encode_row s (prepare_styles False s) (i, row)"
proof -
  from assms have i: "i < length (fs_updated_rows s)" "row = fs_updated_rows s ! i"
    by (auto simp: in_set_enumerate_eq)
  have maps: "map (\<lambda>g. encode_glyph_instance g
        (glyph_style_id (prepare_styles True s) i (fs_cells s ! unat row) g))
      (sr_glyphs (fs_shaped_rows s ! unat row))
    = map (\<lambda>g. encode_glyph_instance g
        (glyph_style_id (prepare_styles False s) i (fs_cells s ! unat row) g))
      (sr_glyphs (fs_shaped_rows s ! unat row))"
    using glyph_style_indexed [OF i(1)] by (simp add: i(2))
  have ids: "cell_ids (prepare_styles True s) i (fs_cells s ! unat row)
      = cell_ids (prepare_styles False s) i (fs_cells s ! unat row)"
    unfolding i(2) by (rule cell_ids_indexed [OF i(1)])
  show ?thesis by (simp only: encode_row_def prod.case Let_def maps ids)
qed

lemma encode_parts_indexed: "encode_parts True s = encode_parts False s"
proof -
  have rows: "map (encode_row s (prepare_styles True s)) (enumerate 0 (fs_updated_rows s))
      = map (encode_row s (prepare_styles False s)) (enumerate 0 (fs_updated_rows s))"
    using encode_row_indexed by auto
  have maps: "prepared_sorted (prepare_styles True s) = prepared_sorted (prepare_styles False s)"
    "prepared_len (prepare_styles True s) = prepared_len (prepare_styles False s)"
    by (simp_all add: prepared_sorted_def prepared_len_def prepared_definitions_indexed)
  show ?thesis by (simp only: encode_parts_def Let_def rows maps)
qed

section \<open>Header writes\<close>

text \<open>Fields in increasing order that do not overlap, and where they end.\<close>

fun ordered_fields :: "nat \<Rightarrow> (nat \<times> bytes) list \<Rightarrow> bool" where
  "ordered_fields n [] \<longleftrightarrow> True"
| "ordered_fields n ((offset, v) # fs) \<longleftrightarrow> n \<le> offset \<and> ordered_fields (offset + length v) fs"

fun fields_end :: "nat \<Rightarrow> (nat \<times> bytes) list \<Rightarrow> nat" where
  "fields_end n [] = n"
| "fields_end n ((offset, v) # fs) = fields_end (offset + length v) fs"

lemma fields_end_ge: "ordered_fields n fs \<Longrightarrow> n \<le> fields_end n fs"
  by (induction n fs rule: fields_end.induct) auto

lemma slice_take: "i + n \<le> m \<Longrightarrow> slice i n (take m xs) = slice i n xs"
  by (simp add: slice_def take_drop min_def)

lemma put_all_ordered:
  "ordered_fields n fs \<Longrightarrow> fields_end n fs \<le> length target \<Longrightarrow>
     length (put_all fs target) = length target \<and> take n (put_all fs target) = take n target
     \<and> drop (fields_end n fs) (put_all fs target) = drop (fields_end n fs) target
     \<and> (\<forall>(offset, v) \<in> set fs. slice offset (length v) (put_all fs target) = v)"
proof (induction n fs arbitrary: target rule: fields_end.induct)
  case (1 n)
  then show ?case by (simp add: put_all_def)
next
  case (2 n offset v fs)
  let ?t = "put_bytes (offset, v) target"
  from 2(2) have ord: "n \<le> offset" "ordered_fields (offset + length v) fs" by simp_all
  note ge = fields_end_ge [OF ord(2)]
  with 2(3) have fits: "offset + length v \<le> length target" by simp
  then have len: "length ?t = length target" by (simp add: put_bytes_def)
  have "fields_end (offset + length v) fs \<le> length ?t" using 2(3) len by simp
  note IH = 2(1) [OF ord(2) this]
  have step: "put_all ((offset, v) # fs) target = put_all fs ?t" by (simp add: put_all_def)
  have written: "take (offset + length v) ?t = take offset target @ v"
    using fits by (simp add: put_bytes_def)
  have "slice offset (length v) (put_all fs ?t) = slice offset (length v) (take (offset + length v) (put_all fs ?t))"
    by (simp add: slice_take)
  also have "\<dots> = slice offset (length v) (take offset target @ v)"
    using IH written by simp
  also have "\<dots> = v" using fits by (simp add: slice_def)
  finally have head: "slice offset (length v) (put_all fs ?t) = v" .
  have "take n (put_all fs ?t) = take n (take (offset + length v) (put_all fs ?t))"
    using ord(1) by (simp add: min_def)
  also have "\<dots> = take n (take offset target @ v)" using IH written by simp
  also have "\<dots> = take n target" using ord(1) fits by (simp add: min_def)
  finally have front: "take n (put_all fs ?t) = take n target" .
  have "drop (fields_end (offset + length v) fs) ?t = drop (fields_end (offset + length v) fs) target"
    using ge fits by (simp add: put_bytes_def min_def)
  with IH head front show ?case by (simp add: step len)
qed

section \<open>Reading a frame\<close>

text \<open>
  What a renderer reads of a packet: the header at its fixed offsets, and the payload of each
  section at the offset and length its header announces.
\<close>

definition read_u16 :: "bytes \<Rightarrow> nat \<Rightarrow> nat" where
  "read_u16 packet offset = le_value (slice offset 2 packet)"

definition read_u32 :: "bytes \<Rightarrow> nat \<Rightarrow> nat" where
  "read_u32 packet offset = le_value (slice offset 4 packet)"

definition read_u64 :: "bytes \<Rightarrow> nat \<Rightarrow> nat" where
  "read_u64 packet offset = le_value (slice offset 8 packet)"

text \<open>Kind, entry count and payload of the section whose header is at \<open>header\<close>.\<close>

definition read_section :: "bytes \<Rightarrow> nat \<Rightarrow> nat \<times> nat \<times> bytes" where
  "read_section packet header =
     (read_u16 packet header, read_u32 packet (header + 12),
      slice (read_u32 packet (header + 4)) (read_u32 packet (header + 8)) packet)"

definition read_sections :: "bytes \<Rightarrow> (nat \<times> nat \<times> bytes) list" where
  "read_sections packet = map (\<lambda>i. read_section packet (64 + 16 * i)) [0..<read_u16 packet 60]"

text \<open>The sections a frame holds, in order.\<close>

definition frame_payloads :: "'c frame_snapshot \<Rightarrow> frame_parts \<Rightarrow> (u16 \<times> u32 \<times> bytes) list" where
  "frame_payloads s p =
     [(GLYPH_DEFINITIONS, fp_glyph_count p, fp_glyphs p),
      (STYLE_DEFINITIONS, fp_style_count p, fp_styles p),
      (ROW_REPLACEMENTS, of_nat (length (fs_updated_rows s)), fp_replacements p),
      (CURSOR_STATE, 1, cursor_bytes (fs_cursor s)),
      (ACCESSIBILITY_TEXT, of_nat (length (fs_updated_rows s)), fp_accessibility p),
      (SCROLLBAR_STATE, 1, scrollbar_bytes (fs_scrollbar s)),
      (SELECTION_SPANS, of_bool (fp_selection p \<noteq> None), option_bytes (fp_selection p))]
     @ (case fp_clipboard p of None \<Rightarrow> [] | Some bs \<Rightarrow> [(CLIPBOARD_WRITE, 1, bs)])
     @ (case fs_links s of None \<Rightarrow> [] | Some ls \<Rightarrow> [(LINK_TARGETS, of_nat (length ls), fp_links p)])
     @ (if 0 < fp_palette_count p then [(STYLE_PALETTE, fp_palette_count p, fp_palette p)] else [])"

text \<open>The header fields of a list of sections whose payloads follow one another from \<open>offset\<close>.\<close>

fun layout_fields :: "nat \<Rightarrow> nat \<Rightarrow> (u16 \<times> u32 \<times> bytes) list \<Rightarrow> (nat \<times> bytes) list" where
  "layout_fields header offset [] = []"
| "layout_fields header offset ((kind, count, payload) # ps) =
     section_fields header kind offset (length payload) count
     @ layout_fields (header + 16) (offset + length payload) ps"

lemma read_layout:
  assumes "\<forall>(offset, v) \<in> set (layout_fields header start ps). slice offset (length v) packet = v"
    and "drop start packet = concat (map (\<lambda>(kind, count, payload). payload) ps) @ rest"
    and "start \<le> length packet" and "length packet < 2 ^ 32"
  shows "map (\<lambda>i. read_section packet (header + 16 * i)) [0..<length ps]
     = map (\<lambda>(kind, count, payload). (unat kind, unat count, payload)) ps"
  using assms
proof (induction ps arbitrary: header start)
  case Nil
  then show ?case by simp
next
  case (Cons q ps)
  obtain kind count payload where q: "q = (kind, count, payload)" by (cases q)
  have body: "drop start packet = payload @ concat (map (\<lambda>(kind, count, payload). payload) ps) @ rest"
    using Cons.prems(2) by (simp add: q)
  then have "length (drop start packet) = length payload
      + length (concat (map (\<lambda>(kind, count, payload). payload) ps) @ rest)"
    by (simp only: length_append)
  with Cons.prems(3) have bound: "start + length payload \<le> length packet" by simp
  have "drop (start + length payload) packet = drop (length payload) (drop start packet)"
    by (simp add: add.commute)
  also have "\<dots> = concat (map (\<lambda>(kind, count, payload). payload) ps) @ rest"
    by (simp add: body)
  finally have tail: "drop (start + length payload) packet
      = concat (map (\<lambda>(kind, count, payload). payload) ps) @ rest" .
  have fields: "slice header 2 packet = u16_le kind" "slice (header + 4) 4 packet = u32_le (of_nat start)"
    "slice (header + 8) 4 packet = u32_le (of_nat (length payload))" "slice (header + 12) 4 packet = u32_le count"
    using Cons.prems(1) by (simp_all add: q section_fields_def)
  have small: "unat (of_nat start :: u32) = start" "unat (of_nat (length payload) :: u32) = length payload"
    using bound Cons.prems(4) by (simp_all add: unat_of_nat)
  have "slice start (length payload) packet = payload" using body by (simp add: slice_def)
  then have head: "read_section packet header = (unat kind, unat count, payload)"
    by (simp add: read_section_def read_u16_def read_u32_def fields small)
  have "map (\<lambda>i. read_section packet (header + 16 + 16 * i)) [0..<length ps]
      = map (\<lambda>(kind, count, payload). (unat kind, unat count, payload)) ps"
    by (rule Cons.IH [OF _ tail bound Cons.prems(4)]) (use Cons.prems(1) in \<open>simp add: q\<close>)
  moreover have "[0..<length (q # ps)] = 0 # map Suc [0..<length ps]"
    by (simp add: map_Suc_upt upt_conv_Cons del: upt_Suc)
  ultimately show ?case by (simp add: head q comp_def add.assoc)
qed

lemma layout_append:
  "layout_fields header offset (ps @ qs) = layout_fields header offset ps
     @ layout_fields (header + 16 * length ps)
         (offset + length (concat (map (\<lambda>(kind, count, payload). payload) ps))) qs"
  by (induction ps arbitrary: header offset) (auto simp: add.assoc)

text \<open>The fields of the frame's own header, with the flags of the row section.\<close>

definition header_fields :: "'c frame_snapshot \<Rightarrow> frame_parts \<Rightarrow> (nat \<times> bytes) list" where
  "header_fields s p =
     [(0, u32_le FRAME_MAGIC), (4, u16_le 1), (6, u16_le (frame_flags s)),
      (8, u64_le (fs_session_handle s)), (16, u64_le (fs_session_handle s)),
      (24, u64_le (fs_session_epoch s)), (32, u64_le (fs_layout_epoch s)),
      (40, u64_le (fs_sequence s)), (48, u64_le (fs_revision s)), (56, u16_le (fs_cols s)),
      (58, u16_le (of_nat (length (fs_rows s)))), (60, u16_le (of_nat (section_count s p)))]"

definition frame_start :: "'c frame_snapshot \<Rightarrow> frame_parts \<Rightarrow> nat" where
  "frame_start s p = 64 + 16 * section_count s p"

lemma length_frame_payloads: "length (frame_payloads s p) = section_count s p"
  by (simp add: frame_payloads_def section_count_def split: option.splits)

lemma length_cursor_scrollbar [simp]:
  "length (cursor_bytes c) = 8" "length (scrollbar_bytes b) = 24"
  by (simp_all add: cursor_bytes_def scrollbar_bytes_def)

lemmas layout_defs = FRAME_HEADER_BYTES_def SECTION_HEADER_BYTES_def option_bytes_def

text \<open>The writes of the header, in their order: only the section of rows has flags of its own.\<close>

definition frame_puts :: "'c frame_snapshot \<Rightarrow> frame_parts \<Rightarrow> (nat \<times> bytes) list" where
  "frame_puts s p =
     (let payloads = frame_payloads s p;
          rows_offset = frame_start s p + length (fp_glyphs p) + length (fp_styles p);
          rows_fields = section_fields 96 ROW_REPLACEMENTS rows_offset (length (fp_replacements p))
            (of_nat (length (fs_updated_rows s)))
      in header_fields s p @ layout_fields 64 (frame_start s p) (take 2 payloads)
         @ [hd rows_fields, (98, u16_le (if fs_full_snapshot s then FULL_SNAPSHOT else 0))] @ tl rows_fields
         @ layout_fields 112 (rows_offset + length (fp_replacements p)) (drop 3 payloads))"

definition frame_body :: "'c frame_snapshot \<Rightarrow> frame_parts \<Rightarrow> bytes" where
  "frame_body s p = replicate (frame_start s p) 0
     @ concat (map (\<lambda>(kind, count, payload). payload) (frame_payloads s p))"

lemmas frame_puts_defs = frame_puts_def frame_payloads_def header_fields_def section_fields_def
  frame_start_def section_count_def layout_defs Let_def

text \<open>
  The packet is the written header over zeros followed by the payloads in order; the writes
  are in increasing order and stay inside the header.
\<close>

lemma assemble_puts:
  "(fs_links s = None \<Longrightarrow> fp_links p = []) \<Longrightarrow> assemble_frame s p = put_all (frame_puts s p) (frame_body s p)"
  by (cases "fp_clipboard p"; cases "fs_links s")
    (simp_all add: assemble_frame_def frame_body_def frame_puts_defs add.assoc del: of_nat_add)

lemma frame_puts_ordered:
  "ordered_fields 0 (frame_puts s p) \<and> fields_end 0 (frame_puts s p) \<le> frame_start s p"
  by (cases "fp_clipboard p"; cases "fs_links s") (simp_all add: frame_puts_defs)

lemma frame_puts_header: "set (header_fields s p) \<subseteq> set (frame_puts s p)"
  by (auto simp: frame_puts_def Let_def)

lemma frame_puts_layout:
  "set (layout_fields 64 (frame_start s p) (frame_payloads s p)) \<subseteq> set (frame_puts s p)"
  by (cases "fp_clipboard p"; cases "fs_links s") (simp_all add: frame_puts_defs add.assoc)

section \<open>Runs\<close>

text \<open>The columns a run or a cell colours, with the identifier.\<close>

definition span_columns :: "u32 \<Rightarrow> u16 \<Rightarrow> u16 \<Rightarrow> (nat \<times> u32) list" where
  "span_columns sid start span = map (\<lambda>i. (unat start + i, sid)) [0..<unat span]"

definition run_columns :: "style_run \<Rightarrow> (nat \<times> u32) list" where
  "run_columns r = (case r of (sid, start, span) \<Rightarrow> span_columns sid start span)"

definition styled_columns :: "(frame_cell \<times> u32) list \<Rightarrow> (nat \<times> u32) list" where
  "styled_columns cells =
     concat (map (\<lambda>(c, sid). if sid = 0 then [] else span_columns sid (fc_column c) (fc_span c)) cells)"

definition cell_fits :: "frame_cell \<Rightarrow> bool" where
  "cell_fits c \<longleftrightarrow> unat (fc_column c) + unat (fc_span c) < 2 ^ 16"

definition run_fits :: "style_run \<Rightarrow> bool" where
  "run_fits r = (case r of (sid, start, span) \<Rightarrow> unat start + unat span < 2 ^ 16)"

lemma sat_add_fits: "unat a + unat b < 2 ^ 16 \<Longrightarrow> unat (sat_add a b) = unat a + unat b"
  for a b :: u16
  by (simp add: unat_sat_add)

lemma span_columns_append:
  assumes "unat start + unat a = unat column" and "unat (c :: u16) = unat a + unat b"
  shows "span_columns sid start c = span_columns sid start a @ span_columns sid column b"
proof -
  have shift: "[unat a..<unat a + unat b] = map (\<lambda>i. i + unat a) [0..<unat b]"
    by (simp add: map_add_upt add.commute)
  have "span_columns sid start c = map (\<lambda>i. (unat start + i, sid)) ([0..<unat a] @ [unat a..<unat a + unat b])"
    by (simp add: span_columns_def assms(2) upt_add_eq_append [symmetric])
  also have "\<dots> = span_columns sid start a @ span_columns sid column b"
    using assms(1) by (simp add: span_columns_def shift comp_def add.commute add.left_commute)
  finally show ?thesis .
qed

lemma append_style_run_columns:
  assumes "list_all run_fits runs" and "cell_fits cell"
  shows "list_all run_fits (append_style_run runs cell sid)
     \<and> concat (map run_columns (rev (append_style_run runs cell sid)))
       = concat (map run_columns (rev runs))
         @ (if sid = 0 then [] else span_columns sid (fc_column cell) (fc_span cell))"
proof (cases "sid = 0")
  case True
  with assms show ?thesis by (simp add: append_style_run_def)
next
  case False
  show ?thesis
  proof (cases runs)
    case Nil
    with False assms(2) show ?thesis
      by (simp add: append_style_run_def run_columns_def run_fits_def cell_fits_def)
  next
    case (Cons r earlier)
    obtain previous_id start span where r: "r = (previous_id, start, span)" by (cases r)
    show ?thesis
    proof (cases "previous_id = sid \<and> sat_add start span = fc_column cell")
      case True
      from assms(1) have "unat start + unat span < 2 ^ 16" by (simp add: Cons r run_fits_def)
      then have col: "unat start + unat span = unat (fc_column cell)"
        using True sat_add_fits by metis
      with assms(2) have sum: "unat (sat_add span (fc_span cell)) = unat span + unat (fc_span cell)"
        by (simp add: cell_fits_def unat_sat_add)
      from True False assms col sum show ?thesis
        by (simp add: append_style_run_def Cons r run_fits_def run_columns_def cell_fits_def
            span_columns_append [OF col sum])
    next
      case neq: False
      with False assms show ?thesis
        by (auto simp: append_style_run_def Cons r run_fits_def run_columns_def cell_fits_def)
    qed
  qed
qed

lemma style_runs_fold:
  "list_all run_fits runs \<Longrightarrow> \<forall>(c, sid) \<in> set cells. cell_fits c \<Longrightarrow>
     concat (map run_columns (rev (foldl (\<lambda>runs (c, sid). append_style_run runs c sid) runs cells)))
       = concat (map run_columns (rev runs)) @ styled_columns cells"
proof (induction cells arbitrary: runs)
  case Nil
  then show ?case by (simp add: styled_columns_def)
next
  case (Cons p cells)
  obtain c sid where p: "p = (c, sid)" by fastforce
  with Cons.prems(2) have "cell_fits c" by simp
  note app = append_style_run_columns [OF Cons.prems(1) this, of sid]
  from Cons.IH [of "append_style_run runs c sid"] app Cons.prems(2) show ?case
    by (simp add: p styled_columns_def)
qed

end
