(* ===== verification/Frame_Properties.thy ===== *)
theory Frame_Properties
  imports Frame_Facts
begin

text \<open>What the frames handed to the renderer guarantee.\<close>

section \<open>The style table\<close>

lemma insert_style_dom:
  "style_id fs |\<in>| fmdom (insert_style fs styles)" "fmdom styles |\<subseteq>| fmdom (insert_style fs styles)"
  by (auto simp: insert_style_def fmlookup_dom_iff split: option.splits)

lemma fold_insert_dom:
  "fmdom styles |\<subseteq>| fmdom (fold (\<lambda>c. insert_style (frame_style_of c)) cells styles)
   \<and> (\<forall>c \<in> set cells. style_id (frame_style_of c)
        |\<in>| fmdom (fold (\<lambda>c. insert_style (frame_style_of c)) cells styles))"
proof (induction cells arbitrary: styles)
  case (Cons c cells)
  from Cons.IH [of "insert_style (frame_style_of c) styles"] insert_style_dom [where fs = "frame_style_of c" and styles = styles]
  show ?case by auto
qed simp

lemma fold_rows_dom:
  "fmdom styles |\<subseteq>| fmdom (fold (\<lambda>row. fold (\<lambda>c. insert_style (frame_style_of c)) (cells ! unat row)) rows styles)
   \<and> (\<forall>row \<in> set rows. \<forall>c \<in> set (cells ! unat row). style_id (frame_style_of c)
        |\<in>| fmdom (fold (\<lambda>row. fold (\<lambda>c. insert_style (frame_style_of c)) (cells ! unat row)) rows styles))"
proof (induction rows arbitrary: styles)
  case (Cons row rows)
  from Cons.IH [of "fold (\<lambda>c. insert_style (frame_style_of c)) (cells ! unat row) styles"]
    fold_insert_dom [of styles "cells ! unat row"]
  show ?case by auto
qed simp

lemma prepared_dom:
  "0 |\<in>| fmdom (prepared_definitions (prepare_styles indexed s))
   \<and> (\<forall>row \<in> set (fs_updated_rows s). \<forall>c \<in> set (fs_cells s ! unat row).
        style_id (frame_style_of c) |\<in>| fmdom (prepared_definitions (prepare_styles indexed s)))"
proof -
  have "prepared_definitions (prepare_styles indexed s) = prepared_definitions (prepare_styles False s)"
    using prepared_definitions_indexed [of s] by (cases indexed) simp_all
  moreover have "0 |\<in>| fmdom initial_styles" by (simp add: initial_styles_def)
  ultimately show ?thesis
    using fold_rows_dom [of initial_styles "fs_cells s" "fs_updated_rows s"]
    by (auto simp: prepare_styles_def)
qed

lemma glyph_style_cases:
  "glyph_style_id (Linear d) i cells g = 0 \<or> (\<exists>c \<in> set cells. glyph_style_id (Linear d) i cells g = style_id (frame_style_of c))"
  by (auto simp: find_Some_iff split: option.splits)

lemma frame_written:
  "length (put_all (frame_puts s p) (frame_body s p)) = length (frame_body s p)
   \<and> drop (frame_start s p) (put_all (frame_puts s p) (frame_body s p)) = drop (frame_start s p) (frame_body s p)
   \<and> (\<forall>(offset, v) \<in> set (frame_puts s p). slice offset (length v) (put_all (frame_puts s p) (frame_body s p)) = v)"
proof -
  have fits: "frame_start s p \<le> length (frame_body s p)" by (simp add: frame_body_def)
  note written = put_all_ordered [OF conjunct1 [OF frame_puts_ordered]
      order_trans [OF conjunct2 [OF frame_puts_ordered] fits]]
  then have "drop (fields_end 0 (frame_puts s p)) (put_all (frame_puts s p) (frame_body s p))
      = drop (fields_end 0 (frame_puts s p)) (frame_body s p)" by blast
  then have "drop (frame_start s p) (put_all (frame_puts s p) (frame_body s p)) = drop (frame_start s p) (frame_body s p)"
    using frame_puts_ordered [of s p] by (metis drop_drop le_add_diff_inverse2)
  with written show ?thesis by blast
qed

lemma length_put_frame: "length (put_all (frame_puts s p) (frame_body s p)) = length (frame_body s p)"
  using frame_written [of s p] by blast

text \<open>
  C26. The index of styles is only an optimisation. Whichever way the encoder prepares styles,
  searching the cells of a row for every glyph or indexing each row once, it writes the same
  frame, byte for byte, or fails with the same error; the threshold of eight cells decides cost,
  not output.
\<close>

theorem indexed_styles_equivalent:
  "encode_frame_with True s = encode_frame s \<and> encode_frame_with False s = encode_frame s"
  by (cases "uses_index s") (simp_all add: encode_frame_def encode_frame_with_def encode_parts_indexed)

text \<open>
  C17. A renderer reads back what the encoder put into the frame. In every frame below 4 GiB the
  header holds the session handle, epochs, sequence, revision and size of the snapshot, and each
  announced section, found at the offset and length of its own header, is exactly the encoded
  part: glyphs, styles, rows, cursor, text, scrollbar, selection, then the optional clipboard,
  links and palette.
\<close>

theorem frame_sections_read_back:
  assumes "encode_frame s = Inr packet" and "encode_parts (uses_index s) s = Inr p"
    and "length packet < 2 ^ 32"
  shows "read_sections packet = map (\<lambda>(kind, count, payload). (unat kind, unat count, payload)) (frame_payloads s p)
     \<and> read_u32 packet 0 = unat FRAME_MAGIC \<and> read_u16 packet 6 = unat (frame_flags s)
     \<and> read_u64 packet 8 = unat (fs_session_handle s) \<and> read_u64 packet 24 = unat (fs_session_epoch s)
     \<and> read_u64 packet 32 = unat (fs_layout_epoch s) \<and> read_u64 packet 40 = unat (fs_sequence s)
     \<and> read_u64 packet 48 = unat (fs_revision s) \<and> read_u16 packet 56 = unat (fs_cols s)
     \<and> read_u16 packet 58 = length (fs_rows s)"
proof -
  have few: "length (fs_rows s) \<le> 65535" and links: "fs_links s = None \<Longrightarrow> fp_links p = []"
    using assms(2) by (auto simp: encode_parts_def bind_res_Inr encode_links_def case_prod_beta Let_def split: if_splits)
  have packet: "packet = put_all (frame_puts s p) (frame_body s p)"
    using assms(1,2) assemble_puts [of s p] links by (auto simp: encode_frame_def encode_frame_with_def)
  have fits: "frame_start s p \<le> length (frame_body s p)" by (simp add: frame_body_def)
  note written = frame_written [of s p, folded packet]
  have field: "slice offset (length v) packet = v" if "(offset, v) \<in> set (frame_puts s p)" for offset v
    using written that by blast
  have head: "slice offset (length v) packet = v" if "(offset, v) \<in> set (header_fields s p)" for offset v
    using field that frame_puts_header [of s p] by blast
  have len: "length packet = length (frame_body s p)" using written by blast
  have "drop (frame_start s p) packet = drop (frame_start s p) (frame_body s p)" using written by blast
  then have body: "drop (frame_start s p) packet
      = concat (map (\<lambda>(kind, count, payload). payload) (frame_payloads s p)) @ []"
    by (simp add: frame_body_def)
  have "map (\<lambda>i. read_section packet (64 + 16 * i)) [0..<length (frame_payloads s p)]
      = map (\<lambda>(kind, count, payload). (unat kind, unat count, payload)) (frame_payloads s p)"
    by (rule read_layout [OF _ body _ assms(3)]) (use field frame_puts_layout [of s p] len fits in auto)
  moreover have count: "read_u16 packet 60 = section_count s p"
  proof -
    have "section_count s p \<le> 10" by (simp add: section_count_def)
    then show ?thesis
      using head [of 60 "u16_le (of_nat (section_count s p))"]
      by (simp add: header_fields_def read_u16_def unat_of_nat)
  qed
  ultimately have "read_sections packet
      = map (\<lambda>(kind, count, payload). (unat kind, unat count, payload)) (frame_payloads s p)"
    by (simp add: read_sections_def length_frame_payloads)
  moreover have "read_u16 packet offset = unat x" if "(offset, u16_le x) \<in> set (header_fields s p)" for offset x
    using head [OF that] by (simp add: read_u16_def)
  moreover have "read_u32 packet offset = unat x" if "(offset, u32_le x) \<in> set (header_fields s p)" for offset x
    using head [OF that] by (simp add: read_u32_def)
  moreover have "read_u64 packet offset = unat x" if "(offset, u64_le x) \<in> set (header_fields s p)" for offset x
    using head [OF that] by (simp add: read_u64_def)
  moreover have "unat (of_nat (length (fs_rows s)) :: u16) = length (fs_rows s)"
    using few by (simp add: unat_of_nat)
  ultimately show ?thesis by (simp add: header_fields_def)
qed

text \<open>A frame with one row of one bold cell and a selection.\<close>

definition demo_cell :: "u16 \<Rightarrow> bool \<Rightarrow> frame_cell" where
  "demo_cell column bold = \<lparr>fc_column = column, fc_span = 1, fc_style = default_style\<lparr>vs_bold := bold\<rparr>,
     fc_palette = \<lparr>py_foreground = None, py_background = None\<rparr>\<rparr>"

definition demo_frame :: "frame_cell frame_snapshot" where
  "demo_frame = \<lparr>fs_session_handle = 5, fs_session_epoch = 1, fs_layout_epoch = 2, fs_sequence = 3,
     fs_revision = 4, fs_cols = 80, fs_rows = [''a''],
     fs_shaped_rows = [\<lparr>sr_glyphs = [], sr_definitions = []\<rparr>], fs_cells = [[]],
     fs_updated_rows = [], fs_full_snapshot = False, fs_catalog_reset = False, fs_mouse_tracking = True,
     fs_scrollbar = \<lparr>sb_total = 9, sb_offset = 8, sb_len = 1\<rparr>, fs_selection = None, fs_new_glyphs = [],
     fs_clipboard = Some [104, 105],
     fs_cursor = \<lparr>cu_x = 1, cu_y = 2, cu_visible = True, cu_style = 0, cu_blinking = False\<rparr>, fs_links = None\<rparr>"

definition demo_parts :: frame_parts where
  "demo_parts = \<lparr>fp_glyphs = [0, 0, 0, 0], fp_glyph_count = 0,
     fp_styles = [1, 0, 0, 0, 0, 0, 0, 0, 0, 0, 0, 0, 0, 0, 0, 0, 0, 0, 0, 0], fp_style_count = 1,
     fp_replacements = [0, 0], fp_accessibility = [0, 0], fp_selection = None,
     fp_clipboard = Some [2, 0, 0, 0, 104, 105], fp_links = [], fp_palette = [0, 0, 0, 0], fp_palette_count = 0\<rparr>"

lemma demo_frame_parts: "encode_parts (uses_index demo_frame) demo_frame = Inr demo_parts"
proof -
  have styles: "prepare_styles indexed demo_frame =
      (if indexed then Indexed initial_styles [] else Linear initial_styles)" for indexed
    by (simp add: prepare_styles_def demo_frame_def)
  have "fmdom initial_styles = {|0|}" by (simp add: initial_styles_def)
  then have table: "prepared_sorted (prepare_styles indexed demo_frame) = [(0, default_frame_style)]"
    "prepared_len (prepare_styles indexed demo_frame) = 1" for indexed
    by (simp_all add: styles prepared_sorted_def prepared_len_def fm_len_upd sorted_list_of_fset.rep_eq
        initial_styles_def)
  show ?thesis
    unfolding encode_parts_def table Let_def
    by (simp add: demo_frame_def demo_parts_def encode_glyph_definitions_def encode_style_palette_def
        encode_style_definitions_def default_frame_style_def default_style_def palette_is_empty_def
        style_flag_bits_def color_bytes_def bool_byte_def encode_links_def clipboard_bytes_def uint_bytes Let_def)
qed

lemma frame_sections_read_back_witness:
  "\<exists>packet. encode_frame demo_frame = Inr packet \<and> length (read_sections packet) = 8
     \<and> read_u16 packet 56 = 80 \<and> (11, 1, [2, 0, 0, 0, 104, 105]) \<in> set (read_sections packet)"
proof -
  let ?packet = "assemble_frame demo_frame demo_parts"
  have enc: "encode_frame demo_frame = Inr ?packet"
    using demo_frame_parts by (simp add: encode_frame_def encode_frame_with_def)
  have "?packet = put_all (frame_puts demo_frame demo_parts) (frame_body demo_frame demo_parts)"
    by (rule assemble_puts) (simp add: demo_parts_def)
  then have "length ?packet = length (frame_body demo_frame demo_parts)"
    by (simp add: length_put_frame)
  then have "length ?packet < 2 ^ 32"
    by (simp add: frame_body_def frame_payloads_def frame_start_def section_count_def demo_frame_def
        demo_parts_def option_bytes_def)
  from frame_sections_read_back [OF enc demo_frame_parts this] show ?thesis
    by (intro exI [of _ ?packet] conjI enc)
      (simp_all add: frame_payloads_def demo_frame_def demo_parts_def CLIPBOARD_WRITE_def)
qed

text \<open>
  Merging style runs loses no cell. The runs of a row, expanded to columns, colour exactly
  the columns of its cells with a style of their own, in order and each with its cell's
  identifier, as long as no cell reaches past column 65535.
\<close>

theorem style_runs_lossless:
  assumes "\<forall>(c, sid) \<in> set cells. cell_fits c"
  shows "concat (map run_columns (style_runs cells)) = styled_columns cells"
  using style_runs_fold [of "[]" cells] assms by (simp add: style_runs_def)

lemma style_runs_lossless_witness:
  "concat (map run_columns (style_runs [(demo_cell 0 True, 7), (demo_cell 1 True, 7), (demo_cell 2 False, 0)]))
     = [(0, 7), (1, 7)]"
  using style_runs_lossless [of "[(demo_cell 0 True, 7), (demo_cell 1 True, 7), (demo_cell 2 False, 0)]"]
  by (simp add: demo_cell_def cell_fits_def styled_columns_def span_columns_def)

text \<open>
  C40. No dangling style. The table of styles a frame carries is strictly ordered by identifier,
  holds the default style's identifier 0, and holds the identifier of every cell and of every
  glyph of the rows the frame replaces.
\<close>

theorem frame_styles_defined:
  "sorted_wrt (<) (map fst (prepared_sorted (prepare_styles indexed s)))
   \<and> 0 \<in> fst ` set (prepared_sorted (prepare_styles indexed s))
   \<and> (\<forall>row \<in> set (fs_updated_rows s). \<forall>c \<in> set (fs_cells s ! unat row).
        style_id (frame_style_of c) \<in> fst ` set (prepared_sorted (prepare_styles indexed s)))
   \<and> (\<forall>(i, row) \<in> set (enumerate 0 (fs_updated_rows s)). \<forall>g \<in> set (sr_glyphs (fs_shaped_rows s ! unat row)).
        glyph_style_id (prepare_styles indexed s) i (fs_cells s ! unat row) g
          \<in> fst ` set (prepared_sorted (prepare_styles indexed s)))"
proof -
  let ?p = "prepare_styles indexed s"
  have keys: "map fst (prepared_sorted ?p) = sorted_list_of_fset (fmdom (prepared_definitions ?p))"
    by (simp add: prepared_sorted_def comp_def)
  then have "set (map fst (prepared_sorted ?p)) = fset (fmdom (prepared_definitions ?p))"
    by (simp add: sorted_list_of_fset.rep_eq)
  then have dom: "fst ` set (prepared_sorted ?p) = fset (fmdom (prepared_definitions ?p))" by simp
  have "sorted_wrt (<) (map fst (prepared_sorted ?p))"
    by (simp add: keys sorted_list_of_fset.rep_eq strict_sorted_iff)
  moreover have "glyph_style_id ?p i (fs_cells s ! unat row) g \<in> fset (fmdom (prepared_definitions ?p))"
    if "(i, row) \<in> set (enumerate 0 (fs_updated_rows s))"
      "g \<in> set (sr_glyphs (fs_shaped_rows s ! unat row))" for i row g
  proof -
    from that(1) have i: "i < length (fs_updated_rows s)" "row = fs_updated_rows s ! i"
      by (auto simp: in_set_enumerate_eq)
    have "glyph_style_id ?p i (fs_cells s ! unat row) g
        = glyph_style_id (prepare_styles False s) i (fs_cells s ! unat row) g"
      using glyph_style_indexed [OF i(1)] that(2) by (cases indexed) (simp_all add: i(2))
    moreover have "row \<in> set (fs_updated_rows s)" using i by simp
    ultimately show ?thesis
      using prepared_dom [of indexed s] glyph_style_cases [of _ i "fs_cells s ! unat row" g]
      by (auto simp: prepare_styles_def)
  qed
  ultimately show ?thesis using prepared_dom [of indexed s] by (auto simp: dom)
qed

lemma frame_styles_defined_witness:
  "style_id (frame_style_of (demo_cell 0 True)) \<in> fst ` set (prepared_sorted (prepare_styles True
     (demo_frame\<lparr>fs_cells := [[demo_cell 0 True]], fs_updated_rows := [0]\<rparr>)))"
proof -
  let ?s = "demo_frame\<lparr>fs_cells := [[demo_cell 0 True]], fs_updated_rows := [0]\<rparr>"
  have "0 \<in> set (fs_updated_rows ?s)" "demo_cell 0 True \<in> set (fs_cells ?s ! unat (0 :: u16))"
    by simp_all
  then show ?thesis using frame_styles_defined [of True ?s] by blast
qed

end
