(* ===== verification/Logical_Replica.thy ===== *)
theory Logical_Replica
  imports Frame_Encoder
begin

text \<open>
  The replica of a remote terminal (\<open>LogicalReplicaModel\<close> of \<open>ghosttea-core/src/replica.rs\<close>)
  and the host's construction of the patches it applies (\<open>logical_patch\<close> of
  \<open>ghosttea-truffle/src/lib.rs\<close>). The text engine is a parameter: \<open>shape\<close> takes the engine's
  state, the text and the cell spans, and returns the shaped row, if shaping succeeds, with the
  engine's next state. The frame is the encoder's. Durations of the performance snapshots are
  left out; their counters are kept.
\<close>

section \<open>Patches\<close>

fun row_replacements :: "u64 \<Rightarrow> nat \<Rightarrow> logical_row list \<Rightarrow> logical_row list \<Rightarrow> row_replacement list" where
  "row_replacements revision index (old # olds) (new # news) =
     (if old = new \<or> 65535 < index then row_replacements revision (Suc index) olds news
      else \<lparr>rr_row_index = of_nat index, rr_row_revision = revision, rr_row = new\<rparr>
             # row_replacements revision (Suc index) olds news)"
| "row_replacements revision index _ _ = []"

definition changed :: "'a \<Rightarrow> 'a \<Rightarrow> 'a option" where
  "changed previous current = (if previous \<noteq> current then Some current else None)"

definition logical_patch :: "logical_snapshot \<Rightarrow> logical_snapshot \<Rightarrow> u64 \<Rightarrow> logical_patch_rec option" where
  "logical_patch previous current patch_sequence =
     (if ss_session_epoch previous \<noteq> ss_session_epoch current
         \<or> ss_layout_epoch previous \<noteq> ss_layout_epoch current
         \<or> ss_cols previous \<noteq> ss_cols current
         \<or> length (ss_rows previous) \<noteq> length (ss_rows current)
         \<or> ss_title previous \<noteq> ss_title current
         \<or> ss_cwd previous \<noteq> ss_cwd current
         \<or> ss_terminal_revision current \<le> ss_terminal_revision previous
      then None
      else Some \<lparr>pa_session_epoch = ss_session_epoch current, pa_layout_epoch = ss_layout_epoch current,
             pa_patch_sequence = patch_sequence, pa_terminal_revision = ss_terminal_revision current,
             pa_row_replacements = row_replacements (ss_terminal_revision current) 0 (ss_rows previous) (ss_rows current),
             pa_cursor = changed (ss_cursor previous) (ss_cursor current),
             pa_mouse_tracking = changed (ss_mouse_tracking previous) (ss_mouse_tracking current),
             pa_scrollbar = changed (ss_scrollbar previous) (ss_scrollbar current)\<rparr>)"

section \<open>The render cache\<close>

record cell_text_span =
  sn_byte_start :: nat
  sn_byte_end :: nat
  sn_column :: u16
  sn_span :: u16
  sn_bold :: bool
  sn_italic :: bool

record render_cache =
  rc_rows :: "string list"
  rc_cells :: "frame_cell list list"
  rc_spans :: "cell_text_span list list"
  rc_shaped :: "shaped_row list"
  rc_sent :: "u32 fset"

definition empty_cache :: render_cache where
  "empty_cache = \<lparr>rc_rows = [], rc_cells = [], rc_spans = [], rc_shaped = [], rc_sent = {||}\<rparr>"

definition blank_shaped :: shaped_row where
  "blank_shaped = \<lparr>sr_glyphs = [], sr_definitions = []\<rparr>"

type_synonym palette = "rgb list"

text \<open>\<open>resolved_palette\<close>: Ghostty's default palette, a parameter, with the embedder's overrides.\<close>

definition resolved_palette :: "palette \<Rightarrow> (u8 \<times> rgb) list \<Rightarrow> palette" where
  "resolved_palette default_palette entries =
     fold (\<lambda>(index, color) palette. palette[unat index := color]) entries default_palette"

definition replica_color :: "bool \<Rightarrow> u8 option \<Rightarrow> rgb option \<Rightarrow> palette \<Rightarrow> rgb option" where
  "replica_color is_default index color palette =
     (if is_default then None
      else case index of Some n \<Rightarrow> Some (palette ! unat n) | None \<Rightarrow> color)"

definition replica_style :: "cell_style \<Rightarrow> palette \<Rightarrow> vt_style" where
  "replica_style s palette =
     \<lparr>vs_bold = st_bold s, vs_italic = st_italic s, vs_faint = st_faint s, vs_inverse = st_inverse s,
      vs_invisible = st_invisible s, vs_strikethrough = st_strikethrough s, vs_underline = st_underline s,
      vs_foreground = replica_color (st_foreground_default s) (st_foreground_palette s) (st_foreground s) palette,
      vs_background = replica_color (st_background_default s) (st_background_palette s) (st_background s) palette\<rparr>"

definition prepare_logical_cells :: "logical_row \<Rightarrow> palette \<Rightarrow> frame_cell list" where
  "prepare_logical_cells row palette =
     map (\<lambda>c. \<lparr>fc_column = ce_column c, fc_span = ce_span c, fc_style = replica_style (ce_style c) palette,
        fc_palette =
          \<lparr>py_foreground = (if st_foreground_default (ce_style c) then None else st_foreground_palette (ce_style c)),
           py_background = (if st_background_default (ce_style c) then None else st_background_palette (ce_style c))\<rparr>\<rparr>)
       (ro_cells row)"

text \<open>The span of a cell whose text starts at byte \<open>start\<close> of a row of \<open>len\<close> bytes.\<close>

definition text_span :: "nat \<Rightarrow> nat \<Rightarrow> logical_cell \<Rightarrow> cell_text_span" where
  "text_span len start c =
     \<lparr>sn_byte_start = start, sn_byte_end = min (start + length (ce_text c)) len,
      sn_column = ce_column c, sn_span = ce_span c,
      sn_bold = st_bold (ce_style c), sn_italic = st_italic (ce_style c)\<rparr>"

fun shape_spans_from :: "nat \<Rightarrow> nat \<Rightarrow> logical_cell list \<Rightarrow> cell_text_span list" where
  "shape_spans_from len start [] = []"
| "shape_spans_from len start (c # cs) =
     (if len \<le> start then shape_spans_from len start cs
      else text_span len start c # shape_spans_from len (min (start + length (ce_text c)) len) cs)"

definition logical_shape_spans :: "logical_row \<Rightarrow> cell_text_span list" where
  "logical_shape_spans row = shape_spans_from (length (ro_text row)) 0 (ro_cells row)"

fun spans_match_from :: "nat \<Rightarrow> nat \<Rightarrow> nat \<Rightarrow> logical_cell list \<Rightarrow> cell_text_span list \<Rightarrow> bool" where
  "spans_match_from len start i [] cached \<longleftrightarrow> i = length cached"
| "spans_match_from len start i (c # cs) cached \<longleftrightarrow>
     (if len \<le> start then i = length cached
      else if i < length cached \<and> cached ! i = text_span len start c
           then spans_match_from len (min (start + length (ce_text c)) len) (Suc i) cs cached
           else False)"

definition shape_spans_match :: "logical_row \<Rightarrow> cell_text_span list \<Rightarrow> bool" where
  "shape_spans_match row cached = spans_match_from (length (ro_text row)) 0 0 (ro_cells row) cached"

record prepared_row =
  pr_index :: nat
  pr_text :: string
  pr_cells :: "frame_cell list"
  pr_spans :: "cell_text_span list option"

definition prepare_logical_row :: "nat \<Rightarrow> logical_row \<Rightarrow> bool \<Rightarrow> palette \<Rightarrow> prepared_row" where
  "prepare_logical_row index row needs_shape palette =
     \<lparr>pr_index = index, pr_text = ro_text row, pr_cells = prepare_logical_cells row palette,
      pr_spans = (if needs_shape then Some (logical_shape_spans row) else None)\<rparr>"

definition needs_shape :: "render_cache \<Rightarrow> nat \<Rightarrow> logical_row \<Rightarrow> bool" where
  "needs_shape cache index row \<longleftrightarrow>
     rc_rows cache ! index \<noteq> ro_text row \<or> \<not> shape_spans_match row (rc_spans cache ! index)"

section \<open>The model\<close>

record 'eng replica =
  rp_engine :: 'eng
  rp_palette :: palette
  rp_session_handle :: u64
  rp_frame_sequence :: u64
  rp_latest :: "logical_snapshot option"
  rp_patch_sequence :: u64
  rp_selection :: "tracked_selection option"
  rp_cache :: render_cache
  rp_text_sequence :: u64
  rp_text_acquisitions :: u64
  rp_render_sequence :: u64

datatype replica_error =
    TooManySnapshotRows | PatchSequenceGap | PatchBeforeSnapshot | SessionEpochChanged
  | LayoutEpochChanged | StalePatch | RowRevisionMismatch | PatchRowOutside | SelectionBeforeSnapshot
  | NoSnapshotYet | RowIndexOverflow | RowCountChanged | UpdatedRowOutside | ShapingFailed | EncodeFailed frame_error

datatype terminal_effect =
    WriteToTransport bytes
  | MetadataChanged u16 u16 "string option" "string option"
  | Bell
  | ClipboardRequest bytes
  | FrameReady bytes
  | LogicalSnapshotReady logical_snapshot

type_synonym 'eng shaper = "'eng \<Rightarrow> string \<Rightarrow> cell_text_span list \<Rightarrow> shaped_row option \<times> 'eng"

definition new_replica :: "palette \<Rightarrow> 'eng \<Rightarrow> u64 \<Rightarrow> 'eng replica" where
  "new_replica default_palette engine session_handle =
     \<lparr>rp_engine = engine, rp_palette = resolved_palette default_palette [], rp_session_handle = session_handle,
      rp_frame_sequence = 0, rp_latest = None, rp_patch_sequence = 0, rp_selection = None,
      rp_cache = empty_cache, rp_text_sequence = 0, rp_text_acquisitions = 0, rp_render_sequence = 0\<rparr>"

definition record_acquisition :: "bool \<Rightarrow> 'eng replica \<Rightarrow> 'eng replica" where
  "record_acquisition acquired m =
     m\<lparr>rp_text_sequence := sat_add (rp_text_sequence m) 1, rp_text_acquisitions := of_bool acquired\<rparr>"

section \<open>Rendering\<close>

definition full_cache :: "nat \<Rightarrow> render_cache" where
  "full_cache n = \<lparr>rc_rows = replicate n [], rc_cells = replicate n [], rc_spans = replicate n [],
     rc_shaped = replicate n blank_shaped, rc_sent = {||}\<rparr>"

definition prepare_updates ::
  "logical_row list \<Rightarrow> render_cache \<Rightarrow> palette \<Rightarrow> u16 list \<Rightarrow> prepared_row list option" where
  "prepare_updates rows cache palette updated =
     collect_opt (map (\<lambda>row_index.
       if unat row_index < length rows
       then let row = rows ! unat row_index
            in Some (prepare_logical_row (unat row_index) row (needs_shape cache (unat row_index) row) palette)
       else None) updated)"

text \<open>The rows that need shaping, in order, with the engine's state handed through.\<close>

fun shape_rows ::
  "'eng shaper \<Rightarrow> 'eng \<Rightarrow> prepared_row list \<Rightarrow> (nat \<times> shaped_row) list option \<times> 'eng" where
  "shape_rows shape engine [] = (Some [], engine)"
| "shape_rows shape engine (p # ps) =
     (case pr_spans p of
        None \<Rightarrow> shape_rows shape engine ps
      | Some spans \<Rightarrow>
          (case shape engine (pr_text p) spans of
             (None, engine') \<Rightarrow> (None, engine')
           | (Some shaped, engine') \<Rightarrow>
               (case shape_rows shape engine' ps of
                  (None, engine'') \<Rightarrow> (None, engine'')
                | (Some rest, engine'') \<Rightarrow> (Some ((pr_index p, shaped) # rest), engine''))))"

definition store_prepared :: "prepared_row \<Rightarrow> render_cache \<Rightarrow> render_cache" where
  "store_prepared p cache =
     cache\<lparr>rc_rows := (rc_rows cache)[pr_index p := pr_text p],
           rc_cells := (rc_cells cache)[pr_index p := pr_cells p],
           rc_spans := (case pr_spans p of None \<Rightarrow> rc_spans cache
                        | Some spans \<Rightarrow> (rc_spans cache)[pr_index p := spans])\<rparr>"

definition store_shaped :: "nat \<times> shaped_row \<Rightarrow> render_cache \<Rightarrow> render_cache" where
  "store_shaped p cache =
     (case p of (index, shaped) \<Rightarrow> cache\<lparr>rc_shaped := (rc_shaped cache)[index := shaped]\<rparr>)"

text \<open>The glyphs of the updated rows that this catalog has not sent yet.\<close>

definition collect_glyph ::
  "glyph_definition \<Rightarrow> u32 fset \<times> (u32, glyph_definition) fmap \<Rightarrow> u32 fset \<times> (u32, glyph_definition) fmap" where
  "collect_glyph d acc =
     (case acc of (sent, definitions) \<Rightarrow>
        if gd_id d |\<in>| sent then acc
        else (finsert (gd_id d) sent,
              case fmlookup definitions (gd_id d) of
                None \<Rightarrow> fmupd (gd_id d) d definitions | Some _ \<Rightarrow> definitions))"

definition collect_glyphs ::
  "shaped_row list \<Rightarrow> u16 list \<Rightarrow> u32 fset \<Rightarrow> u32 fset \<times> (u32, glyph_definition) fmap" where
  "collect_glyphs shaped updated sent =
     fold (\<lambda>row_index. fold collect_glyph (sr_definitions (shaped ! unat row_index))) updated (sent, fmempty)"

definition map_values :: "(u32, 'v) fmap \<Rightarrow> 'v list" where
  "map_values m = map (\<lambda>k. the (fmlookup m k)) (sorted_list_of_fset (fmdom m))"

definition replica_frame ::
  "'eng replica \<Rightarrow> render_cache \<Rightarrow> logical_snapshot \<Rightarrow> u16 list \<Rightarrow> bool \<Rightarrow> glyph_definition list
     \<Rightarrow> frame_cell frame_snapshot" where
  "replica_frame m cache snapshot updated full definitions =
     \<lparr>fs_session_handle = rp_session_handle m, fs_session_epoch = ss_session_epoch snapshot,
      fs_layout_epoch = ss_layout_epoch snapshot, fs_sequence = rp_frame_sequence m,
      fs_revision = ss_terminal_revision snapshot, fs_cols = ss_cols snapshot,
      fs_rows = rc_rows cache, fs_shaped_rows = rc_shaped cache, fs_cells = rc_cells cache,
      fs_updated_rows = updated, fs_full_snapshot = full, fs_catalog_reset = full,
      fs_mouse_tracking = ss_mouse_tracking snapshot, fs_scrollbar = ss_scrollbar snapshot,
      fs_selection = rp_selection m, fs_new_glyphs = definitions, fs_clipboard = None,
      fs_cursor = ss_cursor snapshot, fs_links = None\<rparr>"

definition frame_result :: "frame_error + bytes \<Rightarrow> replica_error + bytes" where
  "frame_result r = (case r of Inl e \<Rightarrow> Inl (EncodeFailed e) | Inr bs \<Rightarrow> Inr bs)"

text \<open>The part of \<open>render\<close> after shaping: the cache is written, then the frame is encoded.\<close>

definition render_prepared ::
  "'eng replica \<Rightarrow> render_cache \<Rightarrow> prepared_row list \<Rightarrow> (nat \<times> shaped_row) list \<Rightarrow> logical_snapshot
     \<Rightarrow> u16 list \<Rightarrow> bool \<Rightarrow> (replica_error + bytes) \<times> 'eng replica" where
  "render_prepared m cache prepared shaped snapshot updated full =
     (let cache = fold store_shaped shaped (fold store_prepared prepared cache);
          (sent, definitions) = collect_glyphs (rc_shaped cache) updated (rc_sent cache);
          cache = cache\<lparr>rc_sent := sent\<rparr>;
          m = m\<lparr>rp_cache := cache, rp_frame_sequence := sat_add (rp_frame_sequence m) 1\<rparr>;
          frame = encode_frame (replica_frame m cache snapshot updated full (map_values definitions))
      in (frame_result frame, m\<lparr>rp_render_sequence := sat_add (rp_render_sequence m) 1\<rparr>))"

definition render ::
  "'eng shaper \<Rightarrow> 'eng replica \<Rightarrow> logical_snapshot \<Rightarrow> u16 list \<Rightarrow> bool \<Rightarrow> (replica_error + bytes) \<times> 'eng replica" where
  "render shape m snapshot updated full =
     (let n = length (ss_rows snapshot);
          cache = (if full then full_cache n else rp_cache m);
          m = m\<lparr>rp_cache := cache\<rparr>
      in if \<not> full \<and> length (rc_rows cache) \<noteq> n then (Inl RowCountChanged, m)
         else case prepare_updates (ss_rows snapshot) cache (rp_palette m) updated of
           None \<Rightarrow> (Inl UpdatedRowOutside, m)
         | Some prepared \<Rightarrow>
             let acquired = list_ex (\<lambda>p. pr_spans p \<noteq> None) prepared
             in (case shape_rows shape (rp_engine m) prepared of
                   (None, engine) \<Rightarrow> (Inl ShapingFailed, m\<lparr>rp_engine := engine\<rparr>)
                 | (Some shaped, engine) \<Rightarrow>
                     render_prepared (record_acquisition acquired (m\<lparr>rp_engine := engine\<rparr>))
                       cache prepared shaped snapshot updated full))"

definition all_rows :: "logical_snapshot \<Rightarrow> u16 list" where
  "all_rows snapshot = map of_nat [0..<length (ss_rows snapshot)]"

definition render_palette_frame ::
  "'eng replica \<Rightarrow> logical_snapshot \<Rightarrow> (replica_error + bytes) \<times> 'eng replica" where
  "render_palette_frame m snapshot =
     (if length (rc_cells (rp_cache m)) \<noteq> length (ss_rows snapshot) then (Inl RowCountChanged, m)
      else if 65536 < length (ss_rows snapshot) then (Inl RowIndexOverflow, m)
      else let cells = map (\<lambda>row. prepare_logical_cells row (rp_palette m)) (ss_rows snapshot);
               updated = all_rows snapshot;
               cache = (rp_cache m)\<lparr>rc_cells := cells\<rparr>;
               m' = (record_acquisition False m)
                      \<lparr>rp_cache := cache, rp_frame_sequence := sat_add (rp_frame_sequence m) 1\<rparr>
           in (case encode_frame (replica_frame m' cache snapshot updated False []) of
                 Inl e \<Rightarrow> (Inl (EncodeFailed e), m)
               | Inr frame \<Rightarrow>
                   (Inr frame, m'\<lparr>rp_render_sequence := sat_add (rp_render_sequence m') 1\<rparr>)))"

section \<open>Operations\<close>

definition frame_update :: "replica_error + bytes \<Rightarrow> replica_error + terminal_effect list" where
  "frame_update r = bind_res r (\<lambda>frame. Inr [FrameReady frame])"

definition publish_snapshot ::
  "'eng shaper \<Rightarrow> 'eng replica \<Rightarrow> logical_snapshot \<Rightarrow> (replica_error + terminal_effect list) \<times> 'eng replica" where
  "publish_snapshot shape m snapshot =
     (if 65535 < length (ss_rows snapshot) then (Inl TooManySnapshotRows, m)
      else case render shape m snapshot (all_rows snapshot) True of
        (Inl e, m') \<Rightarrow> (Inl e, m')
      | (Inr frame, m') \<Rightarrow> (Inr [FrameReady frame], m'\<lparr>rp_latest := Some snapshot, rp_patch_sequence := 0\<rparr>))"

fun check_replacements :: "logical_patch_rec \<Rightarrow> logical_snapshot \<Rightarrow> row_replacement list \<Rightarrow> replica_error option" where
  "check_replacements patch current [] = None"
| "check_replacements patch current (r # rs) =
     (if rr_row_revision r \<noteq> pa_terminal_revision patch then Some RowRevisionMismatch
      else if length (ss_rows current) \<le> unat (rr_row_index r) then Some PatchRowOutside
      else check_replacements patch current rs)"

text \<open>\<open>mem::swap\<close> of a snapshot row with the row of a replacement.\<close>

definition swap_row :: "row_replacement \<Rightarrow> logical_row list \<Rightarrow> row_replacement \<times> logical_row list" where
  "swap_row r rows =
     (r\<lparr>rr_row := rows ! unat (rr_row_index r)\<rparr>, rows[unat (rr_row_index r) := rr_row r])"

fun swap_rows :: "row_replacement list \<Rightarrow> logical_row list \<Rightarrow> row_replacement list \<times> logical_row list" where
  "swap_rows [] rows = ([], rows)"
| "swap_rows (r # rs) rows =
     (let (r', rows') = swap_row r rows; (rs', rows'') = swap_rows rs rows' in (r' # rs', rows''))"

definition option_or :: "'a option \<Rightarrow> 'a \<Rightarrow> 'a" where
  "option_or x d = (case x of Some v \<Rightarrow> v | None \<Rightarrow> d)"

definition patch_guard :: "'eng replica \<Rightarrow> logical_patch_rec \<Rightarrow> replica_error + logical_snapshot" where
  "patch_guard m patch =
     (if pa_patch_sequence patch \<noteq> sat_add (rp_patch_sequence m) 1 then Inl PatchSequenceGap
      else case rp_latest m of
        None \<Rightarrow> Inl PatchBeforeSnapshot
      | Some current \<Rightarrow>
          if pa_session_epoch patch \<noteq> ss_session_epoch current then Inl SessionEpochChanged
          else if pa_layout_epoch patch \<noteq> ss_layout_epoch current then Inl LayoutEpochChanged
          else if \<not> ss_terminal_revision current < pa_terminal_revision patch then Inl StalePatch
          else case check_replacements patch current (pa_row_replacements patch) of
            Some e \<Rightarrow> Inl e | None \<Rightarrow> Inr current)"

definition publish_patch ::
  "'eng shaper \<Rightarrow> 'eng replica \<Rightarrow> logical_patch_rec \<Rightarrow> (replica_error + terminal_effect list) \<times> 'eng replica" where
  "publish_patch shape m patch =
     (case patch_guard m patch of
        Inl e \<Rightarrow> (Inl e, m)
      | Inr previous \<Rightarrow>
          let updated = map rr_row_index (pa_row_replacements patch);
              (displaced, rows) = swap_rows (pa_row_replacements patch) (ss_rows previous);
              snapshot = previous\<lparr>ss_rows := rows,
                ss_cursor := option_or (pa_cursor patch) (ss_cursor previous),
                ss_mouse_tracking := option_or (pa_mouse_tracking patch) (ss_mouse_tracking previous),
                ss_scrollbar := option_or (pa_scrollbar patch) (ss_scrollbar previous),
                ss_terminal_revision := pa_terminal_revision patch\<rparr>
          in (case render shape (m\<lparr>rp_latest := None\<rparr>) snapshot updated False of
                (Inr frame, m') \<Rightarrow>
                  (Inr [FrameReady frame],
                   m'\<lparr>rp_latest := Some snapshot, rp_patch_sequence := pa_patch_sequence patch\<rparr>)
              | (Inl e, m') \<Rightarrow>
                  (Inl e, m'\<lparr>rp_latest := Some (snapshot\<lparr>
                     ss_rows := snd (swap_rows (rev displaced) rows),
                     ss_terminal_revision := ss_terminal_revision previous,
                     ss_cursor := ss_cursor previous, ss_mouse_tracking := ss_mouse_tracking previous,
                     ss_scrollbar := ss_scrollbar previous\<rparr>)\<rparr>)))"

definition publish_selection ::
  "'eng shaper \<Rightarrow> 'eng replica \<Rightarrow> tracked_selection option
     \<Rightarrow> (replica_error + terminal_effect list) \<times> 'eng replica" where
  "publish_selection shape m selection =
     (case rp_latest m of
        None \<Rightarrow> (Inl SelectionBeforeSnapshot, m)
      | Some snapshot \<Rightarrow>
          (case render shape (m\<lparr>rp_selection := selection\<rparr>) snapshot [] False of
             (Inr frame, m') \<Rightarrow> (Inr [FrameReady frame], m')
           | (Inl e, m') \<Rightarrow> (Inl e, m'\<lparr>rp_selection := rp_selection m\<rparr>)))"

definition refresh ::
  "'eng shaper \<Rightarrow> 'eng replica \<Rightarrow> (replica_error + terminal_effect list) \<times> 'eng replica" where
  "refresh shape m =
     (case rp_latest m of None \<Rightarrow> (Inl NoSnapshotYet, m) | Some snapshot \<Rightarrow> publish_snapshot shape m snapshot)"

definition reconfigure_palette ::
  "palette \<Rightarrow> 'eng replica \<Rightarrow> (u8 \<times> rgb) list \<Rightarrow> (replica_error + terminal_effect list) \<times> 'eng replica" where
  "reconfigure_palette default_palette m entries =
     (let next_palette = resolved_palette default_palette entries
      in if rp_palette m = next_palette then (Inr [], m)
         else case rp_latest m of
           None \<Rightarrow> (Inr [], m\<lparr>rp_palette := next_palette\<rparr>)
         | Some snapshot \<Rightarrow>
             (case render_palette_frame (m\<lparr>rp_latest := None, rp_palette := next_palette\<rparr>) snapshot of
                (Inr frame, m') \<Rightarrow> (Inr [FrameReady frame], m'\<lparr>rp_latest := Some snapshot\<rparr>)
              | (Inl e, m') \<Rightarrow> (Inl e, m'\<lparr>rp_palette := rp_palette m, rp_latest := Some snapshot\<rparr>)))"

definition reconfigure_runtime ::
  "palette \<Rightarrow> 'eng shaper \<Rightarrow> 'eng replica \<Rightarrow> 'eng \<Rightarrow> (u8 \<times> rgb) list
     \<Rightarrow> (replica_error + terminal_effect list) \<times> 'eng replica" where
  "reconfigure_runtime default_palette shape m engine entries =
     (let palette = resolved_palette default_palette entries
      in case rp_latest m of
           None \<Rightarrow> (Inr [], m\<lparr>rp_engine := engine, rp_palette := palette\<rparr>)
         | Some snapshot \<Rightarrow>
             let candidate = (new_replica default_palette engine (rp_session_handle m))
                   \<lparr>rp_palette := palette, rp_frame_sequence := rp_frame_sequence m,
                    rp_patch_sequence := rp_patch_sequence m, rp_selection := rp_selection m,
                    rp_text_sequence := rp_text_sequence m, rp_text_acquisitions := rp_text_acquisitions m,
                    rp_render_sequence := rp_render_sequence m\<rparr>
             in (case render shape candidate snapshot (all_rows snapshot) True of
                   (Inr frame, candidate') \<Rightarrow> (Inr [FrameReady frame], candidate'\<lparr>rp_latest := Some snapshot\<rparr>)
                 | (Inl e, _) \<Rightarrow> (Inl e, m)))"

section \<open>The host's stream and the viewer's loop\<close>

text \<open>
  The snapshot arm of a state stream: a patch against what was last sent where one exists, the
  whole snapshot otherwise. The compact stream repairs a lagged subscription with a snapshot.
\<close>

record host_stream =
  hs_previous :: "logical_snapshot option"
  hs_patch_sequence :: u64

definition new_host_stream :: host_stream where
  "new_host_stream = \<lparr>hs_previous = None, hs_patch_sequence = 0\<rparr>"

definition send_snapshot ::
  "host_stream \<Rightarrow> logical_snapshot \<Rightarrow> ('act, 'pres) state_message \<times> host_stream" where
  "send_snapshot h snapshot =
     (let next_sequence = sat_add (hs_patch_sequence h) 1
      in case Option.bind (hs_previous h) (\<lambda>previous. logical_patch previous snapshot next_sequence) of
        Some patch \<Rightarrow> (Patch patch, \<lparr>hs_previous = Some snapshot, hs_patch_sequence = next_sequence\<rparr>)
      | None \<Rightarrow> (Snapshot snapshot, \<lparr>hs_previous = Some snapshot, hs_patch_sequence = 0\<rparr>))"

definition resend_snapshot ::
  "host_stream \<Rightarrow> logical_snapshot \<Rightarrow> ('act, 'pres) state_message \<times> host_stream" where
  "resend_snapshot h snapshot =
     (Snapshot snapshot, \<lparr>hs_previous = Some snapshot, hs_patch_sequence = 0\<rparr>)"

text \<open>
  The arms of the viewer's loop that reach the replica; an error ends the loop. The desktop
  viewer ignores the host's selection.
\<close>

fun receive_state ::
  "'eng shaper \<Rightarrow> 'eng replica \<Rightarrow> ('act, 'pres) state_message
     \<Rightarrow> (replica_error + terminal_effect list) \<times> 'eng replica" where
  "receive_state shape m (Snapshot snapshot) = publish_snapshot shape m snapshot"
| "receive_state shape m (Patch patch) = publish_patch shape m patch"
| "receive_state shape m _ = (Inr [], m)"

end
