(* ===== verification/Replica_Facts.thy ===== *)
theory Replica_Facts
  imports Logical_Replica
begin

text \<open>
  Facts about the replica: the check that avoids reshaping is exact, swapping rows in and out
  restores them, a patch rebuilds the host's rows, and what a render keeps of the model and of
  the cache.
\<close>

section \<open>Spans\<close>

lemma shape_spans_past_end: "len \<le> start \<Longrightarrow> shape_spans_from len start cs = []"
  by (induction cs) simp_all

lemma spans_match_from_drop:
  "i \<le> length cached \<Longrightarrow> spans_match_from len start i cs cached \<longleftrightarrow> drop i cached = shape_spans_from len start cs"
proof (induction cs arbitrary: start i)
  case Nil
  then show ?case by auto
next
  case (Cons c cs)
  show ?case
  proof (cases "len \<le> start")
    case True
    with Cons.prems show ?thesis by (auto simp: shape_spans_past_end)
  next
    case False
    show ?thesis
    proof (cases "i < length cached")
      case True
      then have "drop i cached = cached ! i # drop (Suc i) cached" by (rule Cons_nth_drop_Suc [symmetric])
      with False True Cons.IH [of "Suc i"] show ?thesis by auto
    qed (use False Cons.prems in auto)
  qed
qed

lemma shape_spans_match_iff: "shape_spans_match row cached \<longleftrightarrow> cached = logical_shape_spans row"
  by (simp add: shape_spans_match_def logical_shape_spans_def spans_match_from_drop)

section \<open>Swapping rows\<close>

lemma swap_rows_append:
  "swap_rows (xs @ ys) rows =
     (let (xs', rows') = swap_rows xs rows; (ys', rows'') = swap_rows ys rows' in (xs' @ ys', rows''))"
  by (induction xs arbitrary: rows) (simp_all add: case_prod_beta Let_def)

lemma length_swap_rows [simp]:
  "length (snd (swap_rows rs rows)) = length rows" "length (fst (swap_rows rs rows)) = length rs"
  by (induction rs arbitrary: rows) (simp_all add: swap_row_def case_prod_beta Let_def)

lemma swap_rows_restore:
  "\<forall>r \<in> set rs. unat (rr_row_index r) < length rows \<Longrightarrow>
     snd (swap_rows (rev (fst (swap_rows rs rows))) (snd (swap_rows rs rows))) = rows"
proof (induction rs arbitrary: rows)
  case Nil
  then show ?case by simp
next
  case (Cons r rs)
  let ?rows = "rows[unat (rr_row_index r) := rr_row r]"
  have "snd (swap_rows (rev (fst (swap_rows rs ?rows))) (snd (swap_rows rs ?rows))) = ?rows"
    by (rule Cons.IH) (use Cons.prems in simp)
  with Cons.prems show ?case
    by (simp add: swap_rows_append swap_row_def case_prod_beta Let_def)
qed

lemma swap_rows_untouched:
  "\<forall>r \<in> set rs. unat (rr_row_index r) \<noteq> i \<Longrightarrow> snd (swap_rows rs rows) ! i = rows ! i"
  by (induction rs arbitrary: rows) (auto simp: swap_row_def case_prod_beta Let_def)

section \<open>Patches\<close>

lemma row_replacements_in_range:
  "r \<in> set (row_replacements revision n olds news) \<Longrightarrow> length olds = length news \<Longrightarrow>
     rr_row_revision r = revision \<and> n \<le> unat (rr_row_index r) \<and> unat (rr_row_index r) < n + length olds"
proof (induction revision n olds news rule: row_replacements.induct)
  case (1 revision index old olds new news)
  have "unat (of_nat index :: u16) = index" if "index \<le> 65535"
    using that by (simp add: unat_of_nat)
  with 1 show ?case by (auto split: if_splits)
qed simp_all

lemma swap_row_replacements:
  "length olds = length news \<Longrightarrow> length pre = n \<Longrightarrow> n + length olds \<le> 65536 \<Longrightarrow>
     snd (swap_rows (row_replacements revision n olds news) (pre @ olds)) = pre @ news"
proof (induction revision n olds news arbitrary: pre rule: row_replacements.induct)
  case (1 revision index old olds new news)
  then have le: "index \<le> 65535" by simp
  then have idx: "unat (of_nat index :: u16) = index" by (simp add: unat_of_nat)
  have step: "length olds = length news" "length (pre @ [new]) = Suc index" "Suc index + length olds \<le> 65536"
    using 1(3-5) by simp_all
  have next_row: "snd (swap_rows (row_replacements revision (Suc index) olds news) ((pre @ [new]) @ olds))
      = (pre @ [new]) @ news"
    using 1(1) [OF _ step] 1(2) [OF _ step] le by (cases "old = new") simp_all
  show ?case
  proof (cases "old = new")
    case True
    with le next_row show ?thesis by simp
  next
    case False
    with le idx next_row 1(4) show ?thesis
      by (simp add: swap_row_def case_prod_beta Let_def list_update_append)
  qed
qed simp_all

lemma option_or_changed [simp]: "option_or (changed a b) a = b"
  by (simp add: option_or_def changed_def)

lemma check_replacements_ok:
  "check_replacements patch current rs = None \<longleftrightarrow>
     (\<forall>r \<in> set rs. rr_row_revision r = pa_terminal_revision patch
        \<and> unat (rr_row_index r) < length (ss_rows current))"
  by (induction rs) (auto simp: not_le)

text \<open>The snapshot a patch turns another into, as \<open>publish_patch\<close> builds it.\<close>

definition apply_patch :: "logical_patch_rec \<Rightarrow> logical_snapshot \<Rightarrow> logical_snapshot" where
  "apply_patch patch s = s\<lparr>ss_rows := snd (swap_rows (pa_row_replacements patch) (ss_rows s)),
     ss_cursor := option_or (pa_cursor patch) (ss_cursor s),
     ss_mouse_tracking := option_or (pa_mouse_tracking patch) (ss_mouse_tracking s),
     ss_scrollbar := option_or (pa_scrollbar patch) (ss_scrollbar s),
     ss_terminal_revision := pa_terminal_revision patch\<rparr>"

lemma logical_patch_rebuilds:
  assumes "logical_patch previous current seq = Some patch" and "length (ss_rows previous) \<le> 65536"
  shows "apply_patch patch previous = current"
proof -
  have "snd (swap_rows (row_replacements r 0 (ss_rows previous) (ss_rows current)) (ss_rows previous))
      = ss_rows current"
    if "length (ss_rows previous) = length (ss_rows current)" for r
    using swap_row_replacements [of "ss_rows previous" "ss_rows current" "[]" 0] that assms(2) by simp
  then show ?thesis
    using assms(1) by (cases current) (auto simp: apply_patch_def logical_patch_def split: if_splits)
qed

lemma logical_patch_guarded:
  assumes "logical_patch previous current (sat_add (rp_patch_sequence m) 1) = Some patch"
    and "rp_latest m = Some previous"
  shows "patch_guard m patch = Inr previous"
proof -
  have "check_replacements patch previous (pa_row_replacements patch) = None"
    unfolding check_replacements_ok using assms(1)
    by (auto simp: logical_patch_def split: if_splits)
      (auto dest!: row_replacements_in_range)
  with assms show ?thesis
    by (auto simp: patch_guard_def logical_patch_def not_le split: if_splits)
qed

section \<open>What a render keeps\<close>

definition same_terminal :: "'eng replica \<Rightarrow> 'eng replica \<Rightarrow> bool" where
  "same_terminal m m' \<longleftrightarrow> rp_latest m' = rp_latest m \<and> rp_patch_sequence m' = rp_patch_sequence m
     \<and> rp_selection m' = rp_selection m \<and> rp_palette m' = rp_palette m
     \<and> rp_session_handle m' = rp_session_handle m"

lemma render_prepared_same:
  "render_prepared m cache prepared shaped snapshot updated full = (r, m') \<Longrightarrow> same_terminal m m'"
  by (auto simp: render_prepared_def same_terminal_def case_prod_beta Let_def)

lemma record_acquisition_fields [simp]:
  "rp_latest (record_acquisition a m) = rp_latest m" "rp_patch_sequence (record_acquisition a m) = rp_patch_sequence m"
  "rp_selection (record_acquisition a m) = rp_selection m" "rp_palette (record_acquisition a m) = rp_palette m"
  "rp_session_handle (record_acquisition a m) = rp_session_handle m" "rp_cache (record_acquisition a m) = rp_cache m"
  "rp_frame_sequence (record_acquisition a m) = rp_frame_sequence m" "rp_engine (record_acquisition a m) = rp_engine m"
  by (simp_all add: record_acquisition_def)

lemma render_same: "render shape m snapshot updated full = (r, m') \<Longrightarrow> same_terminal m m'"
  by (auto simp: render_def same_terminal_def Let_def dest!: render_prepared_same
      split: if_splits option.splits prod.splits)

text \<open>The errors a render of rows inside the snapshot can have.\<close>

definition render_failure :: "replica_error \<Rightarrow> bool" where
  "render_failure e \<longleftrightarrow> e = ShapingFailed \<or> (\<exists>f. e = EncodeFailed f)"

lemma prepare_updates_Some:
  "prepare_updates rows cache palette updated = Some prepared \<longleftrightarrow>
     (\<forall>row \<in> set updated. unat row < length rows)
     \<and> prepared = map (\<lambda>row. prepare_logical_row (unat row) (rows ! unat row)
          (needs_shape cache (unat row) (rows ! unat row)) palette) updated"
  unfolding prepare_updates_def collect_opt_Some Let_def
  by (induction updated arbitrary: prepared) auto

lemma prepare_updates_None:
  "prepare_updates rows cache palette updated = None \<longleftrightarrow> \<not> (\<forall>row \<in> set updated. unat row < length rows)"
  by (cases "\<forall>row \<in> set updated. unat row < length rows"; cases "prepare_updates rows cache palette updated")
    (simp_all only: prepare_updates_Some, simp_all add: prepare_updates_Some [THEN iffD2])

lemma render_error:
  assumes "render shape m snapshot updated full = (Inl e, m')"
    and "full \<or> length (rc_rows (rp_cache m)) = length (ss_rows snapshot)"
    and "\<forall>row \<in> set updated. unat row < length (ss_rows snapshot)"
  shows "render_failure e"
proof -
  have "\<exists>prepared. prepare_updates (ss_rows snapshot) cache palette updated = Some prepared" for cache palette
    using assms(3) by (simp add: prepare_updates_Some)
  with assms(1,2) show ?thesis
    by (auto simp: render_def render_failure_def render_prepared_def frame_result_def case_prod_beta Let_def
        split: if_splits option.splits prod.splits sum.splits) (metis option.distinct(1))+
qed

section \<open>Publishing a patch\<close>

lemma patch_guard_ok:
  assumes "patch_guard m patch = Inr previous"
  shows "rp_latest m = Some previous" and "pa_patch_sequence patch = sat_add (rp_patch_sequence m) 1"
    and "\<forall>r \<in> set (pa_row_replacements patch). unat (rr_row_index r) < length (ss_rows previous)"
    and "ss_terminal_revision previous < pa_terminal_revision patch"
  using assms by (auto simp: patch_guard_def check_replacements_ok split: if_splits option.splits)

lemma publish_patch_unfold:
  "publish_patch shape m patch =
     (case patch_guard m patch of
        Inl e \<Rightarrow> (Inl e, m)
      | Inr previous \<Rightarrow>
          (case render shape (m\<lparr>rp_latest := None\<rparr>) (apply_patch patch previous)
                  (map rr_row_index (pa_row_replacements patch)) False of
             (Inr frame, m') \<Rightarrow>
               (Inr [FrameReady frame],
                m'\<lparr>rp_latest := Some (apply_patch patch previous), rp_patch_sequence := pa_patch_sequence patch\<rparr>)
           | (Inl e, m') \<Rightarrow> (Inl e, m'\<lparr>rp_latest := Some previous\<rparr>)))"
proof (cases "patch_guard m patch")
  case (Inr previous)
  have "snd (swap_rows (rev (fst (swap_rows (pa_row_replacements patch) (ss_rows previous))))
      (snd (swap_rows (pa_row_replacements patch) (ss_rows previous)))) = ss_rows previous"
    by (rule swap_rows_restore) (use patch_guard_ok(3) [OF Inr] in simp)
  then show ?thesis
    by (simp add: publish_patch_def Inr apply_patch_def case_prod_beta Let_def split: prod.splits sum.splits)
qed (simp add: publish_patch_def)

section \<open>Coherence of the cache\<close>

definition cache_square :: "render_cache \<Rightarrow> bool" where
  "cache_square c \<longleftrightarrow> length (rc_cells c) = length (rc_rows c) \<and> length (rc_spans c) = length (rc_rows c)
     \<and> length (rc_shaped c) = length (rc_rows c)"

text \<open>A shaped row comes from the engine, for some state of it, or is blank for a blank row.\<close>

definition row_shaped :: "'eng shaper \<Rightarrow> string \<Rightarrow> cell_text_span list \<Rightarrow> shaped_row \<Rightarrow> bool" where
  "row_shaped shape txt spans shaped \<longleftrightarrow>
     txt = [] \<and> spans = [] \<and> shaped = blank_shaped \<or> (\<exists>engine. fst (shape engine txt spans) = Some shaped)"

definition shapes_valid :: "'eng shaper \<Rightarrow> render_cache \<Rightarrow> bool" where
  "shapes_valid shape c \<longleftrightarrow>
     (\<forall>i < length (rc_rows c). row_shaped shape (rc_rows c ! i) (rc_spans c ! i) (rc_shaped c ! i))"

definition cached_row :: "palette \<Rightarrow> logical_row \<Rightarrow> render_cache \<Rightarrow> nat \<Rightarrow> bool" where
  "cached_row palette row c i \<longleftrightarrow> rc_rows c ! i = ro_text row
     \<and> rc_cells c ! i = prepare_logical_cells row palette \<and> rc_spans c ! i = logical_shape_spans row"

definition cache_for :: "'eng shaper \<Rightarrow> palette \<Rightarrow> logical_row list \<Rightarrow> render_cache \<Rightarrow> bool" where
  "cache_for shape palette rows c \<longleftrightarrow> cache_square c \<and> length (rc_rows c) = length rows
     \<and> shapes_valid shape c \<and> (\<forall>i < length rows. cached_row palette (rows ! i) c i)"

lemma fold_list_update:
  "i < length ys \<Longrightarrow> fold (\<lambda>x ys. case v x of None \<Rightarrow> ys | Some c \<Rightarrow> ys[k x := c]) xs ys ! i \<in>
     (if \<exists>x \<in> set xs. k x = i \<and> v x \<noteq> None then {c. \<exists>x \<in> set xs. k x = i \<and> v x = Some c} else {ys ! i})"
proof (induction xs rule: rev_induct)
  case Nil
  then show ?case by simp
next
  case (snoc x xs)
  have len: "length (fold (\<lambda>x ys. case v x of None \<Rightarrow> ys | Some c \<Rightarrow> ys[k x := c]) xs ys) = length ys" for xs
    by (induction xs arbitrary: ys) (auto split: option.splits)
  show ?case
  proof (cases "v x")
    case None
    with snoc show ?thesis by (auto split: if_splits)
  next
    case (Some c)
    define zs where "zs = fold (\<lambda>x ys. case v x of None \<Rightarrow> ys | Some c \<Rightarrow> ys[k x := c]) xs ys"
    have "i < length zs" using snoc.prems by (simp add: zs_def len)
    with snoc Some show ?thesis
      unfolding fold_append comp_def by (cases "k x = i") (auto simp: zs_def [symmetric] split: if_splits)
  qed
qed

lemma store_prepared_fields:
  "rc_rows (fold store_prepared ps c) =
     fold (\<lambda>p xs. case Some (pr_text p) of None \<Rightarrow> xs | Some v \<Rightarrow> xs[pr_index p := v]) ps (rc_rows c)"
  "rc_cells (fold store_prepared ps c) =
     fold (\<lambda>p xs. case Some (pr_cells p) of None \<Rightarrow> xs | Some v \<Rightarrow> xs[pr_index p := v]) ps (rc_cells c)"
  "rc_spans (fold store_prepared ps c) =
     fold (\<lambda>p xs. case pr_spans p of None \<Rightarrow> xs | Some v \<Rightarrow> xs[pr_index p := v]) ps (rc_spans c)"
  "rc_shaped (fold store_prepared ps c) = rc_shaped c" "rc_sent (fold store_prepared ps c) = rc_sent c"
  by (induction ps arbitrary: c) (simp_all add: store_prepared_def)

lemma store_shaped_fields:
  "rc_rows (fold store_shaped out c) = rc_rows c" "rc_cells (fold store_shaped out c) = rc_cells c"
  "rc_spans (fold store_shaped out c) = rc_spans c" "rc_sent (fold store_shaped out c) = rc_sent c"
  "rc_shaped (fold store_shaped out c) =
     fold (\<lambda>p xs. case Some (snd p) of None \<Rightarrow> xs | Some v \<Rightarrow> xs[fst p := v]) out (rc_shaped c)"
  by (induction out arbitrary: c) (simp_all add: store_shaped_def case_prod_beta)

lemma cache_square_store:
  "cache_square (fold store_prepared ps c) \<longleftrightarrow> cache_square c"
  "length (rc_rows (fold store_prepared ps c)) = length (rc_rows c)"
  "cache_square (fold store_shaped out c) \<longleftrightarrow> cache_square c"
  "length (rc_rows (fold store_shaped out c)) = length (rc_rows c)"
  subgoal by (induction ps arbitrary: c) (auto simp: store_prepared_def cache_square_def split: option.splits)
  subgoal by (induction ps arbitrary: c) (auto simp: store_prepared_def)
  subgoal by (induction out arbitrary: c) (auto simp: store_shaped_def cache_square_def split: prod.splits)
  subgoal by (induction out arbitrary: c) (auto simp: store_shaped_def split: prod.splits)
  done

lemma shape_rows_out:
  "shape_rows shape engine ps = (Some out, engine') \<Longrightarrow>
     (\<forall>(i, shaped) \<in> set out. \<exists>p \<in> set ps. pr_index p = i
        \<and> (\<exists>spans engine. pr_spans p = Some spans \<and> fst (shape engine (pr_text p) spans) = Some shaped))
     \<and> (\<forall>p \<in> set ps. pr_spans p \<noteq> None \<longrightarrow> (\<exists>shaped. (pr_index p, shaped) \<in> set out))"
proof (induction shape engine ps arbitrary: out engine' rule: shape_rows.induct)
  case (1 shape engine)
  then show ?case by simp
next
  case (2 shape engine p ps)
  show ?case
  proof (cases "pr_spans p")
    case None
    with 2 show ?thesis by fastforce
  next
    case (Some spans)
    with 2(3) obtain shaped engine1 rest where step: "shape engine (pr_text p) spans = (Some shaped, engine1)"
      "shape_rows shape engine1 ps = (Some rest, engine')" "out = (pr_index p, shaped) # rest"
      by (auto split: prod.splits option.splits)
    have head: "fst (shape engine (pr_text p) spans) = Some shaped" by (simp add: step(1))
    from 2(2) [OF Some step(1) [symmetric] refl step(2)] Some head show ?thesis
      unfolding step(3) by fastforce
  qed
qed

text \<open>The cache after storing, at an index that was written and at one that was not.\<close>

abbreviation stored :: "(nat \<times> shaped_row) list \<Rightarrow> prepared_row list \<Rightarrow> render_cache \<Rightarrow> render_cache" where
  "stored out ps c \<equiv> fold store_shaped out (fold store_prepared ps c)"

lemma stored_hit:
  assumes "cache_square c" and "i < length (rc_rows c)"
  shows "\<exists>p \<in> set ps. pr_index p = i \<Longrightarrow> \<exists>p \<in> set ps. pr_index p = i \<and> rc_rows (stored out ps c) ! i = pr_text p"
    and "\<exists>p \<in> set ps. pr_index p = i \<Longrightarrow> \<exists>p \<in> set ps. pr_index p = i \<and> rc_cells (stored out ps c) ! i = pr_cells p"
    and "\<exists>p \<in> set ps. pr_index p = i \<and> pr_spans p \<noteq> None \<Longrightarrow>
      \<exists>p \<in> set ps. pr_index p = i \<and> pr_spans p = Some (rc_spans (stored out ps c) ! i)"
    and "\<exists>q \<in> set out. fst q = i \<Longrightarrow> (i, rc_shaped (stored out ps c) ! i) \<in> set out"
proof -
  have lens: "i < length (rc_cells c)" "i < length (rc_spans c)" "i < length (rc_shaped c)"
    using assms by (simp_all add: cache_square_def)
  note unfold = store_shaped_fields store_prepared_fields
  show "\<exists>p \<in> set ps. pr_index p = i \<and> rc_rows (stored out ps c) ! i = pr_text p" if "\<exists>p \<in> set ps. pr_index p = i"
    using fold_list_update [OF assms(2), where v = "\<lambda>p. Some (pr_text p)" and k = pr_index and xs = ps] that
    unfolding unfold by auto
  show "\<exists>p \<in> set ps. pr_index p = i \<and> rc_cells (stored out ps c) ! i = pr_cells p" if "\<exists>p \<in> set ps. pr_index p = i"
    using fold_list_update [OF lens(1), where v = "\<lambda>p. Some (pr_cells p)" and k = pr_index and xs = ps] that
    unfolding unfold by auto
  show "\<exists>p \<in> set ps. pr_index p = i \<and> pr_spans p = Some (rc_spans (stored out ps c) ! i)"
    if "\<exists>p \<in> set ps. pr_index p = i \<and> pr_spans p \<noteq> None"
    using fold_list_update [OF lens(2), where v = pr_spans and k = pr_index and xs = ps] that
    unfolding unfold by (simp only: if_True mem_Collect_eq)
  show "(i, rc_shaped (stored out ps c) ! i) \<in> set out" if "\<exists>q \<in> set out. fst q = i"
    using fold_list_update [OF lens(3), where v = "\<lambda>q. Some (snd q)" and k = fst and xs = out] that
    unfolding unfold by (auto simp: prod_eq_iff)
qed

lemma stored_miss:
  assumes "cache_square c" and "i < length (rc_rows c)"
  shows "\<not> (\<exists>p \<in> set ps. pr_index p = i) \<Longrightarrow> rc_rows (stored out ps c) ! i = rc_rows c ! i"
    and "\<not> (\<exists>p \<in> set ps. pr_index p = i) \<Longrightarrow> rc_cells (stored out ps c) ! i = rc_cells c ! i"
    and "\<not> (\<exists>p \<in> set ps. pr_index p = i \<and> pr_spans p \<noteq> None) \<Longrightarrow> rc_spans (stored out ps c) ! i = rc_spans c ! i"
    and "\<not> (\<exists>q \<in> set out. fst q = i) \<Longrightarrow> rc_shaped (stored out ps c) ! i = rc_shaped c ! i"
proof -
  have lens: "i < length (rc_cells c)" "i < length (rc_spans c)" "i < length (rc_shaped c)"
    using assms by (simp_all add: cache_square_def)
  note unfold = store_shaped_fields store_prepared_fields
  show "rc_rows (stored out ps c) ! i = rc_rows c ! i" if "\<not> (\<exists>p \<in> set ps. pr_index p = i)"
    using fold_list_update [OF assms(2), where v = "\<lambda>p. Some (pr_text p)" and k = pr_index and xs = ps] that
    unfolding unfold by auto
  show "rc_cells (stored out ps c) ! i = rc_cells c ! i" if "\<not> (\<exists>p \<in> set ps. pr_index p = i)"
    using fold_list_update [OF lens(1), where v = "\<lambda>p. Some (pr_cells p)" and k = pr_index and xs = ps] that
    unfolding unfold by auto
  show "rc_spans (stored out ps c) ! i = rc_spans c ! i" if "\<not> (\<exists>p \<in> set ps. pr_index p = i \<and> pr_spans p \<noteq> None)"
    using fold_list_update [OF lens(2), where v = pr_spans and k = pr_index and xs = ps] that
    unfolding unfold by (simp only: if_False singleton_iff)
  show "rc_shaped (stored out ps c) ! i = rc_shaped c ! i" if "\<not> (\<exists>q \<in> set out. fst q = i)"
    using fold_list_update [OF lens(3), where v = "\<lambda>q. Some (snd q)" and k = fst and xs = out] that
    unfolding unfold by auto
qed

text \<open>
  Storing the prepared rows and the shaped ones: an updated row is cached as it is now, every
  other index keeps what it had, and the shaping of every index stays the engine's.
\<close>

lemma stored_row:
  assumes "cache_square c" and "length (rc_rows c) = length rows" and "shapes_valid shape c"
    and "prepare_updates rows c palette updated = Some ps"
    and "shape_rows shape engine ps = (Some out, engine')"
    and i: "i < length rows" and "(\<exists>row \<in> set updated. unat row = i) \<or> cached_row palette (rows ! i) c i"
  shows "cached_row palette (rows ! i) (stored out ps c) i
     \<and> row_shaped shape (rc_rows (stored out ps c) ! i) (rc_spans (stored out ps c) ! i) (rc_shaped (stored out ps c) ! i)"
proof -
  let ?d = "stored out ps c"
  have ps: "ps = map (\<lambda>row. prepare_logical_row (unat row) (rows ! unat row)
      (needs_shape c (unat row) (rows ! unat row)) palette) updated"
    using assms(4) by (simp add: prepare_updates_Some)
  note out = shape_rows_out [OF assms(5)]
  have lt: "i < length (rc_rows c)" using assms(2) i by simp
  note hit = stored_hit [OF assms(1) lt, where ps = ps and out = out]
    and miss = stored_miss [OF assms(1) lt, where ps = ps and out = out]
  have valid: "row_shaped shape (rc_rows c ! i) (rc_spans c ! i) (rc_shaped c ! i)"
    using assms(3) lt by (simp add: shapes_valid_def)
  have member: "(\<exists>p \<in> set ps. pr_index p = i) \<longleftrightarrow> (\<exists>row \<in> set updated. unat row = i)"
    by (auto simp: ps prepare_logical_row_def)
  have fields: "pr_text p = ro_text (rows ! i) \<and> pr_cells p = prepare_logical_cells (rows ! i) palette
      \<and> pr_spans p = (if needs_shape c i (rows ! i) then Some (logical_shape_spans (rows ! i)) else None)"
    if "p \<in> set ps" "pr_index p = i" for p
    using that by (auto simp: ps prepare_logical_row_def)
  have shaped_from: "(\<exists>p \<in> set ps. pr_index p = i \<and> pr_spans p \<noteq> None) \<longleftrightarrow> (\<exists>q \<in> set out. fst q = i)"
  proof
    assume "\<exists>p \<in> set ps. pr_index p = i \<and> pr_spans p \<noteq> None"
    then obtain p where "p \<in> set ps" "pr_index p = i" "pr_spans p \<noteq> None" by blast
    with conjunct2 [OF out] obtain shaped where "(i, shaped) \<in> set out" by blast
    then show "\<exists>q \<in> set out. fst q = i" by (rule bexI [rotated]) simp
  next
    assume "\<exists>q \<in> set out. fst q = i"
    then obtain shaped where "(i, shaped) \<in> set out" by auto
    with conjunct1 [OF out] show "\<exists>p \<in> set ps. pr_index p = i \<and> pr_spans p \<noteq> None" by blast
  qed
  show ?thesis
  proof (cases "\<exists>p \<in> set ps. pr_index p = i \<and> pr_spans p \<noteq> None")
    case True
    then obtain p where p: "p \<in> set ps" "pr_index p = i" "pr_spans p \<noteq> None" by blast
    then have some: "\<exists>p \<in> set ps. pr_index p = i" by blast
    have "needs_shape c i (rows ! i)" using fields [OF p(1,2)] p(3) by presburger
    with fields have spans: "pr_spans p = Some (logical_shape_spans (rows ! i))" if "p \<in> set ps" "pr_index p = i" for p
      using that by simp
    obtain q where "q \<in> set ps" "pr_index q = i"
      "\<exists>spans engine. pr_spans q = Some spans \<and> fst (shape engine (pr_text q) spans) = Some (rc_shaped ?d ! i)"
      using out hit(4) shaped_from True by blast
    then have "\<exists>engine. fst (shape engine (ro_text (rows ! i)) (logical_shape_spans (rows ! i))) = Some (rc_shaped ?d ! i)"
      using spans fields by auto
    moreover have "rc_rows ?d ! i = ro_text (rows ! i)" using hit(1) [OF some] fields by metis
    moreover have "rc_cells ?d ! i = prepare_logical_cells (rows ! i) palette" using hit(2) [OF some] fields by metis
    moreover have "rc_spans ?d ! i = logical_shape_spans (rows ! i)" using hit(3) [OF True] spans by fastforce
    ultimately show ?thesis by (simp add: cached_row_def row_shaped_def)
  next
    case False
    then have keep: "rc_spans ?d ! i = rc_spans c ! i" "rc_shaped ?d ! i = rc_shaped c ! i"
      using miss(3,4) shaped_from by blast+
    show ?thesis
    proof (cases "\<exists>p \<in> set ps. pr_index p = i")
      case True
      then obtain p where p: "p \<in> set ps" "pr_index p = i" by blast
      with False have "pr_spans p = None" by blast
      with fields [OF p] have "\<not> needs_shape c i (rows ! i)" by (metis option.distinct(1))
      then have same: "rc_rows c ! i = ro_text (rows ! i)" "rc_spans c ! i = logical_shape_spans (rows ! i)"
        by (simp_all add: needs_shape_def shape_spans_match_iff)
      have "rc_rows ?d ! i = ro_text (rows ! i)" using hit(1) [OF True] fields by metis
      moreover have "rc_cells ?d ! i = prepare_logical_cells (rows ! i) palette" using hit(2) [OF True] fields by metis
      ultimately show ?thesis using keep same valid by (simp add: cached_row_def)
    next
      case none: False
      then have "rc_rows ?d ! i = rc_rows c ! i" "rc_cells ?d ! i = rc_cells c ! i"
        using miss(1,2) by blast+
      moreover have "cached_row palette (rows ! i) c i" using assms(7) member none by blast
      ultimately show ?thesis using keep valid by (simp add: cached_row_def)
    qed
  qed
qed

lemma stored_rows:
  assumes "cache_square c" and "length (rc_rows c) = length rows" and "shapes_valid shape c"
    and "prepare_updates rows c palette updated = Some ps"
    and "shape_rows shape engine ps = (Some out, engine')"
    and "\<forall>i < length rows. (\<exists>row \<in> set updated. unat row = i) \<or> cached_row palette (rows ! i) c i"
  shows "cache_for shape palette rows (stored out ps c)"
proof -
  have "cache_square (stored out ps c)" "length (rc_rows (stored out ps c)) = length rows"
    using assms(1,2) by (simp_all add: cache_square_store)
  with stored_row [OF assms(1-5)] assms(6) show ?thesis
    by (simp add: cache_for_def shapes_valid_def)
qed

section \<open>Coherence of a render\<close>

lemma cache_for_sent [simp]: "cache_for shape palette rows (c\<lparr>rc_sent := sent\<rparr>) \<longleftrightarrow> cache_for shape palette rows c"
  by (simp add: cache_for_def cache_square_def shapes_valid_def cached_row_def)

lemma full_cache_facts:
  "cache_square (full_cache n)" "length (rc_rows (full_cache n)) = n" "shapes_valid shape (full_cache n)"
  by (simp_all add: full_cache_def cache_square_def shapes_valid_def row_shaped_def)

lemma full_cache_blank:
  "i < n \<Longrightarrow> \<not> needs_shape (full_cache n) i row \<Longrightarrow> ro_text row = [] \<and> logical_shape_spans row = []"
  by (simp add: needs_shape_def shape_spans_match_iff full_cache_def)

text \<open>The cache a render starts from.\<close>

definition start_cache :: "'eng replica \<Rightarrow> logical_snapshot \<Rightarrow> bool \<Rightarrow> render_cache" where
  "start_cache m snapshot full = (if full then full_cache (length (ss_rows snapshot)) else rp_cache m)"

lemma render_eq:
  "render shape m snapshot updated full =
     (if \<not> full \<and> length (rc_rows (rp_cache m)) \<noteq> length (ss_rows snapshot) then (Inl RowCountChanged, m)
      else case prepare_updates (ss_rows snapshot) (start_cache m snapshot full) (rp_palette m) updated of
        None \<Rightarrow> (Inl UpdatedRowOutside, m\<lparr>rp_cache := start_cache m snapshot full\<rparr>)
      | Some ps \<Rightarrow>
          (case shape_rows shape (rp_engine m) ps of
             (None, engine) \<Rightarrow>
               (Inl ShapingFailed, m\<lparr>rp_cache := start_cache m snapshot full, rp_engine := engine\<rparr>)
           | (Some out, engine) \<Rightarrow>
               render_prepared (record_acquisition (list_ex (\<lambda>p. pr_spans p \<noteq> None) ps)
                   (m\<lparr>rp_cache := start_cache m snapshot full, rp_engine := engine\<rparr>))
                 (start_cache m snapshot full) ps out snapshot updated full))"
  by (cases full) (simp_all add: render_def start_cache_def Let_def split: option.split prod.split)

lemma render_prepared_cache:
  "render_prepared m c ps out snapshot updated full = (r, m') \<Longrightarrow>
     (\<exists>sent. rp_cache m' = (fold store_shaped out (fold store_prepared ps c))\<lparr>rc_sent := sent\<rparr>)
     \<and> (\<forall>e. r = Inl e \<longrightarrow> (\<exists>f. e = EncodeFailed f))"
  by (auto simp: render_prepared_def frame_result_def case_prod_beta Let_def split: sum.splits)

lemma render_cases:
  assumes "render shape m snapshot updated full = (r, m')"
  obtains (count) "\<not> full" "length (rc_rows (rp_cache m)) \<noteq> length (ss_rows snapshot)" "r = Inl RowCountChanged"
      "m' = m"
  | (outside) "r = Inl UpdatedRowOutside" "rp_cache m' = start_cache m snapshot full"
      "\<not> (\<forall>row \<in> set updated. unat row < length (ss_rows snapshot))"
  | (shaping) "r = Inl ShapingFailed" "rp_cache m' = start_cache m snapshot full"
  | (rendered) ps out engine engine' sent where
      "prepare_updates (ss_rows snapshot) (start_cache m snapshot full) (rp_palette m) updated = Some ps"
      "shape_rows shape engine ps = (Some out, engine')"
      "rp_cache m' = (fold store_shaped out (fold store_prepared ps (start_cache m snapshot full)))\<lparr>rc_sent := sent\<rparr>"
      "length (rc_rows (start_cache m snapshot full)) = length (ss_rows snapshot)"
      "\<forall>e. r = Inl e \<longrightarrow> (\<exists>f. e = EncodeFailed f)"
proof (cases "\<not> full \<and> length (rc_rows (rp_cache m)) \<noteq> length (ss_rows snapshot)")
  case True
  then have "r = Inl RowCountChanged" "m' = m" using assms by (simp_all add: render_eq)
  with True count show thesis by blast
next
  case False
  then have len: "length (rc_rows (start_cache m snapshot full)) = length (ss_rows snapshot)"
    by (auto simp: start_cache_def full_cache_facts)
  show thesis
  proof (cases "prepare_updates (ss_rows snapshot) (start_cache m snapshot full) (rp_palette m) updated")
    case None
    then have "\<not> (\<forall>row \<in> set updated. unat row < length (ss_rows snapshot))"
      by (simp add: prepare_updates_None)
    moreover have "r = Inl UpdatedRowOutside \<and> rp_cache m' = start_cache m snapshot full"
      using assms unfolding render_eq if_not_P [OF False] None by auto
    ultimately show thesis using outside by blast
  next
    case (Some ps)
    obtain r1 engine' where shaped: "shape_rows shape (rp_engine m) ps = (r1, engine')" by fastforce
    show thesis
    proof (cases r1)
      case None
      have "r = Inl ShapingFailed \<and> rp_cache m' = start_cache m snapshot full"
        using assms unfolding render_eq if_not_P [OF False] Some option.case shaped None by auto
      then show thesis using shaping by blast
    next
      case (Some out)
      with assms False shaped \<open>prepare_updates _ _ _ _ = Some ps\<close>
      have "render_prepared (record_acquisition (list_ex (\<lambda>p. pr_spans p \<noteq> None) ps)
           (m\<lparr>rp_cache := start_cache m snapshot full, rp_engine := engine'\<rparr>))
         (start_cache m snapshot full) ps out snapshot updated full = (r, m')"
        unfolding render_eq by (auto simp only: if_False prod.case option.case)
      from render_prepared_cache [OF this] obtain sent where "rp_cache m' =
          (fold store_shaped out (fold store_prepared ps (start_cache m snapshot full)))\<lparr>rc_sent := sent\<rparr>"
          "\<forall>e. r = Inl e \<longrightarrow> (\<exists>f. e = EncodeFailed f)"
        by blast
      then show thesis
        using rendered [OF \<open>prepare_updates _ _ _ _ = Some ps\<close>] shaped Some len by blast
    qed
  qed
qed

lemma render_square:
  assumes "render shape m snapshot updated full = (r, m')" and "cache_square (rp_cache m)"
  shows "cache_square (rp_cache m')"
proof -
  have start: "cache_square (start_cache m snapshot full)"
    using assms(2) by (simp add: start_cache_def full_cache_facts)
  have "cache_square (c\<lparr>rc_sent := sent\<rparr>) \<longleftrightarrow> cache_square c" for c sent by (simp add: cache_square_def)
  then show ?thesis
    using assms(2) by (cases rule: render_cases [OF assms(1)]) (simp_all add: start cache_square_store)
qed

lemma render_rows_valid:
  assumes "render shape m snapshot updated full = (r, m')"
    and "r \<noteq> Inl RowCountChanged" and "r \<noteq> Inl UpdatedRowOutside" and "r \<noteq> Inl ShapingFailed"
    and "cache_square (start_cache m snapshot full)" and "shapes_valid shape (start_cache m snapshot full)"
    and "\<forall>i < length (ss_rows snapshot). (\<exists>row \<in> set updated. unat row = i)
           \<or> cached_row (rp_palette m) (ss_rows snapshot ! i) (start_cache m snapshot full) i"
  shows "cache_for shape (rp_palette m) (ss_rows snapshot) (rp_cache m')"
  using assms(1)
proof (rule render_cases)
  fix ps out engine engine' sent
  assume r: "prepare_updates (ss_rows snapshot) (start_cache m snapshot full) (rp_palette m) updated = Some ps"
    "shape_rows shape engine ps = (Some out, engine')"
    "rp_cache m' = (fold store_shaped out (fold store_prepared ps (start_cache m snapshot full)))\<lparr>rc_sent := sent\<rparr>"
    "length (rc_rows (start_cache m snapshot full)) = length (ss_rows snapshot)"
  show ?thesis
    unfolding r(3) cache_for_sent by (rule stored_rows [OF assms(5) r(4) assms(6) r(1,2) assms(7)])
qed (use assms(2-4) in simp_all)

end
