(* ===== verification/Replica_Properties.thy ===== *)
theory Replica_Properties
  imports Replica_Facts Step_Systems
begin

text \<open>What a viewer can rely on: its replica is one of the host's states, and all of it or none.\<close>

section \<open>Host and viewer\<close>

text \<open>A run of the host's stream over successive snapshots into the viewer's replica.\<close>

fun relay ::
  "'eng shaper \<Rightarrow> host_stream \<Rightarrow> 'eng replica \<Rightarrow> logical_snapshot list \<Rightarrow> replica_error option \<times> 'eng replica" where
  "relay shape h m [] = (None, m)"
| "relay shape h m (s # ss) =
     (let (message, h') = (send_snapshot h s :: (unit, unit) state_message \<times> host_stream)
      in case receive_state shape m message of
           (Inl e, m') \<Rightarrow> (Some e, m')
         | (Inr _, m') \<Rightarrow> relay shape h' m' ss)"

text \<open>The viewer holds what the host last sent, at the same patch sequence.\<close>

definition in_step :: "host_stream \<Rightarrow> 'eng replica \<Rightarrow> bool" where
  "in_step h m \<longleftrightarrow> (case hs_previous h of
     None \<Rightarrow> True
   | Some s \<Rightarrow> rp_latest m = Some s \<and> rp_patch_sequence m = hs_patch_sequence h
       \<and> length (ss_rows s) \<le> 65535 \<and> length (rc_rows (rp_cache m)) = length (ss_rows s))"

lemma render_row_count:
  assumes "render shape m snapshot updated full = (Inr frame, m')"
  shows "length (rc_rows (rp_cache m')) = length (ss_rows snapshot)"
  using assms by (cases rule: render_cases [OF assms]) (simp_all add: cache_square_store)

lemma publish_result:
  assumes "publish_snapshot shape m s = (r, m')" and "length (ss_rows s) \<le> 65535"
  shows "(case r of Inl e \<Rightarrow> render_failure e \<and> rp_latest m' = rp_latest m
     | Inr _ \<Rightarrow> rp_latest m' = Some s \<and> rp_patch_sequence m' = 0
         \<and> length (rc_rows (rp_cache m')) = length (ss_rows s))"
proof -
  obtain r1 m1 where r1: "render shape m s (all_rows s) True = (r1, m1)" by fastforce
  have "\<forall>row \<in> set (all_rows s). unat row < length (ss_rows s)"
    using assms(2) by (auto simp: all_rows_def unat_of_nat)
  with r1 have "render_failure e" if "r1 = Inl e" for e
    using render_error [of shape m s "all_rows s" True e m1] that by simp
  then show ?thesis
    using assms r1 render_same [OF r1] render_row_count [of shape m s "all_rows s" True _ m1]
    by (auto simp: publish_snapshot_def same_terminal_def not_less split: sum.splits)
qed

lemma patch_result:
  assumes "publish_patch shape m patch = (r, m')" and "patch_guard m patch = Inr previous"
    and "length (rc_rows (rp_cache m)) = length (ss_rows previous)"
  shows "(case r of Inl e \<Rightarrow> render_failure e \<and> rp_latest m' = rp_latest m
     | Inr _ \<Rightarrow> rp_latest m' = Some (apply_patch patch previous) \<and> rp_patch_sequence m' = pa_patch_sequence patch
         \<and> length (rc_rows (rp_cache m')) = length (ss_rows previous))"
proof -
  note ok = patch_guard_ok [OF assms(2)]
  have rows: "length (ss_rows (apply_patch patch previous)) = length (ss_rows previous)"
    by (simp add: apply_patch_def)
  obtain r1 m1 where r1: "render shape (m\<lparr>rp_latest := None\<rparr>) (apply_patch patch previous)
      (map rr_row_index (pa_row_replacements patch)) False = (r1, m1)" by fastforce
  have "render_failure e" if "r1 = Inl e" for e
    using render_error [OF r1 [unfolded that]] ok(3) assms(3) rows by simp
  moreover have "length (rc_rows (rp_cache m1)) = length (ss_rows previous)" if "r1 = Inr frame" for frame
    using render_row_count [OF r1 [unfolded that]] rows by simp
  ultimately show ?thesis
    using assms(1,2) ok(1) r1
    by (auto simp: publish_patch_unfold split: sum.splits)
qed

lemma send_receive:
  assumes "in_step h m" and "length (ss_rows s) \<le> 65535"
    and "send_snapshot h s = (message, h')" and "receive_state shape m message = (r, m')"
  shows "(case r of Inl e \<Rightarrow> render_failure e \<and> rp_latest m' = rp_latest m
     | Inr _ \<Rightarrow> rp_latest m' = Some s \<and> in_step h' m')"
proof (cases "Option.bind (hs_previous h) (\<lambda>previous. logical_patch previous s (sat_add (hs_patch_sequence h) 1))")
  case None
  with assms(3,4) have "publish_snapshot shape m s = (r, m')" and h': "h' = \<lparr>hs_previous = Some s, hs_patch_sequence = 0\<rparr>"
    by (auto simp: send_snapshot_def Let_def)
  from publish_result [OF this(1) assms(2)] h' assms(2) show ?thesis
    by (auto simp: in_step_def split: sum.splits)
next
  case (Some patch)
  then obtain previous where previous: "hs_previous h = Some previous"
    "logical_patch previous s (sat_add (hs_patch_sequence h) 1) = Some patch"
    by (auto simp: bind_eq_Some_conv)
  from assms(1) previous(1) have m: "rp_latest m = Some previous" "rp_patch_sequence m = hs_patch_sequence h"
    "length (ss_rows previous) \<le> 65535" "length (rc_rows (rp_cache m)) = length (ss_rows previous)"
    by (simp_all add: in_step_def)
  have r: "publish_patch shape m patch = (r, m')"
    and h': "h' = \<lparr>hs_previous = Some s, hs_patch_sequence = sat_add (hs_patch_sequence h) 1\<rparr>"
    using assms(3,4) Some by (auto simp: send_snapshot_def Let_def)
  have guard: "patch_guard m patch = Inr previous"
    by (rule logical_patch_guarded) (use previous(2) m in simp_all)
  have eq: "apply_patch patch previous = s"
    by (rule logical_patch_rebuilds [OF previous(2)]) (use m(3) in simp)
  have "pa_patch_sequence patch = sat_add (hs_patch_sequence h) 1"
    using previous(2) by (auto simp: logical_patch_def split: if_splits)
  moreover have "length (ss_rows previous) = length (ss_rows s)"
    using eq by (auto simp: apply_patch_def)
  ultimately show ?thesis
    using patch_result [OF r guard m(4)] h' eq m by (auto simp: in_step_def split: sum.splits)
qed

lemma relay_in_step:
  "in_step h m \<Longrightarrow> \<forall>s \<in> set ss. length (ss_rows s) \<le> 65535 \<Longrightarrow> relay shape h m ss = (r, m') \<Longrightarrow>
     (case r of None \<Rightarrow> rp_latest m' = last (rp_latest m # map Some ss)
      | Some e \<Rightarrow> render_failure e \<and> rp_latest m' \<in> set (rp_latest m # map Some ss))"
proof (induction ss arbitrary: h m)
  case Nil
  then show ?case by auto
next
  case (Cons s ss)
  obtain message h' where h': "send_snapshot h s = (message :: (unit, unit) state_message, h')" by fastforce
  obtain r1 m1 where r1: "receive_state shape m message = (r1, m1)" by fastforce
  from Cons.prems(2) have "length (ss_rows s) \<le> 65535" by simp
  note step = send_receive [OF Cons.prems(1) this h' r1]
  show ?case
  proof (cases r1)
    case (Inl e)
    with step Cons.prems(3) h' r1 show ?thesis by auto
  next
    case (Inr fx)
    with step have next_step: "rp_latest m1 = Some s" "in_step h' m1" by simp_all
    from Cons.prems(3) h' r1 Inr have "relay shape h' m1 ss = (r, m')" by simp
    from Cons.IH [OF next_step(2) _ this] Cons.prems(2) next_step(1) show ?thesis
      by (auto split: option.splits)
  qed
qed

text \<open>
  C3. The viewer's terminal is the host's. Over a new state stream, whatever sequence of
  snapshots the host goes through and however they are split into patches and whole snapshots,
  no message is ever refused: when all were rendered the viewer holds exactly the host's last
  snapshot, and a rendering failure leaves it holding one it had before. The viewer may start
  from any earlier state.
\<close>

theorem viewer_follows_host:
  assumes "\<forall>s \<in> set snapshots. length (ss_rows s) \<le> 65535"
    and "relay shape new_host_stream m snapshots = (r, m')"
  shows "(case r of None \<Rightarrow> rp_latest m' = last (rp_latest m # map Some snapshots)
     | Some e \<Rightarrow> render_failure e \<and> rp_latest m' \<in> set (rp_latest m # map Some snapshots))"
  by (rule relay_in_step [OF _ assms]) (simp add: in_step_def new_host_stream_def)

definition demo_snapshot :: "u64 \<Rightarrow> string \<Rightarrow> logical_snapshot" where
  "demo_snapshot revision row_text = \<lparr>ss_session_epoch = 1, ss_layout_epoch = 1,
     ss_terminal_revision = revision, ss_cols = 8, ss_rows = [\<lparr>ro_text = row_text, ro_cells = []\<rparr>],
     ss_cursor = \<lparr>cu_x = 0, cu_y = 0, cu_visible = True, cu_style = 0, cu_blinking = False\<rparr>,
     ss_mouse_tracking = False, ss_scrollbar = \<lparr>sb_total = 1, sb_offset = 0, sb_len = 1\<rparr>,
     ss_title = None, ss_cwd = None\<rparr>"

definition demo_shape :: "unit shaper" where
  "demo_shape engine row_text spans = (Some blank_shaped, engine)"

definition demo_replica :: "unit replica" where
  "demo_replica = new_replica [] () 7"

lemma map_values_empty: "map_values fmempty = []"
  by (simp add: map_values_def sorted_list_of_fset.rep_eq)

lemma demo_frame_ok:
  assumes "rc_rows c = [t]" "rc_shaped c = [\<lparr>sr_glyphs = [], sr_definitions = []\<rparr>]" "rc_cells c = [[]]" "length t < 9"
  shows "frame_result (encode_frame (replica_frame m c s [0] full [])) \<noteq> Inl e"
  using assms
  by (auto simp: encode_frame_def encode_frame_with_def encode_parts_def encode_glyph_definitions_def
      encode_links_def encode_row_def frame_result_def replica_frame_def Let_def split: prod.splits sum.splits)

definition demo_cache :: "string \<Rightarrow> render_cache" where
  "demo_cache t = \<lparr>rc_rows = [t], rc_cells = [[]], rc_spans = [[]], rc_shaped = [blank_shaped], rc_sent = {||}\<rparr>"

lemma demo_publish:
  assumes "t \<noteq> []" "length t < 9"
  shows "\<exists>fx m'. publish_snapshot demo_shape m (demo_snapshot revision t) = (Inr fx, m')
     \<and> rp_cache m' = demo_cache t \<and> rp_latest m' = Some (demo_snapshot revision t) \<and> rp_patch_sequence m' = 0"
proof -
  have spans: "logical_shape_spans \<lparr>ro_text = t, ro_cells = []\<rparr> = []"
    by (simp add: logical_shape_spans_def)
  show ?thesis
    using assms
    by (simp add: publish_snapshot_def render_def render_prepared_def demo_snapshot_def all_rows_def full_cache_def
        prepare_updates_def prepare_logical_row_def needs_shape_def shape_spans_match_iff spans
        demo_shape_def prepare_logical_cells_def collect_glyphs_def blank_shaped_def map_values_empty Let_def
        store_prepared_def store_shaped_def record_acquisition_def demo_cache_def demo_frame_ok split: prod.splits sum.splits)
qed

definition demo_patch :: "u64 \<Rightarrow> string \<Rightarrow> logical_patch_rec" where
  "demo_patch revision t = \<lparr>pa_session_epoch = 1, pa_layout_epoch = 1, pa_patch_sequence = 1,
     pa_terminal_revision = revision,
     pa_row_replacements = [\<lparr>rr_row_index = 0, rr_row_revision = revision, rr_row = \<lparr>ro_text = t, ro_cells = []\<rparr>\<rparr>],
     pa_cursor = None, pa_mouse_tracking = None, pa_scrollbar = None\<rparr>"

lemma demo_patched:
  assumes "t \<noteq> []" "length t < 9" "t \<noteq> t0" "rev0 < revision" "rp_cache m = demo_cache t0"
    "rp_latest m = Some (demo_snapshot rev0 t0)" "rp_patch_sequence m = 0"
  shows "\<exists>fx m'. publish_patch demo_shape m (demo_patch revision t) = (Inr fx, m')"
proof -
  have spans: "logical_shape_spans \<lparr>ro_text = t, ro_cells = []\<rparr> = []"
    by (simp add: logical_shape_spans_def)
  show ?thesis
    using assms
    by (simp add: publish_patch_def patch_guard_def demo_patch_def sat_add_def swap_row_def option_or_def
        render_def render_prepared_def demo_snapshot_def
        prepare_updates_def prepare_logical_row_def needs_shape_def shape_spans_match_iff spans
        demo_shape_def prepare_logical_cells_def collect_glyphs_def blank_shaped_def map_values_empty Let_def
        store_prepared_def store_shaped_def record_acquisition_def demo_cache_def demo_frame_ok split: prod.splits sum.splits)
qed

lemma demo_logical_patch:
  "t \<noteq> t0 \<Longrightarrow> rev0 < revision \<Longrightarrow>
     logical_patch (demo_snapshot rev0 t0) (demo_snapshot revision t) 1 = Some (demo_patch revision t)"
  by (simp add: logical_patch_def demo_snapshot_def demo_patch_def changed_def not_le)

lemma demo_relay:
  "\<exists>m'. relay demo_shape new_host_stream demo_replica [demo_snapshot 1 ''a'', demo_snapshot 2 ''b''] = (None, m')"
proof -
  obtain fx m1 where m1: "publish_snapshot demo_shape demo_replica (demo_snapshot 1 ''a'') = (Inr fx, m1)"
    "rp_cache m1 = demo_cache ''a''" "rp_latest m1 = Some (demo_snapshot 1 ''a'')" "rp_patch_sequence m1 = 0"
    using demo_publish [of "''a''" demo_replica 1] by auto
  obtain fx' m2 where "publish_patch demo_shape m1 (demo_patch 2 ''b'') = (Inr fx', m2)"
    using demo_patched [of "''b''" "''a''" 1 2 m1] m1 by auto
  with m1 show ?thesis
    by (simp add: send_snapshot_def new_host_stream_def demo_logical_patch sat_add_def)
qed

lemma viewer_follows_host_witness:
  "\<exists>m'. relay demo_shape new_host_stream demo_replica [demo_snapshot 1 ''a'', demo_snapshot 2 ''b''] = (None, m')
     \<and> rp_latest m' = Some (demo_snapshot 2 ''b'')"
proof -
  obtain m' where m': "relay demo_shape new_host_stream demo_replica [demo_snapshot 1 ''a'', demo_snapshot 2 ''b'']
      = (None, m')" using demo_relay by blast
  have "\<forall>s \<in> set [demo_snapshot 1 ''a'', demo_snapshot 2 ''b'']. length (ss_rows s) \<le> 65535"
    by (simp add: demo_snapshot_def)
  from viewer_follows_host [OF this m'] m' show ?thesis by simp
qed

text \<open>
  C7. A patch is applied entirely or not at all. If publishing a patch fails, for whatever reason
  and even when its rows repeat an index or rendering fails halfway, the retained snapshot, the
  patch sequence, the selection and the palette are what they were; if it succeeds, the patch
  was the next of its sequence and the revision has grown.
\<close>

theorem patch_is_transactional:
  assumes "publish_patch shape m patch = (r, m')"
  shows "(case r of
     Inl _ \<Rightarrow> same_terminal m m'
   | Inr _ \<Rightarrow> pa_patch_sequence patch = sat_add (rp_patch_sequence m) 1
       \<and> rp_patch_sequence m' = pa_patch_sequence patch
       \<and> (\<exists>previous. rp_latest m = Some previous \<and> rp_latest m' = Some (apply_patch patch previous)
            \<and> ss_terminal_revision previous < pa_terminal_revision patch))"
proof (cases "patch_guard m patch")
  case (Inl e)
  with assms show ?thesis by (auto simp: publish_patch_unfold same_terminal_def)
next
  case (Inr previous)
  note ok = patch_guard_ok [OF Inr]
  obtain r1 m1 where r1: "render shape (m\<lparr>rp_latest := None\<rparr>) (apply_patch patch previous)
      (map rr_row_index (pa_row_replacements patch)) False = (r1, m1)" by fastforce
  with assms Inr ok(1,2,4) render_same [OF r1] show ?thesis
    by (auto simp: publish_patch_unfold same_terminal_def split: sum.splits)
qed

lemma patch_is_transactional_witness:
  "same_terminal demo_replica (snd (publish_patch demo_shape demo_replica
     \<lparr>pa_session_epoch = 1, pa_layout_epoch = 1, pa_patch_sequence = 9, pa_terminal_revision = 1,
      pa_row_replacements = [], pa_cursor = None, pa_mouse_tracking = None, pa_scrollbar = None\<rparr>))"
  (is "same_terminal _ (snd (publish_patch _ _ ?patch))")
proof -
  have "publish_patch demo_shape demo_replica ?patch = (Inl PatchSequenceGap, demo_replica)"
    by (simp add: publish_patch_def patch_guard_def demo_replica_def new_replica_def sat_add_def)
  from patch_is_transactional [OF this] this show ?thesis by simp
qed

section \<open>The cache\<close>

text \<open>The operations of a replica, and the runs in which no full repaint failed halfway.\<close>

datatype 'eng replica_op =
    OpPublish logical_snapshot
  | OpPatch logical_patch_rec
  | OpSelection "tracked_selection option"
  | OpRefresh
  | OpPalette "(u8 \<times> rgb) list"
  | OpRuntime 'eng "(u8 \<times> rgb) list"

fun replica_step ::
  "palette \<Rightarrow> 'eng shaper \<Rightarrow> 'eng replica_op \<Rightarrow> 'eng replica
     \<Rightarrow> (replica_error + terminal_effect list) \<times> 'eng replica" where
  "replica_step default_palette shape (OpPublish s) m = publish_snapshot shape m s"
| "replica_step default_palette shape (OpPatch p) m = publish_patch shape m p"
| "replica_step default_palette shape (OpSelection sel) m = publish_selection shape m sel"
| "replica_step default_palette shape OpRefresh m = refresh shape m"
| "replica_step default_palette shape (OpPalette entries) m = reconfigure_palette default_palette m entries"
| "replica_step default_palette shape (OpRuntime engine entries) m =
     reconfigure_runtime default_palette shape m engine entries"





lemma all_rows_inside:
  "length (ss_rows s) \<le> 65535 \<Longrightarrow> \<forall>row \<in> set (all_rows s). unat row < length (ss_rows s)"
  by (auto simp: all_rows_def unat_of_nat)















section \<open>Panics\<close>

text \<open>
  The errors that would mean a broken invariant: an updated row outside the snapshot, and the
  encoder's refusals of inconsistent inputs, \<open>FramePanic\<close> being the panic of an index.
\<close>

definition internal_error :: "replica_error \<Rightarrow> bool" where
  "internal_error e \<longleftrightarrow> e = UpdatedRowOutside
     \<or> e \<in> {EncodeFailed TooManyRows, EncodeFailed RowCountsDiffer, EncodeFailed FramePanic}"

definition replica_wf :: "'eng replica \<Rightarrow> bool" where
  "replica_wf m \<longleftrightarrow> cache_square (rp_cache m)
     \<and> (case rp_latest m of None \<Rightarrow> True | Some s \<Rightarrow> length (ss_rows s) \<le> 65535)"

lemma encode_definitions_error:
  assumes "encode_glyph_definitions ds = Inl e"
  shows "e = CountOverflow"
proof -
  have "encode_glyph_definition d = Inl e' \<Longrightarrow> e' = CountOverflow" for d e'
    by (simp add: encode_glyph_definition_def split: if_splits)
  with assms show ?thesis
    by (auto simp: encode_glyph_definitions_def bind_res_def Let_def dest!: collect_res_Inl split: if_splits sum.splits)
qed

lemma encode_links_error:
  assumes "encode_links links = Inl e"
  shows "e = CountOverflow"
proof -
  have "encode_link l = Inl e' \<Longrightarrow> e' = CountOverflow" for l e'
    by (simp add: encode_link_def split: if_splits)
  with assms show ?thesis
    by (auto simp: encode_links_def bind_res_def dest!: collect_res_Inl split: option.splits if_splits sum.splits)
qed

lemma encode_rows_error:
  "collect_res (map (encode_row s prepared) ps) = Inl e \<Longrightarrow> e = RowTooLarge"
  by (auto simp: encode_row_def Let_def dest!: collect_res_Inl split: if_splits)

lemma encode_replica_errors:
  assumes "encode_frame (replica_frame m c s updated full ds) = Inl e" and "cache_square c"
    and "length (rc_rows c) \<le> 65535" and "\<forall>row \<in> set updated. unat row < length (rc_rows c)"
  shows "e = CountOverflow \<or> e = RowTooLarge"
proof -
  let ?f = "replica_frame m c s updated full ds"
  have shape: "length (fs_rows ?f) \<le> 65535" "length (fs_rows ?f) = length (fs_shaped_rows ?f)"
    "length (fs_rows ?f) = length (fs_cells ?f)"
    "\<not> (\<exists>row \<in> set (fs_updated_rows ?f). length (fs_cells ?f) \<le> unat row)"
    using assms(2-4) by (auto simp: replica_frame_def cache_square_def not_le)
  have "encode_parts (uses_index ?f) ?f = Inl e"
    using assms(1) by (auto simp: encode_frame_def encode_frame_with_def bind_res_def split: sum.splits)
  with shape show ?thesis
    using encode_definitions_error encode_links_error encode_rows_error
    by (auto simp: encode_parts_def bind_res_def case_prod_beta Let_def split: if_splits sum.splits)
qed

lemma render_prepared_error:
  fixes m :: "'eng replica"
  assumes "render_prepared m c ps out s updated full = (Inl e, m')"
  shows "\<exists>sent (k :: 'eng replica) ds f.
     encode_frame (replica_frame k ((stored out ps c)\<lparr>rc_sent := sent\<rparr>) s updated full ds) = Inl f \<and> e = EncodeFailed f"
  using assms
  by (auto simp: render_prepared_def frame_result_def case_prod_beta Let_def split: sum.splits)

lemma render_not_internal:
  fixes m :: "'eng replica"
  assumes "render shape m s updated full = (Inl e, m')" and "cache_square (rp_cache m)"
    and "length (ss_rows s) \<le> 65535" and "\<forall>row \<in> set updated. unat row < length (ss_rows s)"
  shows "\<not> internal_error e"
proof (rule ccontr)
  assume internal: "\<not> \<not> internal_error e"
  then have e: "e \<noteq> RowCountChanged" "e \<noteq> ShapingFailed" by (auto simp: internal_error_def)
  have start: "cache_square (start_cache m s full)" using assms(2) by (simp add: start_cache_def full_cache_facts)
  from assms(1) e obtain ps out engine where p:
    "\<not> (\<not> full \<and> length (rc_rows (rp_cache m)) \<noteq> length (ss_rows s))"
    "render_prepared (record_acquisition (list_ex (\<lambda>p. pr_spans p \<noteq> None) ps)
       (m\<lparr>rp_cache := start_cache m s full, rp_engine := engine\<rparr>))
       (start_cache m s full) ps out s updated full = (Inl e, m')"
    using assms(4) unfolding render_eq
    by (auto simp: prepare_updates_None split: if_splits option.splits prod.splits)
  let ?c = "stored out ps (start_cache m s full)"
  have len: "length (rc_rows (start_cache m s full)) = length (ss_rows s)"
    using p(1) by (auto simp: start_cache_def full_cache_facts)
  from render_prepared_error [OF p(2)] obtain sent and k :: "'eng replica" and ds f where f:
    "encode_frame (replica_frame k (?c\<lparr>rc_sent := sent\<rparr>) s updated full ds) = Inl f" "e = EncodeFailed f"
    by blast
  have "cache_square (?c\<lparr>rc_sent := sent\<rparr>) \<longleftrightarrow> cache_square ?c" by (simp add: cache_square_def)
  with start have "cache_square (?c\<lparr>rc_sent := sent\<rparr>)" by (simp add: cache_square_store)
  from encode_replica_errors [OF f(1) this] len assms(3,4) f(2) internal show False
    by (auto simp: internal_error_def cache_square_store)
qed

lemma full_render_not_internal:
  "render shape m s (all_rows s) True = (Inl e, m') \<Longrightarrow> cache_square (rp_cache m) \<Longrightarrow>
     length (ss_rows s) \<le> 65535 \<Longrightarrow> \<not> internal_error e"
  using render_not_internal all_rows_inside by blast

lemma publish_wf:
  assumes "publish_snapshot shape m s = (r, m')" and "replica_wf m"
  shows "replica_wf m' \<and> (\<forall>e. r = Inl e \<longrightarrow> \<not> internal_error e)"
proof (cases "65535 < length (ss_rows s)")
  case True
  with assms show ?thesis by (auto simp: publish_snapshot_def internal_error_def)
next
  case False
  obtain r1 m1 where r1: "render shape m s (all_rows s) True = (r1, m1)" by fastforce
  from assms(2) have "cache_square (rp_cache m)" by (simp add: replica_wf_def)
  with render_square [OF r1] render_same [OF r1] full_render_not_internal [of shape m s _ m1] r1 assms False
  show ?thesis
    by (auto simp: publish_snapshot_def replica_wf_def same_terminal_def not_less split: sum.splits)
qed

lemma patch_wf:
  assumes "publish_patch shape m patch = (r, m')" and "replica_wf m"
  shows "replica_wf m' \<and> (\<forall>e. r = Inl e \<longrightarrow> \<not> internal_error e)"
proof (cases "patch_guard m patch")
  case (Inl e)
  then have "\<not> internal_error e"
  proof -
    have "check_replacements patch current rs = Some e \<Longrightarrow> \<not> internal_error e" for current rs
      by (induction rs) (auto simp: internal_error_def split: if_splits)
    with Inl show ?thesis
      by (auto simp: patch_guard_def internal_error_def split: if_splits option.splits)
  qed
  with assms Inl show ?thesis by (auto simp: publish_patch_unfold)
next
  case (Inr previous)
  note ok = patch_guard_ok [OF Inr]
  let ?s = "apply_patch patch previous" and ?updated = "map rr_row_index (pa_row_replacements patch)"
  obtain r1 m1 where r1: "render shape (m\<lparr>rp_latest := None\<rparr>) ?s ?updated False = (r1, m1)" by fastforce
  from assms(2) ok(1) have base: "cache_square (rp_cache (m\<lparr>rp_latest := None\<rparr>))"
    "length (ss_rows previous) \<le> 65535" by (simp_all add: replica_wf_def)
  have rows: "length (ss_rows ?s) = length (ss_rows previous)" by (simp add: apply_patch_def)
  have "\<forall>row \<in> set ?updated. unat row < length (ss_rows ?s)" using ok(3) rows by auto
  with render_not_internal [of shape "m\<lparr>rp_latest := None\<rparr>" ?s ?updated False _ m1] r1 base rows
  have "\<not> internal_error e" if "r1 = Inl e" for e using that by simp
  with render_square [OF r1 base(1)] base(2) rows assms(1) Inr r1 show ?thesis
    by (auto simp: publish_patch_unfold replica_wf_def split: sum.splits)
qed

lemma selection_wf:
  assumes "publish_selection shape m selection = (r, m')" and "replica_wf m"
  shows "replica_wf m' \<and> (\<forall>e. r = Inl e \<longrightarrow> \<not> internal_error e)"
proof (cases "rp_latest m")
  case None
  with assms show ?thesis by (auto simp: publish_selection_def internal_error_def)
next
  case (Some s)
  obtain r1 m1 where r1: "render shape (m\<lparr>rp_selection := selection\<rparr>) s [] False = (r1, m1)" by fastforce
  from assms(2) Some have base: "cache_square (rp_cache (m\<lparr>rp_selection := selection\<rparr>))"
    "length (ss_rows s) \<le> 65535" by (simp_all add: replica_wf_def)
  have "\<not> internal_error e" if "r1 = Inl e" for e
    using render_not_internal [OF r1 [unfolded that] base] by simp
  with render_square [OF r1 base(1)] render_same [OF r1] base(2) assms(1) Some r1 show ?thesis
    by (auto simp: publish_selection_def replica_wf_def same_terminal_def split: sum.splits)
qed

lemma palette_wf:
  assumes "reconfigure_palette default_palette m entries = (r, m')" and "replica_wf m"
  shows "replica_wf m' \<and> (\<forall>e. r = Inl e \<longrightarrow> \<not> internal_error e)"
proof (cases "rp_latest m")
  case None
  with assms show ?thesis by (auto simp: reconfigure_palette_def replica_wf_def Let_def split: if_splits)
next
  case (Some s)
  with assms(2) have base: "cache_square (rp_cache m)" "length (ss_rows s) \<le> 65535"
    by (simp_all add: replica_wf_def)
  define k where "k = m\<lparr>rp_latest := None, rp_palette := resolved_palette default_palette entries\<rparr>"
  have k: "rp_cache k = rp_cache m" by (simp add: k_def)
  obtain r1 m1 where r1: "render_palette_frame k s = (r1, m1)" by fastforce
  have "cache_square (rp_cache m1) \<and> (\<forall>e. r1 = Inl e \<longrightarrow> \<not> internal_error e)"
  proof (cases "length (rc_cells (rp_cache m)) = length (ss_rows s)")
    case False
    with r1 k base show ?thesis by (auto simp: render_palette_frame_def internal_error_def)
  next
    case True
    let ?c = "(rp_cache k)\<lparr>rc_cells := map (\<lambda>row. prepare_logical_cells row (rp_palette k)) (ss_rows s)\<rparr>"
    have c: "cache_square ?c" "length (rc_rows ?c) = length (ss_rows s)"
      using base(1) True k by (simp_all add: cache_square_def)
    have "\<not> internal_error (EncodeFailed e)"
      if "encode_frame (replica_frame (k' :: 'a replica) ?c s (all_rows s) False []) = Inl e" for e k'
      using encode_replica_errors [OF that c(1)] c(2) all_rows_inside [OF base(2)] base(2)
      by (auto simp: internal_error_def)
    with r1 True base k c show ?thesis
      by (auto simp: render_palette_frame_def Let_def split: sum.splits)
  qed
  with base assms(1) Some r1 [unfolded k_def] show ?thesis
    by (auto simp: reconfigure_palette_def replica_wf_def Let_def split: sum.splits if_splits)
qed

lemma runtime_wf:
  assumes "reconfigure_runtime default_palette shape m engine entries = (r, m')" and "replica_wf m"
  shows "replica_wf m' \<and> (\<forall>e. r = Inl e \<longrightarrow> \<not> internal_error e)"
proof (cases "rp_latest m")
  case None
  with assms show ?thesis by (auto simp: reconfigure_runtime_def replica_wf_def)
next
  case (Some s)
  with assms(2) have few: "length (ss_rows s) \<le> 65535" by (simp add: replica_wf_def)
  have blank: "cache_square empty_cache" by (simp add: cache_square_def empty_cache_def)
  define k where "k = (new_replica default_palette engine (rp_session_handle m))
     \<lparr>rp_palette := resolved_palette default_palette entries, rp_frame_sequence := rp_frame_sequence m,
      rp_patch_sequence := rp_patch_sequence m, rp_selection := rp_selection m,
      rp_text_sequence := rp_text_sequence m, rp_text_acquisitions := rp_text_acquisitions m,
      rp_render_sequence := rp_render_sequence m\<rparr>"
  have k: "cache_square (rp_cache k)" by (simp add: k_def new_replica_def blank)
  obtain r1 m1 where r1: "render shape k s (all_rows s) True = (r1, m1)" by fastforce
  have "\<not> internal_error e" if "r1 = Inl e" for e
    using full_render_not_internal [OF r1 [unfolded that] k few] .
  with render_square [OF r1 k] few assms Some r1 [unfolded k_def] show ?thesis
    by (auto simp: reconfigure_runtime_def replica_wf_def Let_def split: sum.splits)
qed

lemma step_wf:
  assumes "replica_step default_palette shape x m = (r, m')" and "replica_wf m"
  shows "replica_wf m' \<and> (\<forall>e. r = Inl e \<longrightarrow> \<not> internal_error e)"
proof (cases x)
  case (OpPublish s)
  with assms show ?thesis by (intro publish_wf) simp_all
next
  case (OpPatch p)
  with assms show ?thesis by (intro patch_wf) simp_all
next
  case (OpSelection sel)
  with assms show ?thesis by (intro selection_wf) simp_all
next
  case OpRefresh
  show ?thesis
  proof (cases "rp_latest m")
    case None
    with assms OpRefresh show ?thesis by (auto simp: refresh_def internal_error_def)
  next
    case (Some s)
    with assms OpRefresh show ?thesis by (intro publish_wf [of shape m s]) (simp_all add: refresh_def)
  qed
next
  case (OpPalette entries)
  with assms show ?thesis by (intro palette_wf) simp_all
next
  case (OpRuntime engine entries)
  with assms show ?thesis by (intro runtime_wf) simp_all
qed

interpretation replica: step_system "\<lambda>x m. snd (replica_step default_palette shape x m)" replica_wf
  for default_palette shape
  by unfold_locales (metis prod.collapse step_wf)

text \<open>
  C37. The replica never indexes outside its cache. After any sequence of operations on a new
  replica, failed ones included, no operation ends in the panic of an out-of-range row, in an
  updated row outside the snapshot, or in the encoder's refusal of rows, shapes and cells whose
  numbers differ: the four caches always have one entry per row.
\<close>

theorem replica_never_panics:
  assumes "replica_step default_palette shape x
     (fold (\<lambda>x m. snd (replica_step default_palette shape x m)) xs
        (new_replica default_palette engine session_handle)) = (Inl e, m')"
  shows "\<not> internal_error e"
proof -
  have "replica_wf (new_replica default_palette engine session_handle)"
    by (simp add: replica_wf_def new_replica_def empty_cache_def cache_square_def)
  from step_wf [OF assms replica.inv_run [OF this]] show ?thesis by simp
qed

lemma replica_never_panics_witness:
  "\<exists>e m'. replica_step [] demo_shape OpRefresh demo_replica = (Inl e, m') \<and> \<not> internal_error e"
proof -
  have "replica_step [] demo_shape OpRefresh
      (fold (\<lambda>x m. snd (replica_step [] demo_shape x m)) [] (new_replica [] () 7)) = (Inl NoSnapshotYet, demo_replica)"
    by (simp add: refresh_def demo_replica_def new_replica_def)
  from replica_never_panics [OF this] this show ?thesis by (simp add: demo_replica_def) 
qed

section \<open>A repaint that fails halfway\<close>

text \<open>
  \<open>publish\<close> does not restore the cache: when shaping a new snapshot fails, the previous snapshot
  is retained but its cached rows are blank, and a later palette change, which succeeds, encodes
  the blank rows as the terminal's.
\<close>

lemma failed_publish_blanks_cache:
  assumes "publish_snapshot shape m s = (Inl ShapingFailed, m')"
  shows "rp_latest m' = rp_latest m \<and> rp_cache m' = full_cache (length (ss_rows s))"
proof -
  from assms have r: "render shape m s (all_rows s) True = (Inl ShapingFailed, m')"
    by (auto simp: publish_snapshot_def split: if_splits sum.splits prod.splits)
  then show ?thesis
    using render_same [OF r]
    by (cases rule: render_cases [OF r]) (auto simp: start_cache_def same_terminal_def)
qed

lemma blank_rows_after_failed_publish:
  assumes "publish_snapshot shape m s = (Inl ShapingFailed, m')" and "rp_latest m = Some previous"
    and "reconfigure_palette default_palette m' entries = (Inr [FrameReady frame], m'')"
  shows "rp_latest m'' = Some previous
     \<and> (\<exists>f. encode_frame f = Inr frame \<and> fs_rows f = replicate (length (ss_rows previous)) [])"
proof -
  note blank = failed_publish_blanks_cache [OF assms(1)]
  then have latest: "rp_latest m' = Some previous" using assms(2) by simp
  have "length (rc_cells (rp_cache m')) = length (rc_rows (rp_cache m'))"
    using blank by (simp add: full_cache_def)
  with assms(3) latest blank show ?thesis
    by (auto simp: reconfigure_palette_def render_palette_frame_def replica_frame_def full_cache_def Let_def
        split: if_splits sum.splits)
qed

end
