(* ===== verification/Reply_Queue.thy ===== *)
theory Reply_Queue
  imports Prelude
begin

text \<open>
  The queue of terminal replies (\<open>ghosttea/src/session/replies.rs\<close>): producers take a ticket
  under the model lock and send later, in ticket order; one writer takes batches. The mutex makes
  every operation atomic and the condition variable makes a waiting thread retry, so a thread
  runs when the loop condition it waits on is false, and runs of the queue are the interleavings
  of these atomic operations.
\<close>

definition DRAIN_CAP_BYTES :: nat where "DRAIN_CAP_BYTES = 64 * 1024"

record reply_queue =
  rq_pending :: "bytes option"
  rq_next_ticket :: u64
  rq_next_send :: u64
  rq_draining :: bool
  rq_overflowed :: bool
  rq_closed :: bool

record reply =
  rl_ticket :: u64
  rl_bytes :: bytes

datatype sent = Queued | SentClosed | Dropped nat bool

definition empty_queue :: reply_queue where
  "empty_queue = \<lparr>rq_pending = None, rq_next_ticket = 0, rq_next_send = 0, rq_draining = False,
     rq_overflowed = False, rq_closed = False\<rparr>"

text \<open>\<open>None\<close> is the panic of an exhausted ticket counter.\<close>

definition prepare_reply :: "bytes \<Rightarrow> reply_queue \<Rightarrow> (reply \<times> reply_queue) option" where
  "prepare_reply bs q =
     (if rq_next_ticket q = - 1 then None
      else Some (\<lparr>rl_ticket = rq_next_ticket q, rl_bytes = bs\<rparr>, q\<lparr>rq_next_ticket := rq_next_ticket q + 1\<rparr>))"

text \<open>The condition on which \<open>send\<close> waits, and what it does once it is false.\<close>

definition send_waits :: "reply_queue \<Rightarrow> reply \<Rightarrow> bool" where
  "send_waits q r \<longleftrightarrow> \<not> rq_closed q
     \<and> (rl_ticket r \<noteq> rq_next_send q \<or> \<not> rq_draining q \<and> rq_pending q \<noteq> None)"

definition send_reply :: "reply \<Rightarrow> reply_queue \<Rightarrow> sent \<times> reply_queue" where
  "send_reply r q =
     (if rq_closed q then (SentClosed, q)
      else let q = q\<lparr>rq_next_send := rq_next_send q + 1\<rparr>
      in case rq_pending q of
           None \<Rightarrow> (Queued, q\<lparr>rq_pending := Some (rl_bytes r)\<rparr>)
         | Some held \<Rightarrow>
             if rq_overflowed q then (Dropped (length (rl_bytes r)) False, q)
             else if length held + length (rl_bytes r) \<le> DRAIN_CAP_BYTES
                  then (Queued, q\<lparr>rq_pending := Some (held @ rl_bytes r)\<rparr>)
                  else (Dropped (length (rl_bytes r)) True, q\<lparr>rq_overflowed := True\<rparr>))"

definition recv_waits :: "reply_queue \<Rightarrow> bool" where
  "recv_waits q \<longleftrightarrow> \<not> rq_closed q \<and> rq_pending q = None"

definition recv_batch :: "reply_queue \<Rightarrow> bytes option \<times> reply_queue" where
  "recv_batch q = (rq_pending q, q\<lparr>rq_pending := None, rq_overflowed := False\<rparr>)"

definition stop_waiting :: "reply_queue \<Rightarrow> reply_queue" where
  "stop_waiting q = q\<lparr>rq_draining := True\<rparr>"

definition close_queue :: "reply_queue \<Rightarrow> reply_queue" where
  "close_queue q = q\<lparr>rq_closed := True\<rparr>"

section \<open>Interleavings\<close>

text \<open>
  A run of the queue: the replies whose \<open>send\<close> has not returned, what the finished sends
  returned, and the batches the writer got, each with the replies it is made of.
\<close>

record reply_run =
  rr_queue :: reply_queue
  rr_waiting :: "reply list"
  rr_results :: "(reply \<times> sent) list"
  rr_held :: "reply list"
  rr_batches :: "(reply list \<times> bytes) list"

definition initial_run :: reply_run where
  "initial_run = \<lparr>rr_queue = empty_queue, rr_waiting = [], rr_results = [], rr_held = [], rr_batches = []\<rparr>"

datatype queue_event = Prepare bytes | Send reply | Recv | Stop_Waiting | Close_Queue

definition after_send :: "reply \<Rightarrow> reply_run \<Rightarrow> reply_run" where
  "after_send r s = (let (outcome, q) = send_reply r (rr_queue s) in
     s\<lparr>rr_queue := q, rr_waiting := remove1 r (rr_waiting s), rr_results := rr_results s @ [(r, outcome)],
       rr_held := rr_held s @ (if outcome = Queued then [r] else [])\<rparr>)"

definition after_recv :: "reply_run \<Rightarrow> reply_run" where
  "after_recv s = (let (batch, q) = recv_batch (rr_queue s) in
     s\<lparr>rr_queue := q, rr_held := [],
       rr_batches := rr_batches s @ (case batch of None \<Rightarrow> [] | Some bs \<Rightarrow> [(rr_held s, bs)])\<rparr>)"

inductive queue_step :: "reply_run \<Rightarrow> queue_event \<Rightarrow> reply_run \<Rightarrow> bool" where
  prepare: "prepare_reply bs (rr_queue s) = Some (r, q) \<Longrightarrow>
     queue_step s (Prepare bs) (s\<lparr>rr_queue := q, rr_waiting := rr_waiting s @ [r]\<rparr>)"
| send: "r \<in> set (rr_waiting s) \<Longrightarrow> \<not> send_waits (rr_queue s) r \<Longrightarrow> queue_step s (Send r) (after_send r s)"
| recv: "\<not> recv_waits (rr_queue s) \<Longrightarrow> queue_step s Recv (after_recv s)"
| stop: "queue_step s Stop_Waiting (s\<lparr>rr_queue := stop_waiting (rr_queue s)\<rparr>)"
| close: "queue_step s Close_Queue (s\<lparr>rr_queue := close_queue (rr_queue s)\<rparr>)"

inductive queue_run :: "reply_run \<Rightarrow> queue_event list \<Rightarrow> reply_run \<Rightarrow> bool" where
  none: "queue_run s [] s"
| more: "queue_step s e t \<Longrightarrow> queue_run t es u \<Longrightarrow> queue_run s (e # es) u"

inductive_cases queue_stepE: "queue_step s e t"
inductive_simps queue_run_simps [simp]: "queue_run s [] u" "queue_run s (e # es) u"

lemma queue_run_append: "queue_run s xs t \<Longrightarrow> queue_run t ys u \<Longrightarrow> queue_run s (xs @ ys) u"
  by (induction rule: queue_run.induct) (simp_all only: append_Nil append_Cons queue_run.more)

text \<open>The same steps as a function, for evaluation.\<close>

fun queue_play :: "queue_event list \<Rightarrow> reply_run \<Rightarrow> reply_run option" where
  "queue_play [] s = Some s"
| "queue_play (Prepare bs # es) s = (case prepare_reply bs (rr_queue s) of
     None \<Rightarrow> None | Some (r, q) \<Rightarrow> queue_play es (s\<lparr>rr_queue := q, rr_waiting := rr_waiting s @ [r]\<rparr>))"
| "queue_play (Send r # es) s =
     (if r \<in> set (rr_waiting s) \<and> \<not> send_waits (rr_queue s) r then queue_play es (after_send r s) else None)"
| "queue_play (Recv # es) s = (if recv_waits (rr_queue s) then None else queue_play es (after_recv s))"
| "queue_play (Stop_Waiting # es) s = queue_play es (s\<lparr>rr_queue := stop_waiting (rr_queue s)\<rparr>)"
| "queue_play (Close_Queue # es) s = queue_play es (s\<lparr>rr_queue := close_queue (rr_queue s)\<rparr>)"

lemma queue_play_run: "queue_play es s = Some t \<Longrightarrow> queue_run s es t"
  by (induction es s rule: queue_play.induct)
    (auto split: option.splits if_splits simp del: queue_run_simps(2) intro: queue_run.intros queue_step.intros)

section \<open>The invariant\<close>

definition contiguous :: "reply list \<Rightarrow> nat \<Rightarrow> bool" where
  "contiguous rs k \<longleftrightarrow> length rs \<le> k \<and> map (\<lambda>r. unat (rl_ticket r)) rs = [k - length rs..<k]"

definition batch_ok :: "reply list \<times> bytes \<Rightarrow> bool" where
  "batch_ok b \<longleftrightarrow> fst b \<noteq> [] \<and> (\<exists>k. contiguous (fst b) k) \<and> snd b = concat (map rl_bytes (fst b))
     \<and> (length (snd b) \<le> DRAIN_CAP_BYTES \<or> length (fst b) = 1)"

definition taken :: "reply_run \<Rightarrow> reply list" where
  "taken s = map fst (filter (\<lambda>x. snd x \<noteq> SentClosed) (rr_results s))"

definition queued :: "reply_run \<Rightarrow> reply list" where
  "queued s = map fst (filter (\<lambda>x. snd x = Queued) (rr_results s))"

definition outcome_ok :: "bool \<Rightarrow> reply \<times> sent \<Rightarrow> bool" where
  "outcome_ok draining x \<longleftrightarrow> (case snd x of
     Dropped n began \<Rightarrow> draining \<and> n = length (rl_bytes (fst x)) | _ \<Rightarrow> True)"

definition tickets_ok :: "reply_run \<Rightarrow> bool" where
  "tickets_ok s \<longleftrightarrow> (let q = rr_queue s; ws = map (\<lambda>r. unat (rl_ticket r)) (rr_waiting s) in
     unat (rq_next_send q) \<le> unat (rq_next_ticket q) \<and> distinct ws
     \<and> set ws \<subseteq> {unat (rq_next_send q)..<unat (rq_next_ticket q)}
     \<and> (rq_closed q \<or> set ws = {unat (rq_next_send q)..<unat (rq_next_ticket q)})
     \<and> map (\<lambda>r. unat (rl_ticket r)) (taken s) = [0..<unat (rq_next_send q)])"

definition held_ok :: "reply_run \<Rightarrow> bool" where
  "held_ok s \<longleftrightarrow> (let q = rr_queue s; held = rr_held s in
     rq_pending q = (if held = [] then None else Some (concat (map rl_bytes held)))
     \<and> (rq_overflowed q \<longrightarrow> held \<noteq> [])
     \<and> (\<exists>k \<le> unat (rq_next_send q). contiguous held k \<and> (\<not> rq_overflowed q \<longrightarrow> held \<noteq> [] \<longrightarrow> k = unat (rq_next_send q)))
     \<and> (held = [] \<or> batch_ok (held, concat (map rl_bytes held))))"

definition history_ok :: "reply_run \<Rightarrow> bool" where
  "history_ok s \<longleftrightarrow> list_all batch_ok (rr_batches s) \<and> concat (map fst (rr_batches s)) @ rr_held s = queued s
     \<and> list_all (outcome_ok (rq_draining (rr_queue s))) (rr_results s)"

definition run_ok :: "reply_run \<Rightarrow> bool" where
  "run_ok s \<longleftrightarrow> tickets_ok s \<and> held_ok s \<and> history_ok s"


lemma run_ok_initial: "run_ok initial_run"
  by (simp add: run_ok_def tickets_ok_def held_ok_def history_ok_def initial_run_def empty_queue_def
      taken_def queued_def contiguous_def)

lemma unat_inc: "x \<noteq> - 1 \<Longrightarrow> unat (x + 1) = Suc (unat x)"
  for x :: u64
proof -
  assume "x \<noteq> - 1"
  then have "unat x < unat (- 1 :: u64)" by (metis less_max_word word_less_nat_alt)
  then show ?thesis by (simp add: unat_max_word unat_word_ariths)
qed

lemma contiguous_Nil [simp]: "contiguous [] k"
  by (simp add: contiguous_def)

lemma contiguous_snoc: "contiguous rs k \<Longrightarrow> unat (rl_ticket r) = k \<Longrightarrow> contiguous (rs @ [r]) (Suc k)"
  by (auto simp: contiguous_def Suc_diff_le)

lemma contiguous_single: "contiguous [r] (Suc (unat (rl_ticket r)))"
  using contiguous_snoc [of "[]"] by simp

lemma outcome_ok_draining: "list_all (outcome_ok d) xs \<Longrightarrow> list_all (outcome_ok True) xs"
  by (erule list.pred_mono_strong) (auto simp: outcome_ok_def split: sent.splits)

subsection \<open>A step at a time\<close>

lemma prepare_ok:
  assumes "run_ok s" and "prepare_reply bs (rr_queue s) = Some (r, q)"
  shows "run_ok (s\<lparr>rr_queue := q, rr_waiting := rr_waiting s @ [r]\<rparr>)"
proof -
  let ?q = "rr_queue s"
  have ne: "rq_next_ticket ?q \<noteq> - 1" and r: "rl_ticket r = rq_next_ticket ?q"
    and q: "q = ?q\<lparr>rq_next_ticket := rq_next_ticket ?q + 1\<rparr>"
    using assms(2) by (auto simp: prepare_reply_def split: if_splits)
  have inc: "unat (rq_next_ticket ?q + 1) = Suc (unat (rq_next_ticket ?q))" by (rule unat_inc [OF ne])
  show ?thesis
    using assms(1)
    by (auto simp: run_ok_def tickets_ok_def held_ok_def history_ok_def q r inc Let_def taken_def
        queued_def atLeastLessThanSuc)
qed

lemma recv_ok:
  assumes "run_ok s"
  shows "run_ok (after_recv s)"
  using assms
  by (auto simp: run_ok_def tickets_ok_def held_ok_def history_ok_def after_recv_def recv_batch_def
      Let_def taken_def queued_def split: if_splits)

lemma stop_ok: "run_ok s \<Longrightarrow> run_ok (s\<lparr>rr_queue := stop_waiting (rr_queue s)\<rparr>)"
  by (auto simp: run_ok_def tickets_ok_def held_ok_def history_ok_def stop_waiting_def Let_def
      taken_def queued_def dest: outcome_ok_draining)

lemma close_ok: "run_ok s \<Longrightarrow> run_ok (s\<lparr>rr_queue := close_queue (rr_queue s)\<rparr>)"
  by (auto simp: run_ok_def tickets_ok_def held_ok_def history_ok_def close_queue_def Let_def
      taken_def queued_def)

lemma send_closed_ok:
  assumes "run_ok s" and "rq_closed (rr_queue s)"
  shows "run_ok (after_send r s)"
  using assms
  by (auto simp: run_ok_def tickets_ok_def held_ok_def history_ok_def after_send_def send_reply_def
      Let_def taken_def queued_def outcome_ok_def distinct_map distinct_remove1 inj_on_def
      dest: notin_set_remove1 set_remove1_subset [THEN subsetD])


lemma send_reply_open:
  assumes "\<not> rq_closed q" and "\<not> send_waits q r"
  shows "rl_ticket r = rq_next_send q" "rq_pending q \<noteq> None \<longrightarrow> rq_draining q"
    "fst (send_reply r q) \<noteq> SentClosed"
    "rq_next_send (snd (send_reply r q)) = rq_next_send q + 1"
    "rq_next_ticket (snd (send_reply r q)) = rq_next_ticket q" "rq_closed (snd (send_reply r q)) = rq_closed q"
    "rq_draining (snd (send_reply r q)) = rq_draining q"
  using assms by (auto simp: send_waits_def send_reply_def Let_def split: option.splits)

lemma image_remove1:
  assumes "distinct (map f xs)" and "x \<in> set xs"
  shows "f ` set (remove1 x xs) = f ` set xs - {f x}" "distinct (map f (remove1 x xs))"
proof -
  have "distinct xs" "inj_on f (set xs)" using assms(1) by (simp_all add: distinct_map)
  then show "f ` set (remove1 x xs) = f ` set xs - {f x}"
    using assms(2) by (auto simp: inj_on_def)
  show "distinct (map f (remove1 x xs))"
    using \<open>distinct xs\<close> \<open>inj_on f (set xs)\<close> by (auto simp: distinct_map inj_on_def)
qed

lemma send_tickets_ok:
  assumes "tickets_ok s" and "r \<in> set (rr_waiting s)" and "\<not> rq_closed (rr_queue s)"
    and "\<not> send_waits (rr_queue s) r"
  shows "tickets_ok (after_send r s)" "rq_next_send (rr_queue s) \<noteq> - 1"
proof -
  let ?q = "rr_queue s" and ?f = "\<lambda>r. unat (rl_ticket r)"
  note open_facts = send_reply_open [OF assms(3,4)]
  have d: "distinct (map ?f (rr_waiting s))"
    and ws: "?f ` set (rr_waiting s) = {unat (rq_next_send ?q)..<unat (rq_next_ticket ?q)}"
    and tk: "map ?f (taken s) = [0..<unat (rq_next_send ?q)]"
    using assms(1,3) by (auto simp: tickets_ok_def Let_def)
  have lt: "unat (rq_next_send ?q) < unat (rq_next_ticket ?q)"
    using assms(2) ws open_facts(1) by (metis atLeastLessThan_iff imageI)
  then show ne: "rq_next_send ?q \<noteq> - 1"
    using unat_less_max [of "rq_next_ticket ?q"] by (auto simp: unat_max_word)
  have "?f ` set (remove1 r (rr_waiting s)) = {Suc (unat (rq_next_send ?q))..<unat (rq_next_ticket ?q)}"
    using image_remove1(1) [OF d assms(2)] ws open_facts(1) by auto
  moreover have "map ?f (taken s @ [r]) = [0..<Suc (unat (rq_next_send ?q))]"
    using tk open_facts(1) by simp
  moreover have "taken (after_send r s) = taken s @ [r]"
    using open_facts(3) by (simp add: taken_def after_send_def case_prod_beta Let_def)
  ultimately show "tickets_ok (after_send r s)"
    using image_remove1(2) [OF d assms(2)] lt open_facts(4,5)
    by (auto simp: tickets_ok_def Let_def after_send_def case_prod_beta unat_inc [OF ne])
qed

lemma batch_ok_snoc:
  assumes "contiguous held k" and "unat (rl_ticket r) = k"
    and "length (concat (map rl_bytes held)) + length (rl_bytes r) \<le> DRAIN_CAP_BYTES"
  shows "batch_ok (held @ [r], concat (map rl_bytes held) @ rl_bytes r)"
  using contiguous_snoc [OF assms(1,2)] assms(3) by (auto simp: batch_ok_def)

lemma send_held_ok:
  assumes "held_ok s" and "\<not> rq_closed (rr_queue s)" and "\<not> send_waits (rr_queue s) r"
    and "rq_next_send (rr_queue s) \<noteq> - 1"
  shows "held_ok (after_send r s)"
proof -
  let ?q = "rr_queue s"
  have t: "rl_ticket r = rq_next_send ?q" by (rule send_reply_open(1) [OF assms(2,3)])
  obtain k where p: "rq_pending ?q = (if rr_held s = [] then None else Some (concat (map rl_bytes (rr_held s))))"
    and o: "rq_overflowed ?q \<Longrightarrow> rr_held s \<noteq> []" and k: "k \<le> unat (rq_next_send ?q)" "contiguous (rr_held s) k"
    and kn: "\<not> rq_overflowed ?q \<Longrightarrow> rr_held s \<noteq> [] \<Longrightarrow> k = unat (rq_next_send ?q)"
    and b: "rr_held s = [] \<or> batch_ok (rr_held s, concat (map rl_bytes (rr_held s)))"
    using assms(1) by (auto simp: held_ok_def Let_def)
  note inc = unat_inc [OF assms(4)]
  consider (free) "rr_held s = []" | (over) "rr_held s \<noteq> []" "rq_overflowed ?q"
    | (fits) "rr_held s \<noteq> []" "\<not> rq_overflowed ?q"
        "length (concat (map rl_bytes (rr_held s))) + length (rl_bytes r) \<le> DRAIN_CAP_BYTES"
    | (full) "rr_held s \<noteq> []" "\<not> rq_overflowed ?q"
        "\<not> length (concat (map rl_bytes (rr_held s))) + length (rl_bytes r) \<le> DRAIN_CAP_BYTES"
    by blast
  then show ?thesis
  proof cases
    case free
    then have "send_reply r ?q = (Queued, ?q\<lparr>rq_next_send := rq_next_send ?q + 1, rq_pending := Some (rl_bytes r)\<rparr>)"
      using p assms(2) by (simp add: send_reply_def)
    with free contiguous_single [of r] t o show ?thesis
      by (auto simp: held_ok_def after_send_def batch_ok_def inc Let_def)
  next
    case over
    then have "send_reply r ?q = (Dropped (length (rl_bytes r)) False, ?q\<lparr>rq_next_send := rq_next_send ?q + 1\<rparr>)"
      using p assms(2) by (simp add: send_reply_def)
    with over k b p show ?thesis
      by (auto simp: held_ok_def after_send_def inc Let_def intro: le_SucI)
  next
    case fits
    then have "send_reply r ?q = (Queued, ?q\<lparr>rq_next_send := rq_next_send ?q + 1,
        rq_pending := Some (concat (map rl_bytes (rr_held s)) @ rl_bytes r)\<rparr>)"
      using p assms(2) by (simp add: send_reply_def)
    moreover have "contiguous (rr_held s @ [r]) (Suc k)" "k = unat (rq_next_send ?q)"
      using k kn fits t by (auto intro: contiguous_snoc)
    moreover have "batch_ok (rr_held s @ [r], concat (map rl_bytes (rr_held s)) @ rl_bytes r)"
      using k kn fits t by (auto intro: batch_ok_snoc)
    ultimately show ?thesis
      using fits by (auto simp: held_ok_def after_send_def inc Let_def)
  next
    case full
    then have "send_reply r ?q = (Dropped (length (rl_bytes r)) True,
        ?q\<lparr>rq_next_send := rq_next_send ?q + 1, rq_overflowed := True\<rparr>)"
      using p assms(2) by (simp add: send_reply_def)
    with full k b p show ?thesis
      by (auto simp: held_ok_def after_send_def inc Let_def intro: le_SucI)
  qed
qed

lemma send_history_ok:
  assumes "history_ok s" and "held_ok s" and "\<not> rq_closed (rr_queue s)" and "\<not> send_waits (rr_queue s) r"
  shows "history_ok (after_send r s)"
proof -
  have "outcome_ok (rq_draining (rr_queue s)) (r, fst (send_reply r (rr_queue s)))"
    using assms(3,4) send_reply_open(2) [OF assms(3,4)]
    by (auto simp: outcome_ok_def send_reply_def Let_def split: option.splits)
  with assms(1) send_reply_open(7) [OF assms(3,4)] show ?thesis
    by (auto simp: history_ok_def after_send_def Let_def case_prod_beta queued_def)
qed

lemma send_ok:
  assumes "run_ok s" and "r \<in> set (rr_waiting s)" and "\<not> send_waits (rr_queue s) r"
  shows "run_ok (after_send r s)"
proof (cases "rq_closed (rr_queue s)")
  case True
  with assms(1) show ?thesis by (rule send_closed_ok)
next
  case False
  with assms show ?thesis
    by (auto simp: run_ok_def intro: send_tickets_ok send_held_ok [OF _ _ _ send_tickets_ok(2)] send_history_ok)
qed

theorem run_ok_step: "queue_step s e t \<Longrightarrow> run_ok s \<Longrightarrow> run_ok t"
  by (erule queue_stepE) (simp_all add: prepare_ok send_ok recv_ok stop_ok close_ok)

lemma run_ok_run: "queue_run s es t \<Longrightarrow> run_ok s \<Longrightarrow> run_ok t"
  by (induction rule: queue_run.induct) (auto intro: run_ok_step)

subsection \<open>Nobody is stuck\<close>

definition is_delivery :: "queue_event \<Rightarrow> bool" where
  "is_delivery e \<longleftrightarrow> (case e of Send r \<Rightarrow> True | Recv \<Rightarrow> True | _ \<Rightarrow> False)"

lemma next_sender:
  assumes "run_ok s" and "rr_waiting s \<noteq> []" and "\<not> rq_closed (rr_queue s)"
  shows "\<exists>r \<in> set (rr_waiting s). rl_ticket r = rq_next_send (rr_queue s)"
proof -
  let ?q = "rr_queue s" and ?f = "\<lambda>r. unat (rl_ticket r)"
  have ws: "?f ` set (rr_waiting s) = {unat (rq_next_send ?q)..<unat (rq_next_ticket ?q)}"
    using assms(1,3) by (auto simp: run_ok_def tickets_ok_def Let_def)
  then have "{unat (rq_next_send ?q)..<unat (rq_next_ticket ?q)} \<noteq> {}"
    using assms(2) by (metis image_is_empty set_empty)
  then have "unat (rq_next_send ?q) \<in> ?f ` set (rr_waiting s)" by (simp add: ws)
  then obtain r where "r \<in> set (rr_waiting s)" "unat (rl_ticket r) = unat (rq_next_send ?q)" by (metis imageE)
  then show ?thesis by (auto simp: word_unat_eq_iff)
qed

lemma one_sender_finishes:
  assumes "run_ok s" and "rr_waiting s \<noteq> []"
  shows "\<exists>es t. queue_run s es t \<and> list_all is_delivery es \<and> length es \<le> 2
    \<and> length (rr_waiting t) < length (rr_waiting s)"
proof -
  have finish: "queue_run s [Send r] (after_send r s) \<and> length (rr_waiting (after_send r s)) < length (rr_waiting s)"
    if "r \<in> set (rr_waiting s)" "\<not> send_waits (rr_queue s) r" for r s
  proof
    show "queue_run s [Send r] (after_send r s)" using queue_step.send [OF that] by simp
    show "length (rr_waiting (after_send r s)) < length (rr_waiting s)"
      using length_pos_if_in_set [OF that(1)] that(1)
      by (simp add: after_send_def case_prod_beta Let_def length_remove1)
  qed
  show ?thesis
  proof (cases "rq_closed (rr_queue s)")
    case True
    then have "\<not> send_waits (rr_queue s) (hd (rr_waiting s))" by (simp add: send_waits_def)
    with finish [of "hd (rr_waiting s)" s] assms(2) show ?thesis
      by (intro exI [of _ "[Send (hd (rr_waiting s))]"] exI) (auto simp: is_delivery_def)
  next
    case False
    then obtain r where r: "r \<in> set (rr_waiting s)" "rl_ticket r = rq_next_send (rr_queue s)"
      using next_sender [OF assms] by blast
    show ?thesis
    proof (cases "send_waits (rr_queue s) r")
      case False
      with finish [OF r(1)] show ?thesis
        by (intro exI [of _ "[Send r]"] exI) (auto simp: is_delivery_def)
    next
      case True
      let ?s = "after_recv s"
      have recv: "\<not> recv_waits (rr_queue s)" using True r(2) by (auto simp: send_waits_def recv_waits_def)
      have same: "rr_waiting ?s = rr_waiting s" by (simp add: after_recv_def case_prod_beta Let_def)
      have "\<not> send_waits (rr_queue ?s) r"
        using r(2) by (simp add: send_waits_def after_recv_def recv_batch_def)
      with finish [of r ?s] r(1) same have "queue_run ?s [Send r] (after_send r ?s)"
        "length (rr_waiting (after_send r ?s)) < length (rr_waiting s)" by simp_all
      moreover have "queue_step s Recv ?s" by (rule queue_step.recv [OF recv])
      ultimately have "queue_run s [Recv, Send r] (after_send r ?s)" by (blast intro: queue_run.more)
      with \<open>length (rr_waiting (after_send r ?s)) < length (rr_waiting s)\<close> show ?thesis
        by (intro exI [of _ "[Recv, Send r]"] exI) (auto simp: is_delivery_def simp del: queue_run_simps)
    qed
  qed
qed

lemma all_senders_finish:
  assumes "run_ok s"
  shows "\<exists>es t. queue_run s es t \<and> list_all is_delivery es \<and> length es \<le> 2 * length (rr_waiting s)
    \<and> rr_waiting t = []"
  using assms
proof (induction "length (rr_waiting s)" arbitrary: s rule: less_induct)
  case less
  show ?case
  proof (cases "rr_waiting s = []")
    case True
    then show ?thesis by (intro exI [of _ "[]"] exI [of _ s]) simp
  next
    case False
    obtain xs t where xs: "queue_run s xs t" "list_all is_delivery xs" "length xs \<le> 2"
      "length (rr_waiting t) < length (rr_waiting s)"
      using one_sender_finishes [OF less.prems False] by blast
    obtain ys u where ys: "queue_run t ys u" "list_all is_delivery ys" "length ys \<le> 2 * length (rr_waiting t)"
      "rr_waiting u = []"
      using less.hyps [OF xs(4) run_ok_run [OF xs(1) less.prems]] by blast
    have "queue_run s (xs @ ys) u" by (rule queue_run_append [OF xs(1) ys(1)])
    moreover have "length (xs @ ys) \<le> 2 * length (rr_waiting s)" using xs(3,4) ys(3) by simp
    ultimately show ?thesis using xs(2) ys(2,4) by (intro exI [of _ "xs @ ys"] exI [of _ u]) simp
  qed
qed


subsection \<open>What the invariant says\<close>

lemma delivered_bytes:
  assumes "run_ok s"
  shows "concat (map snd (rr_batches s)) @ (case rq_pending (rr_queue s) of None \<Rightarrow> [] | Some bs \<Rightarrow> bs)
    = concat (map rl_bytes (queued s))"
proof -
  have "queued s = concat (map fst (rr_batches s)) @ rr_held s"
    and b: "list_all batch_ok (rr_batches s)"
    and p: "rq_pending (rr_queue s) = (if rr_held s = [] then None else Some (concat (map rl_bytes (rr_held s))))"
    using assms by (auto simp: run_ok_def history_ok_def held_ok_def Let_def)
  moreover have "concat (map snd bs) = concat (map rl_bytes (concat (map fst bs)))" if "list_all batch_ok bs" for bs
    using that by (induction bs) (auto simp: batch_ok_def)
  ultimately show ?thesis by simp
qed

lemma outcome_ok_False: "outcome_ok False x \<Longrightarrow> snd x \<noteq> SentClosed \<longleftrightarrow> snd x = Queued"
  by (cases "snd x") (auto simp: outcome_ok_def)

lemma nothing_dropped:
  assumes "run_ok s" and "\<not> rq_draining (rr_queue s)"
  shows "taken s = queued s"
proof -
  have "list_all (outcome_ok False) (rr_results s)"
    using assms by (auto simp: run_ok_def history_ok_def)
  then have "filter (\<lambda>x. snd x \<noteq> SentClosed) (rr_results s) = filter (\<lambda>x. snd x = Queued) (rr_results s)"
    by (intro filter_cong) (auto simp: list_all_iff outcome_ok_False)
  then show ?thesis by (simp add: taken_def queued_def)
qed

end
