(* ===== verification/Reply_Properties.thy ===== *)
theory Reply_Properties
  imports Reply_Queue
begin

text \<open>What the queue of terminal replies promises its producers and the PTY writer.\<close>

lemmas reply_eval = initial_run_def empty_queue_def prepare_reply_def after_send_def after_recv_def
  send_reply_def recv_batch_def send_waits_def recv_waits_def stop_waiting_def

definition out_of_order_run :: "queue_event list" where
  "out_of_order_run = [Prepare [1], Prepare [2, 3], Send \<lparr>rl_ticket = 0, rl_bytes = [1]\<rparr>, Recv,
     Send \<lparr>rl_ticket = 1, rl_bytes = [2, 3]\<rparr>]"

definition out_of_order_end :: reply_run where
  "out_of_order_end =
     \<lparr>rr_queue = \<lparr>rq_pending = Some [2, 3], rq_next_ticket = 2, rq_next_send = 2, rq_draining = False,
        rq_overflowed = False, rq_closed = False\<rparr>,
      rr_waiting = [],
      rr_results = [(\<lparr>rl_ticket = 0, rl_bytes = [1]\<rparr>, Queued), (\<lparr>rl_ticket = 1, rl_bytes = [2, 3]\<rparr>, Queued)],
      rr_held = [\<lparr>rl_ticket = 1, rl_bytes = [2, 3]\<rparr>],
      rr_batches = [([\<lparr>rl_ticket = 0, rl_bytes = [1]\<rparr>], [1])]\<rparr>"

lemma out_of_order_reached: "queue_run initial_run out_of_order_run out_of_order_end"
  by (rule queue_play_run) (simp add: out_of_order_run_def out_of_order_end_def reply_eval)

text \<open>C18. Whatever the interleaving of producers and writer, the batches the writer got and the one
  it will get next are the bytes of the replies reported as queued, in ticket order; every ticket
  handled so far was handled once and in order; a batch holds consecutive tickets (it never skips
  a reply and then carries a later one) and is at most 64 KiB unless it is a single reply; and as
  long as the queue is not draining, no reply was dropped.\<close>

theorem replies_in_order:
  assumes "queue_run initial_run es s"
  shows "concat (map snd (rr_batches s)) @ (case rq_pending (rr_queue s) of None \<Rightarrow> [] | Some bs \<Rightarrow> bs)
      = concat (map rl_bytes (queued s))
    \<and> map (\<lambda>r. unat (rl_ticket r)) (taken s) = [0..<unat (rq_next_send (rr_queue s))]
    \<and> list_all batch_ok (rr_batches s)
    \<and> (rq_draining (rr_queue s) \<or> taken s = queued s)"
proof -
  have ok: "run_ok s" by (rule run_ok_run [OF assms run_ok_initial])
  then show ?thesis
    using delivered_bytes [OF ok] nothing_dropped [OF ok]
    by (auto simp: run_ok_def tickets_ok_def history_ok_def Let_def)
qed

theorem replies_in_order_witness:
  "concat (map rl_bytes (queued out_of_order_end)) = [1, 2, 3]"
  using replies_in_order [OF out_of_order_reached] by (simp add: out_of_order_end_def)

text \<open>C35. No producer is parked for good: from every state the queue can reach, at most two steps
  per waiting reply (a \<open>send\<close> whose condition holds, or the writer taking the batch that blocks
  it) let every waiting \<open>send\<close> return, without anyone stopping or closing the queue.\<close>

theorem replies_never_stuck:
  assumes "queue_run initial_run es s"
  shows "\<exists>ds t. queue_run s ds t \<and> list_all is_delivery ds \<and> length ds \<le> 2 * length (rr_waiting s)
    \<and> rr_waiting t = []"
  by (rule all_senders_finish [OF run_ok_run [OF assms run_ok_initial]])

theorem replies_never_stuck_witness:
  "\<exists>ds t. queue_run out_of_order_end ds t \<and> list_all is_delivery ds \<and> rr_waiting t = []"
  using replies_never_stuck [OF out_of_order_reached] by blast

end
