(* ===== verification/Session_Tombstones.thy ===== *)
theory Session_Tombstones
  imports Step_Systems
begin

text \<open>
  The evidence of why sessions ended (\<open>ghosttea/src/session.rs\<close>, \<open>SessionTombstones\<close>): a cache
  of at most 128 causes, least recently used first, whose entries expire after 24 hours, beside
  the session registry that the single removal choke point empties. A session is known here by the
  two answers of the trait \<open>SessionEndEvidence\<close>. The clock is read by every operation; it is a
  wall clock, so nothing says that it grows.
\<close>

section \<open>Exit classification\<close>

datatype termination_source = User | Application | ServiceShutdown

datatype exit_outcome = Completed | Crashed | Signaled | UserTerminated | ApplicationTerminated
  | ServiceTerminated | UnknownOutcome

fun classify_exit :: "i32 option \<Rightarrow> string option \<Rightarrow> termination_source option \<Rightarrow> exit_outcome" where
  "classify_exit code signal (Some User) = UserTerminated"
| "classify_exit code signal (Some Application) = ApplicationTerminated"
| "classify_exit code signal (Some ServiceShutdown) = ServiceTerminated"
| "classify_exit code signal None =
     (if signal \<noteq> None then Signaled
      else if code = Some 0 then Completed
      else if code \<noteq> None then Crashed
      else UnknownOutcome)"

section \<open>Data\<close>

datatype end_cause = Exited "i32 option" | Closed

record tombstone =
  ts_cause :: end_cause
  ts_ended_at :: u64

datatype session_status = Live | Ended_As end_cause | Unknown_Session

record end_evidence =
  ev_exited :: bool
  ev_exit_code :: "i32 option"

record tombstone_entries =
  te_by_id :: "(string, tombstone) fmap"
  te_recency :: "string list"

definition TOMBSTONE_CAPACITY :: nat where "TOMBSTONE_CAPACITY = 128"
definition TOMBSTONE_TTL_MS :: u64 where "TOMBSTONE_TTL_MS = 24 * 60 * 60 * 1000"

definition no_tombstones :: tombstone_entries where
  "no_tombstones = \<lparr>te_by_id = fmempty, te_recency = []\<rparr>"

section \<open>Operations\<close>

definition fresh_at :: "u64 \<Rightarrow> tombstone \<Rightarrow> bool" where
  "fresh_at now t \<longleftrightarrow> sat_sub now (ts_ended_at t) < TOMBSTONE_TTL_MS"

definition expire_tombstones :: "u64 \<Rightarrow> tombstone_entries \<Rightarrow> tombstone_entries" where
  "expire_tombstones now e =
     (if fm_len (te_by_id e) = 0 then e
      else let by_id = fm_retain (\<lambda>_ t. fresh_at now t) (te_by_id e)
      in \<lparr>te_by_id = by_id, te_recency = filter (\<lambda>sid. fmlookup by_id sid \<noteq> None) (te_recency e)\<rparr>)"

text \<open>\<open>VecDeque::remove\<close> at the first position, then \<open>push_back\<close>.\<close>

definition touch :: "string \<Rightarrow> tombstone_entries \<Rightarrow> tombstone_entries" where
  "touch sid e =
     (if sid \<in> set (te_recency e) then e\<lparr>te_recency := remove1 sid (te_recency e) @ [sid]\<rparr> else e)"

definition lookup_tombstone :: "u64 \<Rightarrow> string \<Rightarrow> tombstone_entries \<Rightarrow> tombstone option \<times> tombstone_entries" where
  "lookup_tombstone now sid e =
     (let e = expire_tombstones now e in
      case fmlookup (te_by_id e) sid of
        None \<Rightarrow> (None, e)
      | Some t \<Rightarrow> (Some t, touch sid e))"

definition tombstone_count :: "u64 \<Rightarrow> tombstone_entries \<Rightarrow> nat \<times> tombstone_entries" where
  "tombstone_count now e = (let e = expire_tombstones now e in (fm_len (te_by_id e), e))"

fun evict :: "(string, tombstone) fmap \<Rightarrow> string list \<Rightarrow> tombstone_entries" where
  "evict by_id [] = \<lparr>te_by_id = by_id, te_recency = []\<rparr>"
| "evict by_id (sid # recency) =
     (if TOMBSTONE_CAPACITY < fm_len by_id then evict (fmdrop sid by_id) recency
      else \<lparr>te_by_id = by_id, te_recency = sid # recency\<rparr>)"

definition commit_tombstone :: "u64 \<Rightarrow> string \<Rightarrow> end_cause \<Rightarrow> tombstone_entries \<Rightarrow> tombstone_entries" where
  "commit_tombstone now sid cause e =
     (let e = expire_tombstones now e in
      if fmlookup (te_by_id e) sid \<noteq> None then e
      else evict (fmupd sid \<lparr>ts_cause = cause, ts_ended_at = now\<rparr> (te_by_id e)) (te_recency e @ [sid]))"

definition end_cause_of :: "end_evidence \<Rightarrow> end_cause" where
  "end_cause_of ev = (if ev_exited ev then Exited (ev_exit_code ev) else Closed)"

record session_registry =
  sr_sessions :: "(string, end_evidence) fmap"
  sr_tombstones :: tombstone_entries

definition remove_with_cause :: "u64 \<Rightarrow> string \<Rightarrow> session_registry \<Rightarrow> end_evidence option \<times> session_registry" where
  "remove_with_cause now sid r =
     (case fmlookup (sr_sessions r) sid of
        None \<Rightarrow> (None, r)
      | Some removed \<Rightarrow>
          (Some removed,
           \<lparr>sr_sessions = fmdrop sid (sr_sessions r),
            sr_tombstones = commit_tombstone now sid (end_cause_of removed) (sr_tombstones r)\<rparr>))"

definition status_for :: "u64 \<Rightarrow> string \<Rightarrow> session_registry \<Rightarrow> session_status \<times> session_registry" where
  "status_for now sid r =
     (if fmlookup (sr_sessions r) sid \<noteq> None then (Live, r)
      else case lookup_tombstone now sid (sr_tombstones r) of
        (Some t, e) \<Rightarrow> (Ended_As (ts_cause t), r\<lparr>sr_tombstones := e\<rparr>)
      | (None, e) \<Rightarrow> (Unknown_Session, r\<lparr>sr_tombstones := e\<rparr>))"

section \<open>The abstract cache\<close>

text \<open>What the map and the deque are together: one list, least recently used first.\<close>

type_synonym lru = "(string \<times> tombstone) list"

definition lru_expire :: "u64 \<Rightarrow> lru \<Rightarrow> lru" where
  "lru_expire now l = filter (\<lambda>x. fresh_at now (snd x)) l"

definition lru_lookup :: "u64 \<Rightarrow> string \<Rightarrow> lru \<Rightarrow> tombstone option \<times> lru" where
  "lru_lookup now sid l =
     (let l = lru_expire now l in
      case map_of l sid of
        None \<Rightarrow> (None, l)
      | Some t \<Rightarrow> (Some t, filter (\<lambda>x. fst x \<noteq> sid) l @ [(sid, t)]))"

definition lru_commit :: "u64 \<Rightarrow> string \<Rightarrow> end_cause \<Rightarrow> lru \<Rightarrow> lru" where
  "lru_commit now sid cause l =
     (let l = lru_expire now l in
      if map_of l sid \<noteq> None then l
      else drop (Suc (length l) - TOMBSTONE_CAPACITY) (l @ [(sid, \<lparr>ts_cause = cause, ts_ended_at = now\<rparr>)]))"

definition tombstones_wf :: "tombstone_entries \<Rightarrow> bool" where
  "tombstones_wf e \<longleftrightarrow> distinct (te_recency e) \<and> set (te_recency e) = fset (fmdom (te_by_id e))
     \<and> fm_len (te_by_id e) \<le> TOMBSTONE_CAPACITY"

definition lru_of :: "tombstone_entries \<Rightarrow> lru" where
  "lru_of e = map (\<lambda>sid. (sid, the (fmlookup (te_by_id e) sid))) (te_recency e)"

datatype tombstone_op = Commit_End string end_cause | Lookup_End string | Count_Ends

datatype tombstone_answer = No_Answer | Found "tombstone option" | Count nat

definition tombstone_step :: "u64 \<times> tombstone_op \<Rightarrow> tombstone_entries \<Rightarrow> tombstone_answer \<times> tombstone_entries" where
  "tombstone_step x e = (case x of
     (now, Commit_End sid cause) \<Rightarrow> (No_Answer, commit_tombstone now sid cause e)
   | (now, Lookup_End sid) \<Rightarrow> (let (t, e) = lookup_tombstone now sid e in (Found t, e))
   | (now, Count_Ends) \<Rightarrow> (let (n, e) = tombstone_count now e in (Count n, e)))"

definition lru_step :: "u64 \<times> tombstone_op \<Rightarrow> lru \<Rightarrow> tombstone_answer \<times> lru" where
  "lru_step x l = (case x of
     (now, Commit_End sid cause) \<Rightarrow> (No_Answer, lru_commit now sid cause l)
   | (now, Lookup_End sid) \<Rightarrow> (let (t, l) = lru_lookup now sid l in (Found t, l))
   | (now, Count_Ends) \<Rightarrow> (let l = lru_expire now l in (Count (length l), l)))"

section \<open>The cache implements its specification\<close>

definition indexed :: "(string, tombstone) fmap \<Rightarrow> string list \<Rightarrow> bool" where
  "indexed m rs \<longleftrightarrow> distinct rs \<and> set rs = fset (fmdom m)"

lemma tombstones_wf_indexed:
  "tombstones_wf e \<longleftrightarrow> indexed (te_by_id e) (te_recency e) \<and> fm_len (te_by_id e) \<le> TOMBSTONE_CAPACITY"
  by (simp add: tombstones_wf_def indexed_def)

lemma indexed_len: "indexed m rs \<Longrightarrow> fm_len m = length rs"
  by (metis indexed_def distinct_card fcard.rep_eq fm_len_def)

lemma indexed_mem: "indexed m rs \<Longrightarrow> sid \<in> set rs \<longleftrightarrow> fmlookup m sid \<noteq> None"
  by (auto simp: indexed_def fmlookup_dom_iff)

lemma lru_of_keys [simp]: "map fst (lru_of e) = te_recency e"
  by (simp add: lru_of_def comp_def)

lemma length_lru_of [simp]: "length (lru_of e) = length (te_recency e)"
  by (simp add: lru_of_def)

lemma map_of_keyed: "map_of (map (\<lambda>k. (k, f k)) ks) k = (if k \<in> set ks then Some (f k) else None)"
  by (induction ks) auto

lemma map_of_lru: "tombstones_wf e \<Longrightarrow> map_of (lru_of e) sid = fmlookup (te_by_id e) sid"
  using indexed_mem [of "te_by_id e" "te_recency e" sid]
  by (auto simp: lru_of_def map_of_keyed tombstones_wf_indexed)

lemma expire_refines:
  assumes "tombstones_wf e"
  shows "tombstones_wf (expire_tombstones now e)" "lru_of (expire_tombstones now e) = lru_expire now (lru_of e)"
proof -
  let ?m = "fm_retain (\<lambda>_ t. fresh_at now t) (te_by_id e)"
  let ?rs = "filter (\<lambda>sid. fmlookup ?m sid \<noteq> None) (te_recency e)"
  have i: "indexed (te_by_id e) (te_recency e)" and cap: "fm_len (te_by_id e) \<le> TOMBSTONE_CAPACITY"
    using assms by (simp_all add: tombstones_wf_indexed)
  have "tombstones_wf \<lparr>te_by_id = ?m, te_recency = ?rs\<rparr>"
    using i cap fm_len_retain_le [of _ "te_by_id e"]
    by (auto simp: tombstones_wf_indexed indexed_def fmlookup_dom_iff intro: order_trans split: option.splits if_splits)
  moreover have "lru_of \<lparr>te_by_id = ?m, te_recency = ?rs\<rparr> = lru_expire now (lru_of e)"
  proof -
    have "fmlookup ?m sid \<noteq> None \<longleftrightarrow> fresh_at now (the (fmlookup (te_by_id e) sid))"
      if "sid \<in> set (te_recency e)" for sid
      using that indexed_mem [OF i] by (auto split: option.splits)
    then have "?rs = filter (\<lambda>sid. fresh_at now (the (fmlookup (te_by_id e) sid))) (te_recency e)"
      by (intro filter_cong) auto
    moreover have "fmlookup ?m sid = fmlookup (te_by_id e) sid" if "sid \<in> set ?rs" for sid
      using that by (auto split: option.splits if_splits)
    ultimately show ?thesis
      by (simp add: lru_of_def lru_expire_def filter_map comp_def)
  qed
  moreover have "fm_len (te_by_id e) = 0 \<Longrightarrow> lru_of e = []"
    using indexed_len [OF i] by (simp add: lru_of_def)
  ultimately show "tombstones_wf (expire_tombstones now e)" "lru_of (expire_tombstones now e) = lru_expire now (lru_of e)"
    using assms by (auto simp: expire_tombstones_def Let_def lru_expire_def)
qed

lemma touch_refines:
  assumes "tombstones_wf e" and "fmlookup (te_by_id e) sid = Some t"
  shows "tombstones_wf (touch sid e)" "lru_of (touch sid e) = filter (\<lambda>x. fst x \<noteq> sid) (lru_of e) @ [(sid, t)]"
proof -
  have d: "distinct (te_recency e)" and m: "sid \<in> set (te_recency e)"
    using assms indexed_mem [of "te_by_id e" "te_recency e" sid]
    by (auto simp: tombstones_wf_indexed indexed_def)
  then show "tombstones_wf (touch sid e)"
    using assms(1) by (auto simp: tombstones_wf_indexed indexed_def touch_def)
  have "remove1 sid (te_recency e) = filter (\<lambda>x. x \<noteq> sid) (te_recency e)"
    using distinct_remove1_removeAll [OF d] by (simp add: removeAll_filter_not_eq eq_commute)
  with m assms(2) show "lru_of (touch sid e) = filter (\<lambda>x. fst x \<noteq> sid) (lru_of e) @ [(sid, t)]"
    by (simp add: touch_def lru_of_def filter_map comp_def)
qed

lemma evict_refines:
  assumes "indexed m rs"
  shows "tombstones_wf (evict m rs)"
    "lru_of (evict m rs) = drop (length rs - TOMBSTONE_CAPACITY) (lru_of \<lparr>te_by_id = m, te_recency = rs\<rparr>)"
proof -
  have "tombstones_wf (evict m rs) \<and>
    lru_of (evict m rs) = drop (length rs - TOMBSTONE_CAPACITY) (lru_of \<lparr>te_by_id = m, te_recency = rs\<rparr>)"
    using assms
  proof (induction rs arbitrary: m)
    case Nil
    then show ?case by (simp add: tombstones_wf_indexed indexed_len)
  next
    case (Cons sid rs)
    have len: "fm_len m = Suc (length rs)" using indexed_len [OF Cons.prems] by simp
    show ?case
    proof (cases "TOMBSTONE_CAPACITY < fm_len m")
      case True
      have i: "indexed (fmdrop sid m) rs" and "sid \<notin> set rs"
        using Cons.prems by (auto simp: indexed_def)
      then have "lru_of \<lparr>te_by_id = fmdrop sid m, te_recency = rs\<rparr> = lru_of \<lparr>te_by_id = m, te_recency = rs\<rparr>"
        by (auto simp: lru_of_def)
      moreover have "lru_of \<lparr>te_by_id = m, te_recency = sid # rs\<rparr>
          = (sid, the (fmlookup m sid)) # lru_of \<lparr>te_by_id = m, te_recency = rs\<rparr>"
        by (simp add: lru_of_def)
      ultimately show ?thesis using Cons.IH [OF i] True len by (simp add: Suc_diff_le)
    next
      case False
      with Cons.prems len show ?thesis by (simp add: tombstones_wf_indexed)
    qed
  qed
  then show "tombstones_wf (evict m rs)"
    "lru_of (evict m rs) = drop (length rs - TOMBSTONE_CAPACITY) (lru_of \<lparr>te_by_id = m, te_recency = rs\<rparr>)"
    by simp_all
qed

lemma commit_refines:
  assumes "tombstones_wf e"
  shows "tombstones_wf (commit_tombstone now sid cause e)"
    "lru_of (commit_tombstone now sid cause e) = lru_commit now sid cause (lru_of e)"
proof -
  define e' where "e' = expire_tombstones now e"
  define t where "t = \<lparr>ts_cause = cause, ts_ended_at = now\<rparr>"
  have wf: "tombstones_wf e'" and l: "lru_of e' = lru_expire now (lru_of e)"
    using expire_refines [OF assms] by (simp_all add: e'_def)
  have c: "commit_tombstone now sid cause e = (if fmlookup (te_by_id e') sid \<noteq> None then e'
      else evict (fmupd sid t (te_by_id e')) (te_recency e' @ [sid]))"
    by (simp add: commit_tombstone_def e'_def t_def Let_def)
  have s: "lru_commit now sid cause (lru_of e) = (if map_of (lru_of e') sid \<noteq> None then lru_of e'
      else drop (Suc (length (lru_of e')) - TOMBSTONE_CAPACITY) (lru_of e' @ [(sid, t)]))"
    by (simp add: lru_commit_def l t_def Let_def)
  note known = map_of_lru [OF wf, of sid]
  have "indexed (fmupd sid t (te_by_id e')) (te_recency e' @ [sid])"
    and "lru_of \<lparr>te_by_id = fmupd sid t (te_by_id e'), te_recency = te_recency e' @ [sid]\<rparr> = lru_of e' @ [(sid, t)]"
    if "fmlookup (te_by_id e') sid = None"
    using that wf indexed_mem [of "te_by_id e'" "te_recency e'" sid]
    by (auto simp: tombstones_wf_indexed indexed_def lru_of_def)
  with c s wf known show "tombstones_wf (commit_tombstone now sid cause e)"
    "lru_of (commit_tombstone now sid cause e) = lru_commit now sid cause (lru_of e)"
    using evict_refines [of "fmupd sid t (te_by_id e')" "te_recency e' @ [sid]"] by auto
qed

lemma lookup_refines:
  assumes "tombstones_wf e"
  shows "tombstones_wf (snd (lookup_tombstone now sid e))"
    "lru_lookup now sid (lru_of e) = (fst (lookup_tombstone now sid e), lru_of (snd (lookup_tombstone now sid e)))"
proof -
  define e' where "e' = expire_tombstones now e"
  have wf: "tombstones_wf e'" and l: "lru_of e' = lru_expire now (lru_of e)"
    using expire_refines [OF assms] by (simp_all add: e'_def)
  have c: "lookup_tombstone now sid e = (case fmlookup (te_by_id e') sid of
      None \<Rightarrow> (None, e') | Some t \<Rightarrow> (Some t, touch sid e'))"
    by (simp add: lookup_tombstone_def e'_def Let_def split: option.split)
  show "tombstones_wf (snd (lookup_tombstone now sid e))"
    "lru_lookup now sid (lru_of e) = (fst (lookup_tombstone now sid e), lru_of (snd (lookup_tombstone now sid e)))"
    using wf touch_refines [OF wf, of sid]
    by (auto simp: c lru_lookup_def Let_def l [symmetric] map_of_lru [OF wf] split: option.splits)
qed

lemma tombstones_wf_empty: "tombstones_wf no_tombstones"
  by (simp add: tombstones_wf_def no_tombstones_def)

lemma lru_of_empty [simp]: "lru_of no_tombstones = []"
  by (simp add: lru_of_def no_tombstones_def)

interpretation tombstones: refined_system tombstone_step lru_step tombstones_wf lru_of
proof
  fix x :: "u64 \<times> tombstone_op" and e :: tombstone_entries
  assume wf: "tombstones_wf e"
  obtain now ev where x: "x = (now, ev)" by (cases x)
  show "tombstones_wf (snd (tombstone_step x e))"
    by (cases ev) (simp_all add: x tombstone_step_def wf case_prod_beta Let_def tombstone_count_def
        commit_refines(1) lookup_refines(1) expire_refines(1))
  have "fm_len (te_by_id (expire_tombstones now e)) = length (lru_of (expire_tombstones now e))"
    using indexed_len expire_refines(1) [OF wf] by (auto simp: tombstones_wf_indexed)
  then show "lru_step x (lru_of e) = (fst (tombstone_step x e), lru_of (snd (tombstone_step x e)))"
    by (cases ev) (simp_all add: x tombstone_step_def lru_step_def case_prod_beta Let_def tombstone_count_def
        commit_refines(2) [OF wf] lookup_refines(2) [OF wf] expire_refines(2) [OF wf])
qed

end
