(* ===== verification/Tombstone_Properties.thy ===== *)
theory Tombstone_Properties
  imports Session_Tombstones
begin

text \<open>
  What a host says of the sessions it no longer runs: runs of the registry and its tombstones,
  over any readings of the clock.
\<close>

text \<open>
  Sessions begin under an identifier, the evidence of their exit changes, they are removed through
  the choke point and viewers ask for their status; every operation reads the clock.
\<close>

datatype registry_op = Begin string end_evidence | Observe string end_evidence | Remove string | Ask string

definition registry_step :: "u64 \<times> registry_op \<Rightarrow> session_registry \<Rightarrow> session_registry" where
  "registry_step x r = (case x of
     (now, Begin sid ev) \<Rightarrow> r\<lparr>sr_sessions := fmupd sid ev (sr_sessions r)\<rparr>
   | (now, Observe sid ev) \<Rightarrow>
       (if fmlookup (sr_sessions r) sid = None then r else r\<lparr>sr_sessions := fmupd sid ev (sr_sessions r)\<rparr>)
   | (now, Remove sid) \<Rightarrow> snd (remove_with_cause now sid r)
   | (now, Ask sid) \<Rightarrow> snd (status_for now sid r))"

abbreviation registry_run :: "(u64 \<times> registry_op) list \<Rightarrow> session_registry \<Rightarrow> session_registry" where
  "registry_run xs r \<equiv> fold registry_step xs r"

definition new_registry :: session_registry where
  "new_registry = \<lparr>sr_sessions = fmempty, sr_tombstones = no_tombstones\<rparr>"

text \<open>The removals of a run that took a session out, each with what it observed and when.\<close>

definition removal :: "u64 \<times> registry_op \<Rightarrow> session_registry \<Rightarrow> (string \<times> tombstone) list" where
  "removal x r = (case x of
     (now, Remove sid) \<Rightarrow> (case fmlookup (sr_sessions r) sid of
        None \<Rightarrow> []
      | Some ev \<Rightarrow> [(sid, \<lparr>ts_cause = if ev_exited ev then Exited (ev_exit_code ev) else Closed, ts_ended_at = now\<rparr>)])
   | _ \<Rightarrow> [])"

fun removals :: "(u64 \<times> registry_op) list \<Rightarrow> session_registry \<Rightarrow> (string \<times> tombstone) list" where
  "removals [] r = []"
| "removals (x # xs) r = removal x r @ removals xs (registry_step x r)"

section \<open>What an operation does to the causes kept\<close>

lemma expire_causes:
  "fmlookup (te_by_id (expire_tombstones now e)) k = Some t \<Longrightarrow> fmlookup (te_by_id e) k = Some t \<and> fresh_at now t"
  by (auto simp: expire_tombstones_def Let_def fm_len_0 split: if_splits option.splits)

lemma lookup_causes:
  "te_by_id (snd (lookup_tombstone now sid e)) = te_by_id (expire_tombstones now e)"
  "fst (lookup_tombstone now sid e) = fmlookup (te_by_id (expire_tombstones now e)) sid"
  by (auto simp: lookup_tombstone_def touch_def Let_def split: option.splits)

lemma evict_causes: "fmlookup (te_by_id (evict m rs)) k = Some t \<Longrightarrow> fmlookup m k = Some t"
  by (induction m rs rule: evict.induct) (auto split: if_splits)

lemma commit_causes:
  "fmlookup (te_by_id (commit_tombstone now sid cause e)) k = Some t \<Longrightarrow>
    fmlookup (te_by_id e) k = Some t \<or> k = sid \<and> t = \<lparr>ts_cause = cause, ts_ended_at = now\<rparr>"
  by (auto simp: commit_tombstone_def Let_def dest!: evict_causes expire_causes split: if_splits)

lemma status_causes:
  "fmlookup (te_by_id (sr_tombstones (snd (status_for now sid r)))) k = Some t \<Longrightarrow>
    fmlookup (te_by_id (sr_tombstones r)) k = Some t"
  using lookup_causes [of now sid "sr_tombstones r"]
  by (auto simp: status_for_def dest: expire_causes split: if_splits prod.splits option.splits)

lemma status_sessions [simp]: "sr_sessions (snd (status_for now sid r)) = sr_sessions r"
  by (auto simp: status_for_def split: prod.splits option.splits)

lemma step_causes:
  assumes "fmlookup (te_by_id (sr_tombstones (registry_step x r))) k = Some t"
  shows "fmlookup (te_by_id (sr_tombstones r)) k = Some t \<or> (k, t) \<in> set (removal x r)"
proof -
  obtain now ev where x: "x = (now, ev)" by (cases x)
  show ?thesis
    using assms
    by (cases ev) (auto simp: x registry_step_def removal_def remove_with_cause_def end_cause_of_def
        dest!: status_causes commit_causes split: if_splits option.splits)
qed

lemma run_causes:
  "fmlookup (te_by_id (sr_tombstones (registry_run xs r))) k = Some t \<Longrightarrow>
    fmlookup (te_by_id (sr_tombstones r)) k = Some t \<or> (k, t) \<in> set (removals xs r)"
proof (induction xs arbitrary: r)
  case Nil
  then show ?case by simp
next
  case (Cons x xs)
  from Cons.IH [of "registry_step x r"] Cons.prems step_causes [of x r k t] show ?case by auto
qed

lemma status_cases:
  "fst (status_for now sid r) =
    (if fmlookup (sr_sessions r) sid \<noteq> None then Live
     else case fmlookup (te_by_id (expire_tombstones now (sr_tombstones r))) sid of
       Some t \<Rightarrow> Ended_As (ts_cause t) | None \<Rightarrow> Unknown_Session)"
  using lookup_causes(2) [of now sid "sr_tombstones r"]
  by (auto simp: status_for_def split: prod.splits option.splits)

section \<open>A session that is gone\<close>

definition begins :: "string \<Rightarrow> u64 \<times> registry_op \<Rightarrow> bool" where
  "begins sid x \<longleftrightarrow> (case snd x of Begin k _ \<Rightarrow> k = sid | _ \<Rightarrow> False)"

definition gone_with :: "string \<Rightarrow> tombstone option \<Rightarrow> session_registry \<Rightarrow> bool" where
  "gone_with sid verdict r \<longleftrightarrow> fmlookup (sr_sessions r) sid = None
     \<and> fmlookup (te_by_id (sr_tombstones r)) sid \<in> {verdict, None}"

lemma gone_step: "\<not> begins sid x \<Longrightarrow> gone_with sid verdict r \<Longrightarrow> gone_with sid verdict (registry_step x r)"
proof -
  assume nb: "\<not> begins sid x" and g: "gone_with sid verdict r"
  obtain now ev where x: "x = (now, ev)" by (cases x)
  have "fmlookup (sr_sessions (registry_step x r)) sid = None"
    using nb g by (cases ev)
      (auto simp: x begins_def gone_with_def registry_step_def remove_with_cause_def split: option.splits)
  moreover have "removal x r = [] \<or> fst (hd (removal x r)) \<noteq> sid"
    using g by (cases ev) (auto simp: x removal_def gone_with_def split: option.splits)
  then have "fmlookup (te_by_id (sr_tombstones (registry_step x r))) sid \<in> {verdict, None}"
    using g step_causes [of x r sid]
    by (cases "fmlookup (te_by_id (sr_tombstones (registry_step x r))) sid")
      (auto simp: gone_with_def removal_def split: prod.splits registry_op.splits option.splits)
  ultimately show ?thesis by (simp add: gone_with_def)
qed

interpretation gone_session: guarded_system registry_step "\<lambda>x. \<not> begins sid x" "gone_with sid verdict"
  for sid verdict
  by unfold_locales (rule gone_step)

section \<open>The properties\<close>

definition evidence :: end_evidence where
  "evidence = \<lparr>ev_exited = True, ev_exit_code = Some 3\<rparr>"

definition short_life :: "(u64 \<times> registry_op) list" where
  "short_life = [(1, Begin ''a'' \<lparr>ev_exited = False, ev_exit_code = None\<rparr>), (2, Observe ''a'' evidence),
     (5, Remove ''a''), (6, Remove ''a'')]"

lemmas tombstone_eval = short_life_def evidence_def registry_step_def new_registry_def no_tombstones_def
  remove_with_cause_def commit_tombstone_def expire_tombstones_def end_cause_of_def fm_len_upd
  TOMBSTONE_CAPACITY_def TOMBSTONE_TTL_MS_def fresh_at_def sat_sub_def

lemma short_life_end:
  "registry_run short_life new_registry =
    \<lparr>sr_sessions = fmdrop ''a'' (fmupd ''a'' evidence (fmupd ''a'' \<lparr>ev_exited = False, ev_exit_code = None\<rparr> fmempty)),
     sr_tombstones = \<lparr>te_by_id = fmupd ''a'' \<lparr>ts_cause = Exited (Some 3), ts_ended_at = 5\<rparr> fmempty, te_recency = [''a'']\<rparr>\<rparr>"
  by (simp add: tombstone_eval)

text \<open>C12. A host that says a session ended says so from evidence: in every run from an empty registry
  the status is \<open>Live\<close> exactly when the session is listed, and \<open>Ended\<close> only with the cause some
  removal of that session recorded less than 24 hours before, which is the exit code when the
  process was known to have exited at that removal and \<open>Closed\<close> only when it was not.\<close>

theorem status_is_evidence:
  assumes "fst (status_for now sid (registry_run xs new_registry)) = status"
  shows "(status = Live \<longleftrightarrow> fmlookup (sr_sessions (registry_run xs new_registry)) sid \<noteq> None)
    \<and> (\<forall>cause. status = Ended_As cause \<longrightarrow>
         (\<exists>t. (sid, t) \<in> set (removals xs new_registry) \<and> ts_cause t = cause \<and> fresh_at now t))"
proof -
  let ?r = "registry_run xs new_registry"
  have "(sid, t) \<in> set (removals xs new_registry) \<and> fresh_at now t"
    if "fmlookup (te_by_id (expire_tombstones now (sr_tombstones ?r))) sid = Some t" for t
    using expire_causes [OF that] run_causes [of xs new_registry sid t]
    by (auto simp: new_registry_def no_tombstones_def)
  with assms show ?thesis
    unfolding status_cases by (auto split: if_splits option.splits)
qed

theorem status_is_evidence_witness:
  "\<exists>t. (''a'', t) \<in> set (removals short_life new_registry) \<and> ts_cause t = Exited (Some 3) \<and> fresh_at 9 t"
proof -
  have "fst (status_for 9 ''a'' (registry_run short_life new_registry)) = Ended_As (Exited (Some 3))"
    unfolding status_cases short_life_end by (simp add: tombstone_eval)
  from status_is_evidence [OF this] show ?thesis by blast
qed

text \<open>C27. The verdict on a session is final: once it has left the registry, whatever operations follow
  (of any clock reading, further removals of the same identifier included) and as long as no
  session begins under its identifier, the status stays the verdict first given or falls back to
  \<open>Unknown\<close>. In particular \<open>Unknown\<close> is never upgraded and a second removal never rewrites a cause.\<close>

theorem verdict_is_final:
  assumes "fmlookup (sr_sessions r) sid = None" and "list_all (\<lambda>x. \<not> begins sid x) xs"
    and "fst (status_for now sid r) = verdict"
  shows "fst (status_for later sid (registry_run ((now, Ask sid) # xs) r)) \<in> {verdict, Unknown_Session}"
proof -
  define v where "v = fmlookup (te_by_id (expire_tombstones now (sr_tombstones r))) sid"
  have "gone_with sid v (registry_step (now, Ask sid) r)"
    using assms(1) lookup_causes(1) [of now sid "sr_tombstones r"]
    by (auto simp: gone_with_def registry_step_def status_for_def v_def split: prod.splits option.splits)
  then have g: "gone_with sid v (registry_run xs (registry_step (now, Ask sid) r))"
    by (rule gone_session.guarded_run [OF assms(2)])
  have "verdict = (case v of Some t \<Rightarrow> Ended_As (ts_cause t) | None \<Rightarrow> Unknown_Session)"
    using assms(1,3) by (simp add: status_cases v_def)
  moreover have "fmlookup (te_by_id (expire_tombstones later
      (sr_tombstones (registry_run xs (registry_step (now, Ask sid) r))))) sid \<in> {v, None}" (is "?kept \<in> _")
    using g by (cases ?kept) (auto simp: gone_with_def dest: expire_causes)
  ultimately show ?thesis
    using g by (auto simp: status_cases gone_with_def)
qed

theorem verdict_is_final_witness:
  "fst (status_for 99 ''a'' (registry_run [(9, Ask ''a''), (10, Remove ''a''), (11, Begin ''b'' evidence)]
     (registry_run short_life new_registry))) \<in> {Ended_As (Exited (Some 3)), Unknown_Session}"
proof (rule verdict_is_final)
  show "fmlookup (sr_sessions (registry_run short_life new_registry)) ''a'' = None"
    by (simp add: short_life_end)
  show "list_all (\<lambda>x. \<not> begins ''a'' x) [(10, Remove ''a''), (11, Begin ''b'' evidence)]"
    by (simp add: begins_def)
  show "fst (status_for 9 ''a'' (registry_run short_life new_registry)) = Ended_As (Exited (Some 3))"
    unfolding status_cases short_life_end by (simp add: tombstone_eval)
qed

text \<open>C38. The map and the deque together are a least-recently-used cache of at most 128 causes: over
  every sequence of commits, lookups and counts, at any clock readings, the answers are those of
  one list ordered by last use, from which expired entries are filtered and the front is dropped
  past the capacity; the identifiers in the deque are then exactly the keys of the map, each once.\<close>

theorem tombstones_are_lru:
  "fst (answers tombstone_step xs no_tombstones) = fst (answers lru_step xs [])
    \<and> tombstones_wf (snd (answers tombstone_step xs no_tombstones))"
  using tombstones.answers_agree [OF tombstones_wf_empty, of xs]
    tombstones.steps.inv_run [OF tombstones_wf_empty, of xs]
  by (simp add: snd_answers)

end
