(* ===== verification/Session_Resume.thy ===== *)
theory Session_Resume
  imports Session_Lifecycle Compact_Codec
begin

text \<open>
  Attaching views and resuming a remote session (\<open>ghosttea-truffle/src/lib.rs\<close>): one attach
  attempt, the election loop that brings a session back around its feed, the resume handshake,
  the manual retry and the promotion of a feed. Everything an operation awaits is an answer in its
  environment record, together with what other tasks did to the session meanwhile; everything it
  does to the session is a lifecycle operation or a change of the session's views, and everything
  it does elsewhere is an effect in order. The mutex \<open>attempts\<close> serializes these operations with
  each other, not with the other tasks. An \<open>anyhow::Error\<close> is its text, and a fixed word where
  the text is that of a library's error.
\<close>

section \<open>Data\<close>

datatype attach_failure =
    AttachEnded ended_reason
  | AttachFailed string
  | AttachSuperseded
  | AttachViewInvalid string
  | AttachRejected string

record mesh_host =
  mh_instance_id :: string
  mh_incarnation :: u64
  mh_protocol_minor :: u16

record remote_view =
  rem_attachment_epoch :: u64
  rem_read_write :: bool
  rem_wire_view_id :: string
  rem_state_generation :: u64
  rem_incarnation :: u64
  rem_feed :: bool

record attach_request =
  ar_session_id :: string
  ar_view_id :: string
  ar_access_token :: "string option"
  ar_cols :: u16
  ar_rows :: u16
  ar_attach_generation :: u64
  ar_resume :: "resume_hint_rec option"
  ar_wants_state :: bool

record attach_outcome =
  ao_attachment_epoch :: u64
  ao_read_write :: bool
  ao_synchronized :: bool \<comment> \<open>the watch channel's value when the attempt returns\<close>

record session_listing =
  sl_session_id :: string
  sl_running :: bool
  sl_attachable :: bool

datatype status_kind = StatusLive | StatusEnded session_end_reason | StatusUnknown

text \<open>What a session needs to know of itself when it attaches a view.\<close>

record remote_session =
  rs_remote_session_id :: string
  rs_access_token :: "string option"
  rs_cols :: u16
  rs_rows :: u16
  rs_terminal_revision :: u64
  rs_zombie_purge :: bool

datatype mesh_effect =
    Announced effect
  | AttachWritten attach_request
  | ReaderCancelled remote_view
  | ConnectionRetired
  | DeviceNoted
  | ReadWriteSet bool
  | PurgeSpawned
  | SecondariesSpawned "string list" u64

record resume_world =
  rw_lifecycle :: lifecycle
  rw_views :: "(string, remote_view) fmap"
  rw_effects :: "mesh_effect list"

definition emit :: "mesh_effect \<Rightarrow> resume_world \<Rightarrow> resume_world" where
  "emit e w = w\<lparr>rw_effects := rw_effects w @ [e]\<rparr>"

definition perform :: "(bytes \<Rightarrow> bytes) \<Rightarrow> lifecycle_op \<Rightarrow> resume_world \<Rightarrow> resume_world" where
  "perform sha x w = (let (l, es) = lifecycle_step sha x (rw_lifecycle w) in
     w\<lparr>rw_lifecycle := l, rw_effects := rw_effects w @ map Announced es\<rparr>)"

text \<open>The removal of a view: its reader is cancelled.\<close>

definition retire_view :: "string \<Rightarrow> resume_world \<Rightarrow> resume_world" where
  "retire_view v w = (case fmlookup (rw_views w) v of
     None \<Rightarrow> w
   | Some view \<Rightarrow> emit (ReaderCancelled view) (w\<lparr>rw_views := fmdrop v (rw_views w)\<rparr>))"

definition retire_session_views :: "resume_world \<Rightarrow> resume_world" where
  "retire_session_views w = fold retire_view (sorted_list_of_fset (fmdom (rw_views w))) w"

text \<open>What the other tasks of the session do while an operation waits.\<close>

datatype other_task = Lifecycle_Op lifecycle_op | Retire string

fun other_step :: "(bytes \<Rightarrow> bytes) \<Rightarrow> other_task \<Rightarrow> resume_world \<Rightarrow> resume_world" where
  "other_step sha (Lifecycle_Op x) w = perform sha x w"
| "other_step sha (Retire v) w = retire_view v w"

definition others :: "(bytes \<Rightarrow> bytes) \<Rightarrow> other_task list \<Rightarrow> resume_world \<Rightarrow> resume_world" where
  "others sha ts w = fold (other_step sha) ts w"

section \<open>Policy tables\<close>

definition supports_reconnect :: "mesh_host \<Rightarrow> bool" where
  "supports_reconnect h \<longleftrightarrow> REMOTE_RECONNECT_PROTOCOL_MINOR \<le> mh_protocol_minor h"

fun attach_rejection_outcome :: "attach_reject_code \<Rightarrow> bool \<Rightarrow> attach_failure" where
  "attach_rejection_outcome RejectStaleResume feed = AttachSuperseded"
| "attach_rejection_outcome RejectViewInvalid feed = AttachViewInvalid ''remote host rejected the view identity''"
| "attach_rejection_outcome RejectViewLimit feed =
     AttachRejected ''remote host is at its view limit for this client''"
| "attach_rejection_outcome RejectSessionEpochMismatch feed = AttachEnded HostRestarted"
| "attach_rejection_outcome RejectUnknownSession feed = AttachEnded SessionUnavailable"
| "attach_rejection_outcome RejectAccessDenied feed =
     AttachRejected ''remote host denied access to this session''"
| "attach_rejection_outcome RejectUnknown feed =
     AttachFailed (''remote host rejected the attach with an unrecognised code''
       @ (if feed then '' on the feed view'' else []))"

fun rejection_retires :: "attach_reject_code \<Rightarrow> bool \<Rightarrow> bool" where
  "rejection_retires RejectViewLimit feed = feed"
| "rejection_retires RejectUnknownSession feed = True"
| "rejection_retires RejectSessionEpochMismatch feed = True"
| "rejection_retires RejectAccessDenied feed = True"
| "rejection_retires RejectUnknown feed = True"
| "rejection_retires RejectStaleResume feed = False"
| "rejection_retires RejectViewInvalid feed = False"

definition ended_reason_from_listing :: "session_listing option \<Rightarrow> ended_reason option" where
  "ended_reason_from_listing listing = (case listing of
     None \<Rightarrow> Some SessionUnavailable
   | Some summary \<Rightarrow>
       if sl_attachable summary then None
       else if \<not> sl_running summary then Some SessionExited
       else Some SessionClosed)"

text \<open>\<open>answer\<close> is what \<open>session_status_on\<close> returns when it is asked.\<close>

definition ended_reason_with_status ::
  "mesh_host \<Rightarrow> session_listing option \<Rightarrow> status_kind option \<Rightarrow> ended_reason option" where
  "ended_reason_with_status h listing answer =
     (let listed = ended_reason_from_listing listing in
      if listing \<noteq> None \<or> \<not> supports_reconnect h then listed
      else case answer of
        Some (StatusEnded (Exited _)) \<Rightarrow> Some SessionExited
      | Some (StatusEnded Closed) \<Rightarrow> Some SessionClosed
      | Some StatusLive \<Rightarrow> None
      | Some StatusUnknown \<Rightarrow> listed
      | None \<Rightarrow> listed)"

definition recorded_matches :: "mesh_host \<Rightarrow> lifecycle \<Rightarrow> bool" where
  "recorded_matches h l \<longleftrightarrow> (case ls_host_instance_id l of None \<Rightarrow> True | Some r \<Rightarrow> r = mh_instance_id h)"

section \<open>One attach attempt\<close>

datatype attach_reply = ReplyAttached u64 bool u64 | ReplyRejected attach_reject_code | ReplyOther

datatype stream_answer = StreamOpened | StreamFailed

text \<open>
  The answers of one attempt: the connection, the write of the request, the reply to it, the
  state stream and, for the feed of a resume, whether its first snapshot arrives in time; a
  missing answer is an error, a timeout or a closed stream.
\<close>

record attach_env =
  ae_while_connecting :: "other_task list"
  ae_host :: "mesh_host option"
  ae_while_writing :: "other_task list"
  ae_written :: bool
  ae_while_waiting :: "other_task list"
  ae_reply :: "attach_reply option"
  ae_stream :: stream_answer
  ae_while_streaming :: "other_task list"
  ae_while_synchronizing :: "other_task list"
  ae_snapshot :: bool
  ae_now :: instant

definition publish_view_entry ::
  "string \<Rightarrow> remote_view \<Rightarrow> resume_world \<Rightarrow> resume_world" where
  "publish_view_entry v view w =
     (let w' = w\<lparr>rw_views := fmupd v view (rw_views w)\<rparr> in
      case fmlookup (rw_views w) v of None \<Rightarrow> w' | Some displaced \<Rightarrow> emit (ReaderCancelled displaced) w')"

definition attached_reply ::
  "(bytes \<Rightarrow> bytes) \<Rightarrow> attach_env \<Rightarrow> mesh_host \<Rightarrow> string \<Rightarrow> bool \<Rightarrow> string \<Rightarrow> bool \<Rightarrow> u64
     \<Rightarrow> u64 \<Rightarrow> bool \<Rightarrow> u64 \<Rightarrow> resume_world \<Rightarrow> (attach_failure + attach_outcome) \<times> resume_world" where
  "attached_reply sha env h v feed wire wants_state state_generation epoch read_write session_epoch w =
     (if \<not> identity_matches (mh_instance_id h) session_epoch (rw_lifecycle w)
      then (Inl (AttachEnded HostRestarted), w)
      else
        let w = perform sha (RecordIdentity (mh_instance_id h) session_epoch) w;
            w = perform sha (BindConnection (mh_incarnation h)) w
        in if wants_state \<and> ae_stream env = StreamFailed then (Inl (AttachFailed ''state stream''), w)
        else
          let w = if wants_state then others sha (ae_while_streaming env) w else w;
              view = \<lparr>rem_attachment_epoch = epoch, rem_read_write = read_write, rem_wire_view_id = wire,
                rem_state_generation = state_generation, rem_incarnation = mh_incarnation h, rem_feed = feed\<rparr>
          in if ls_generation (rw_lifecycle w) \<noteq> state_generation
             then (Inl (AttachFailed ''remote view attach was superseded before it could publish''),
                   emit (ReaderCancelled view) w)
             else (Inr \<lparr>ao_attachment_epoch = epoch, ao_read_write = read_write, ao_synchronized = \<not> wants_state\<rparr>,
                   publish_view_entry v view w))"

definition attach_view_attempt ::
  "(bytes \<Rightarrow> bytes) \<Rightarrow> remote_session \<Rightarrow> attach_env \<Rightarrow> string \<Rightarrow> bool \<Rightarrow> resume_world
     \<Rightarrow> (attach_failure + attach_outcome) \<times> resume_world" where
  "attach_view_attempt sha rs env v feed w =
     (let w = others sha (ae_while_connecting env) w in
      case ae_host env of
        None \<Rightarrow> (Inl (AttachFailed ''connection''), w)
      | Some h \<Rightarrow>
          if \<not> recorded_matches h (rw_lifecycle w) then (Inl (AttachEnded HostRestarted), w)
          else
            let takeover = supports_reconnect h;
                (wire, generation) = fst (begin_view_attempt sha v (\<not> takeover) (rw_lifecycle w));
                w = perform sha (BeginAttempt v (\<not> takeover)) w;
                resume = if takeover then resume_hint v (rs_terminal_revision rs) (rw_lifecycle w) else None;
                wants_state = (feed \<or> \<not> takeover);
                state_generation = ls_generation (rw_lifecycle w);
                w = others sha (ae_while_writing env) w
            in if \<not> ae_written env then (Inl (AttachFailed ''write''), w)
            else
              let w = emit (AttachWritten
                    \<lparr>ar_session_id = rs_remote_session_id rs, ar_view_id = wire,
                     ar_access_token = rs_access_token rs, ar_cols = rs_cols rs, ar_rows = rs_rows rs,
                     ar_attach_generation = (if takeover then generation else 0),
                     ar_resume = resume, ar_wants_state = wants_state\<rparr>) w;
                  w = perform sha (NoteWritten v generation) w;
                  w = others sha (ae_while_waiting env) w
              in case ae_reply env of
                   None \<Rightarrow> (Inl (AttachFailed ''response''), w)
                 | Some ReplyOther \<Rightarrow>
                     (Inl (AttachFailed ''remote terminal returned an invalid attach response''), w)
                 | Some (ReplyRejected code) \<Rightarrow>
                     (Inl (attach_rejection_outcome code feed),
                      if rejection_retires code feed then emit ConnectionRetired w else w)
                 | Some (ReplyAttached epoch read_write session_epoch) \<Rightarrow>
                     attached_reply sha env h v feed wire wants_state state_generation
                       epoch read_write session_epoch w)"

section \<open>The feed\<close>

definition abandon_attempt :: "(bytes \<Rightarrow> bytes) \<Rightarrow> instant \<Rightarrow> resume_world \<Rightarrow> resume_world" where
  "abandon_attempt sha now w =
     perform sha (CommitSuspended now) (perform sha MarkPending (perform sha AdvanceGeneration
       (retire_session_views w)))"

text \<open>What follows the feed's attach: the first snapshot, \<open>Live\<close>, and the tasks spawned then.\<close>

definition feed_attached ::
  "(bytes \<Rightarrow> bytes) \<Rightarrow> remote_session \<Rightarrow> attach_env \<Rightarrow> string \<Rightarrow> attach_outcome \<Rightarrow> resume_world
     \<Rightarrow> (attach_failure + unit) \<times> resume_world" where
  "feed_attached sha rs env v outcome w =
     (let w = perform sha (ViewAttached v (ao_attachment_epoch outcome) (ao_read_write outcome)) w;
          w = emit (ReadWriteSet (ao_read_write outcome)) w;
          w = perform sha (CommitSynchronizing (ae_now env)) w;
          w = if ao_synchronized outcome then w else others sha (ae_while_synchronizing env) w
      in if \<not> ao_synchronized outcome \<and> \<not> ae_snapshot env
         then (Inl (AttachFailed ''recovery snapshot''), abandon_attempt sha (ae_now env) w)
         else
           let w = perform sha (CommitLive (ae_now env)) w;
               w = if rs_zombie_purge rs then emit PurgeSpawned w else w;
               secondaries = filter (\<lambda>u. u \<noteq> v) (view_keys (rw_lifecycle w))
           in (Inr (), if secondaries = [] then w
                 else emit (SecondariesSpawned secondaries (ls_generation (rw_lifecycle w))) w))"

text \<open>
  The election loop, on the answers its attempts get; \<open>None\<close> while it waits for an answer that
  is not in the list.
\<close>

fun establish_feed ::
  "(bytes \<Rightarrow> bytes) \<Rightarrow> remote_session \<Rightarrow> instant \<Rightarrow> attach_env list \<Rightarrow> resume_world
     \<Rightarrow> ((attach_failure + unit) \<times> resume_world) option" where
  "establish_feed sha rs now envs w =
     (let elected = fst (elect_feed (rw_lifecycle w));
          w = perform sha ElectFeed w
      in case elected of
           None \<Rightarrow> Some (Inr (), perform sha (CommitSuspended now) w)
         | Some v \<Rightarrow>
             (case envs of
                [] \<Rightarrow> None
              | env # envs \<Rightarrow>
                  (case attach_view_attempt sha rs env v True w of
                     (Inr outcome, w) \<Rightarrow> Some (feed_attached sha rs env v outcome w)
                   | (Inl (AttachEnded reason), w) \<Rightarrow> Some (Inl (AttachEnded reason), w)
                   | (Inl (AttachFailed err), w) \<Rightarrow>
                       Some (Inl (AttachFailed err), emit ConnectionRetired (perform sha (ViewFailed v err True) w))
                   | (Inl AttachSuperseded, w) \<Rightarrow> Some (Inl AttachSuperseded, w)
                   | (Inl (AttachViewInvalid err), w) \<Rightarrow>
                       establish_feed sha rs now envs (perform sha (ViewFailed v err True) w)
                   | (Inl (AttachRejected err), w) \<Rightarrow>
                       Some (Inl (AttachRejected err), perform sha (ViewFailed v err True) w))))"

declare establish_feed.simps [simp del]

section \<open>The resume handshake\<close>

record resume_env =
  re_transport :: bool
  re_advertised :: "string option"
  re_while_connecting :: "other_task list"
  re_host :: "mesh_host option"
  re_while_listing :: "other_task list"
  re_listing :: "session_listing list option"
  re_while_asking :: "other_task list"
  re_status :: "status_kind option"
  re_attach :: "attach_env list"
  re_now :: instant

definition resume_once ::
  "(bytes \<Rightarrow> bytes) \<Rightarrow> remote_session \<Rightarrow> resume_env \<Rightarrow> resume_world
     \<Rightarrow> ((attach_failure + unit) \<times> resume_world) option" where
  "resume_once sha rs env w =
     (if \<not> re_transport env then Some (Inl (AttachFailed ''transport''), w)
      else if (case (re_advertised env, ls_host_instance_id (rw_lifecycle w)) of
                 (Some advertised, Some recorded) \<Rightarrow> advertised \<noteq> recorded | _ \<Rightarrow> False)
      then Some (Inl (AttachEnded HostRestarted), w)
      else
        let w = perform sha AdvanceGeneration (retire_session_views w);
            w = others sha (re_while_connecting env) w
        in case re_host env of
             None \<Rightarrow> Some (Inl (AttachFailed ''connection''), w)
           | Some h \<Rightarrow>
               if \<not> recorded_matches h (rw_lifecycle w) then Some (Inl (AttachEnded HostRestarted), w)
               else
                 let w = perform sha (BindConnection (mh_incarnation h)) w;
                     w = others sha (re_while_listing env) w
                 in case re_listing env of
                      None \<Rightarrow> Some (Inl (AttachFailed ''listing''), emit ConnectionRetired w)
                    | Some sessions \<Rightarrow>
                        let listing = List.find (\<lambda>s. sl_session_id s = rs_remote_session_id rs) sessions;
                            w = if listing = None \<and> supports_reconnect h then others sha (re_while_asking env) w else w
                        in case ended_reason_with_status h listing (re_status env) of
                             Some reason \<Rightarrow> Some (Inl (AttachEnded reason), w)
                           | None \<Rightarrow> establish_feed sha rs (re_now env) (re_attach env) w)"

definition session_is_established :: "resume_world \<Rightarrow> bool" where
  "session_is_established w \<longleftrightarrow> ls_state (rw_lifecycle w) = Live
     \<and> (case ls_feed_view_id (rw_lifecycle w) of None \<Rightarrow> False
        | Some v \<Rightarrow> (case fmlookup (rw_views w) v of None \<Rightarrow> False
            | Some view \<Rightarrow> rem_feed view \<and> rem_state_generation view = ls_generation (rw_lifecycle w)))"

definition resume_attempt ::
  "(bytes \<Rightarrow> bytes) \<Rightarrow> remote_session \<Rightarrow> resume_env \<Rightarrow> resume_world
     \<Rightarrow> ((attach_failure + unit) \<times> resume_world) option" where
  "resume_attempt sha rs env w =
     (if session_is_established w then Some (Inr (), w) else resume_once sha rs env w)"

text \<open>
  The manual retry; \<open>engine\<close> is the task spawned when none is armed. It returns the session's
  snapshot or the error; its test of the previous state for \<open>Ended\<close> can never hold.
\<close>

definition arm_reconnect :: "(bytes \<Rightarrow> bytes) \<Rightarrow> engine \<Rightarrow> resume_world \<Rightarrow> resume_world" where
  "arm_reconnect sha engine w =
     (if ls_state (rw_lifecycle w) = Ended then w else perform sha (ArmEngine engine) w)"

definition reconnect_session ::
  "(bytes \<Rightarrow> bytes) \<Rightarrow> remote_session \<Rightarrow> engine \<Rightarrow> resume_env \<Rightarrow> resume_world
     \<Rightarrow> ((string + lifecycle_snapshot) \<times> resume_world) option" where
  "reconnect_session sha rs engine env w =
     (let now = re_now env in
      if ls_state (rw_lifecycle w) = Ended then Some (Inr (snapshot now (rw_lifecycle w)), w)
      else
        let w = if ls_engine (rw_lifecycle w) = None then arm_reconnect sha engine w else w;
            w = emit DeviceNoted w;
            previous = ls_state (rw_lifecycle w);
            w = perform sha (CommitReconnecting now) w
        in map_option (\<lambda>(r, w). case r of
             Inr _ \<Rightarrow> (Inr (snapshot now (rw_lifecycle w)), w)
           | Inl (AttachEnded reason) \<Rightarrow>
               let w = perform sha (CommitEnded reason now) w in (Inr (snapshot now (rw_lifecycle w)), w)
           | Inl (AttachFailed err) \<Rightarrow>
               (if previous = Ended then Inr (snapshot now (rw_lifecycle w)) else Inl err, w)
           | Inl AttachSuperseded \<Rightarrow> (Inr (snapshot now (rw_lifecycle w)), w)
           | Inl (AttachViewInvalid err) \<Rightarrow> (Inl err, w)
           | Inl (AttachRejected err) \<Rightarrow> (Inl err, w))
           (resume_attempt sha rs env w))"

section \<open>Secondaries and promotion\<close>

fun attach_secondaries ::
  "(bytes \<Rightarrow> bytes) \<Rightarrow> remote_session \<Rightarrow> u64 \<Rightarrow> (string \<times> attach_env) list \<Rightarrow> resume_world \<Rightarrow> resume_world" where
  "attach_secondaries sha rs generation [] w = w"
| "attach_secondaries sha rs generation ((v, env) # vs) w =
     (if ls_generation (rw_lifecycle w) \<noteq> generation \<or> ls_state (rw_lifecycle w) \<noteq> Live then w
      else case attach_view_attempt sha rs env v False w of
        (Inr outcome, w) \<Rightarrow>
          attach_secondaries sha rs generation vs
            (perform sha (ViewAttached v (ao_attachment_epoch outcome) (ao_read_write outcome)) w)
      | (Inl (AttachEnded reason), w) \<Rightarrow> perform sha (CommitEnded reason (ae_now env)) w
      | (Inl (AttachFailed err), w) \<Rightarrow>
          attach_secondaries sha rs generation vs (perform sha (ViewFailed v err True) w)
      | (Inl AttachSuperseded, w) \<Rightarrow> attach_secondaries sha rs generation vs w
      | (Inl (AttachViewInvalid err), w) \<Rightarrow>
          attach_secondaries sha rs generation vs (perform sha (ViewFailed v err True) w)
      | (Inl (AttachRejected err), w) \<Rightarrow>
          attach_secondaries sha rs generation vs (perform sha (ViewFailed v err True) w))"

definition reestablish_feed ::
  "(bytes \<Rightarrow> bytes) \<Rightarrow> remote_session \<Rightarrow> engine \<Rightarrow> instant \<Rightarrow> attach_env list \<Rightarrow> resume_world
     \<Rightarrow> ((attach_failure + unit) \<times> resume_world) option" where
  "reestablish_feed sha rs engine now envs w =
     (let w = perform sha (CommitSynchronizing now) w;
          w = perform sha MarkPending w;
          w = perform sha AdvanceGeneration (retire_session_views w);
          rearm = (\<lambda>w. arm_reconnect sha engine (perform sha (CommitReconnecting now) w))
      in map_option (\<lambda>(r, w). (r, case r of
           Inr _ \<Rightarrow> w
         | Inl (AttachEnded reason) \<Rightarrow> perform sha (CommitEnded reason now) w
         | Inl (AttachFailed err) \<Rightarrow> rearm w
         | Inl AttachSuperseded \<Rightarrow> w
         | Inl (AttachViewInvalid err) \<Rightarrow> perform sha (CommitSuspended now) w
         | Inl (AttachRejected err) \<Rightarrow> rearm w))
         (establish_feed sha rs now envs w))"

end
