(* ===== verification/Reconnect_Engine.thy ===== *)
theory Reconnect_Engine
  imports Session_Resume
begin

text \<open>
  The auto-resume engine of one open session (\<open>reconnect_engine_inner\<close>, \<open>backoff_delay\<close> of
  \<open>ghosttea-truffle/src/lib.rs\<close>): it dials on a full-jitter schedule, comes to rest in Suspended
  once the host has been absent long enough and returns when the session is Live or Ended. A turn
  of its loop is one definition; what the turn awaits are the answers of its environment.
\<close>

record reconnect_config =
  cf_backoff_base :: duration
  cf_backoff_cap :: duration
  cf_backoff_floor :: duration
  cf_suspend_after :: duration

text \<open>\<open>Duration::MAX\<close> in nanoseconds and \<open>Duration::saturating_mul\<close>.\<close>

definition MAX_DURATION :: duration where
  "MAX_DURATION = (2 ^ 64 - 1) * 1000000000 + 999999999"

definition duration_mul :: "duration \<Rightarrow> u32 \<Rightarrow> duration" where
  "duration_mul d n = min (d * unat n) MAX_DURATION"

definition sat_pow :: "u32 \<Rightarrow> nat \<Rightarrow> u32" where
  "sat_pow b n = (if unat b ^ n < 2 ^ 32 then b ^ n else - 1)"

definition backoff_window :: "reconnect_config \<Rightarrow> u32 \<Rightarrow> duration" where
  "backoff_window config attempt =
     min (duration_mul (cf_backoff_base config) (sat_pow 2 (unat (min attempt 31)))) (cf_backoff_cap config)"

text \<open>The jitter source is a parameter: any function of the window.\<close>

definition backoff_delay :: "reconnect_config \<Rightarrow> u32 \<Rightarrow> (duration \<Rightarrow> duration) \<Rightarrow> duration" where
  "backoff_delay config attempt jitter =
     (let window = backoff_window config attempt
      in max (min (jitter window) window) (cf_backoff_floor config))"

record engine_state =
  en_attempt :: u32
  en_absent_since :: instant

definition new_engine :: "instant \<Rightarrow> engine_state" where
  "new_engine now = \<lparr>en_attempt = 0, en_absent_since = now\<rparr>"

text \<open>
  The answers of one turn: the clock, whether the parked engine was woken by its device (or the
  wake-up channel closed), the jitter, discovery's word on the device, and the resume attempt.
\<close>

record engine_env =
  ee_now :: instant
  ee_while_parked :: "other_task list"
  ee_woken :: bool
  ee_woken_at :: instant
  ee_jitter :: "duration \<Rightarrow> duration"
  ee_while_waiting :: "other_task list"
  ee_while_checking :: "other_task list"
  ee_pointless :: bool
  ee_while_locking :: "other_task list"
  ee_resume :: resume_env

datatype engine_result = Turn engine_state | Returned

text \<open>\<open>None\<close> while the turn waits for an answer of the resume attempt that is not in the list.\<close>

definition engine_dial ::
  "(bytes \<Rightarrow> bytes) \<Rightarrow> remote_session \<Rightarrow> engine_env \<Rightarrow> engine_state \<Rightarrow> resume_world
     \<Rightarrow> (engine_result \<times> resume_world) option" where
  "engine_dial sha rs env en w =
     map_option (\<lambda>(r, w). case r of
         Inr _ \<Rightarrow> (if ls_state (rw_lifecycle w) = Live then Returned else Turn en, w)
       | Inl (AttachEnded reason) \<Rightarrow> (Returned, perform sha (CommitEnded reason (ee_now env)) w)
       | Inl _ \<Rightarrow> (Turn en, w))
       (resume_attempt sha rs (ee_resume env) (others sha (ee_while_locking env) w))"

definition engine_turn ::
  "(bytes \<Rightarrow> bytes) \<Rightarrow> remote_session \<Rightarrow> reconnect_config \<Rightarrow> engine_env \<Rightarrow> engine_state \<Rightarrow> resume_world
     \<Rightarrow> (engine_result \<times> resume_world) option" where
  "engine_turn sha rs config env en w =
     (if ls_state (rw_lifecycle w) = Ended \<or> ls_state (rw_lifecycle w) = Live then Some (Returned, w)
      else if cf_suspend_after config \<le> ee_now env - en_absent_since en then
        let w = perform sha (CommitSuspended (ee_now env)) w;
            w = others sha (ee_while_parked env) w
        in Some (if ee_woken env then Turn (new_engine (ee_woken_at env)) else Returned, w)
      else
        let en = en\<lparr>en_attempt := sat_add (en_attempt en) 1\<rparr>;
            delay = backoff_delay config (sat_sub (en_attempt en) 1) (ee_jitter env);
            w = perform sha (CommitScheduledRetry (en_attempt en) delay (ee_now env)) w;
            w = others sha (ee_while_waiting env) w;
            w = perform sha (SetNextRetry None) w
        in if ls_state (rw_lifecycle w) = Ended then Some (Returned, w)
           else
             let w = others sha (ee_while_checking env) w
             in if ee_pointless env then Some (Turn en, w) else engine_dial sha rs env en w)"

fun engine_run ::
  "(bytes \<Rightarrow> bytes) \<Rightarrow> remote_session \<Rightarrow> reconnect_config \<Rightarrow> engine_env list \<Rightarrow> engine_state \<Rightarrow> resume_world
     \<Rightarrow> (engine_result \<times> resume_world) option" where
  "engine_run sha rs config [] en w = Some (Turn en, w)"
| "engine_run sha rs config (env # envs) en w =
     (case engine_turn sha rs config env en w of
        None \<Rightarrow> None
      | Some (Returned, w) \<Rightarrow> Some (Returned, w)
      | Some (Turn en, w) \<Rightarrow> engine_run sha rs config envs en w)"

end
