(* ===== verification/Resume_Facts.thy ===== *)
theory Resume_Facts
  imports Reconnect_Engine Lifecycle_Runs
begin

text \<open>
  What resuming does to a session: the views an election can still pick, the attach requests that
  were written, and the operations of other tasks under which both are known.
\<close>

section \<open>Frames\<close>

lemma perform_fields [simp]:
  "rw_lifecycle (perform sha x w) = lifecycle_next sha x (rw_lifecycle w)"
  "rw_views (perform sha x w) = rw_views w"
  "rw_effects (perform sha x w) = rw_effects w @ map Announced (snd (lifecycle_step sha x (rw_lifecycle w)))"
  by (simp_all add: perform_def lifecycle_next_def case_prod_beta Let_def)

lemma emit_fields [simp]:
  "rw_lifecycle (emit e w) = rw_lifecycle w" "rw_views (emit e w) = rw_views w"
  "rw_effects (emit e w) = rw_effects w @ [e]"
  by (simp_all add: emit_def)

fun written :: "mesh_effect \<Rightarrow> attach_request option" where
  "written (AttachWritten r) = Some r"
| "written _ = None"

definition writes :: "resume_world \<Rightarrow> attach_request list" where
  "writes w = List.map_filter written (rw_effects w)"

lemma writes_perform [simp]: "writes (perform sha x w) = writes w"
  by (simp add: writes_def List.map_filter_def filter_empty_conv)

lemma writes_emit [simp]: "writes (emit e w) = writes w @ (case written e of None \<Rightarrow> [] | Some r \<Rightarrow> [r])"
  by (simp add: writes_def List.map_filter_def split: option.splits)

lemma writes_views_upd [simp]: "writes (w\<lparr>rw_views := vs\<rparr>) = writes w"
  by (simp add: writes_def)

lemma retire_view_fields [simp]:
  "rw_lifecycle (retire_view v w) = rw_lifecycle w" "writes (retire_view v w) = writes w"
  by (simp_all add: retire_view_def split: option.splits)

lemma fold_retire_fields [simp]:
  "rw_lifecycle (fold retire_view vs w) = rw_lifecycle w" "writes (fold retire_view vs w) = writes w"
  by (induction vs arbitrary: w) simp_all

lemma retire_session_fields [simp]:
  "rw_lifecycle (retire_session_views w) = rw_lifecycle w" "writes (retire_session_views w) = writes w"
  by (simp_all add: retire_session_views_def)

lemma publish_entry_fields [simp]:
  "rw_lifecycle (publish_view_entry v view w) = rw_lifecycle w" "writes (publish_view_entry v view w) = writes w"
  "rw_views (publish_view_entry v view w) = fmupd v view (rw_views w)"
  by (simp_all add: publish_view_entry_def Let_def split: option.splits)

section \<open>The views an election can pick\<close>

definition eligible :: "lifecycle \<Rightarrow> string set" where
  "eligible l = {v. \<exists>r. fmlookup (ls_views l) v = Some r \<and> vr_state r \<noteq> Failed}"

lemma eligible_cong: "ls_views l = ls_views l' \<Longrightarrow> eligible l = eligible l'"
  by (simp add: eligible_def)

lemma finite_eligible [simp]: "finite (eligible l)"
proof -
  have "eligible l \<subseteq> fset (fmdom (ls_views l))" by (auto simp: eligible_def fmlookup_dom_iff)
  then show ?thesis by (rule finite_subset) simp
qed

lemma elect_feed_eligible:
  "fst (elect_feed l) = None \<longleftrightarrow> eligible l = {}"
  "fst (elect_feed l) = Some v \<Longrightarrow> v \<in> eligible l"
proof -
  have "v \<in> set (view_keys l) \<and> vr_state (view_or_pending v l) \<noteq> Failed \<longleftrightarrow> v \<in> eligible l" for v
    by (auto simp: sorted_view_keys eligible_def view_or_pending_def fmlookup_dom_iff split: option.splits)
  then show "fst (elect_feed l) = None \<longleftrightarrow> eligible l = {}"
    "fst (elect_feed l) = Some v \<Longrightarrow> v \<in> eligible l"
    by (auto simp: elect_feed_def Let_def find_None_iff find_Some_iff in_set_conv_nth)
qed

lemma eligible_set_view:
  "eligible (fst (set_view v f l)) = (if vr_state (f (view_or_pending v l)) = Failed then eligible l - {v}
     else insert v (eligible l))"
  by (auto simp: eligible_def lookup_set_view)

lemma eligible_failed: "eligible (lifecycle_next sha (ViewFailed v err t) l) = eligible l - {v}"
  by (simp add: lifecycle_next_def commit_view_failed_def eligible_set_view)

lemma eligible_begin: "eligible (lifecycle_next sha (BeginAttempt v rotating) l) = insert v (eligible l)"
  by (simp add: lifecycle_next_def begin_view_attempt_def eligible_set_view to_pending_def Let_def)

text \<open>The lifecycle operations that make no view eligible and do not make the session live.\<close>

fun quiet :: "lifecycle_op \<Rightarrow> bool" where
  "quiet (BeginAttempt _ _) = False"
| "quiet MarkPending = False"
| "quiet (ViewAttached _ _ _) = False"
| "quiet (ViewPending _) = False"
| "quiet (RecordView _) = False"
| "quiet (CommitEnded _ _) = False"
| "quiet (CommitHostShutdown _ _) = False"
| "quiet (CommitDisconnect _ _ _) = False"
| "quiet (CommitLive _) = False"
| "quiet _ = True"

lemma map_view_eligible: "(\<And>r. vr_state (f r) = vr_state r) \<Longrightarrow> eligible (map_view v f l) = eligible l"
  by (auto simp: eligible_def map_view_def split: option.splits)

lemma quiet_eligible: "quiet x \<Longrightarrow> eligible (lifecycle_next sha x l) \<subseteq> eligible l"
proof (cases x)
  case (ForgetView v)
  then show ?thesis by (auto simp: lifecycle_next_def forget_view_def eligible_def)
next
  case (NoteWritten v g)
  then show ?thesis by (simp add: lifecycle_next_def note_view_written_def map_view_eligible)
next
  case (NotePurged v g)
  then show ?thesis by (simp add: lifecycle_next_def note_purged_def map_view_eligible)
next
  case (ViewFailed v err t)
  then show ?thesis by (auto simp: eligible_failed)
qed (simp_all add: lifecycle_next_def eligible_def admit_state_def note_contact_def arm_engine_def
    cancel_engine_def set_next_retry_def elect_feed_def release_feed_def advance_generation_def
    bind_connection_def record_identity_def transition_defs advance_def Let_def split: option.splits)

lemma quiet_not_live: "quiet x \<Longrightarrow> ls_state l \<noteq> Live \<Longrightarrow> ls_state (lifecycle_next sha x l) \<noteq> Live"
  by (cases x) (simp_all add: lifecycle_next_def admit_state_def note_contact_def arm_engine_def
    cancel_engine_def set_next_retry_def elect_feed_def release_feed_def advance_generation_def
    bind_connection_def record_identity_def transition_defs advance_def Let_def note_view_written_def
    note_purged_def forget_view_def commit_view_failed_def split: option.splits)

fun quiet_task :: "other_task \<Rightarrow> bool" where
  "quiet_task (Lifecycle_Op x) = quiet x"
| "quiet_task (Retire v) = True"

text \<open>At most the views of \<open>E\<close> are eligible.\<close>

definition within :: "string set \<Rightarrow> resume_world \<Rightarrow> bool" where
  "within E w \<longleftrightarrow> eligible (rw_lifecycle w) \<subseteq> E"

definition wrote :: "attach_request list \<Rightarrow> resume_world \<Rightarrow> bool" where
  "wrote rs w \<longleftrightarrow> writes w = rs"

definition off_air :: "resume_world \<Rightarrow> bool" where
  "off_air w \<longleftrightarrow> ls_state (rw_lifecycle w) \<noteq> Live"

interpretation other_within: guarded_system "other_step sha" quiet_task "within E" for sha E
proof
  fix x :: other_task and w
  assume "quiet_task x" "within E w"
  then show "within E (other_step sha x w)"
    by (cases x) (auto simp: within_def dest: quiet_eligible [THEN subsetD])
qed

interpretation other_wrote: step_system "other_step sha" "wrote rs" for sha rs
proof
  fix x :: other_task and w
  assume "wrote rs w"
  then show "wrote rs (other_step sha x w)" by (cases x) (simp_all add: wrote_def)
qed

interpretation other_off_air: guarded_system "other_step sha" quiet_task off_air for sha
proof
  fix x :: other_task and w
  assume "quiet_task x" "off_air w"
  then show "off_air (other_step sha x w)" by (cases x) (auto simp: off_air_def quiet_not_live)
qed

lemma others_within: "list_all quiet_task ts \<Longrightarrow> within E w \<Longrightarrow> within E (others sha ts w)"
  unfolding others_def by (rule other_within.guarded_run)

lemma others_writes [simp]: "writes (others sha ts w) = writes w"
  using other_wrote.inv_run [of "writes w" w sha ts] by (simp add: others_def wrote_def)

lemma others_off_air: "list_all quiet_task ts \<Longrightarrow> off_air w \<Longrightarrow> off_air (others sha ts w)"
  unfolding others_def by (rule other_off_air.guarded_run)

lemma perform_within: "quiet x \<Longrightarrow> within E w \<Longrightarrow> within E (perform sha x w)"
  using quiet_eligible [of x sha "rw_lifecycle w"] by (auto simp: within_def)

lemma within_frame [simp]:
  "within E (emit e w) = within E w" "within E (retire_session_views w) = within E w"
  "within E (publish_view_entry v view w) = within E w"
  by (simp_all add: within_def)

section \<open>An attach attempt\<close>

definition quiet_attach :: "attach_env \<Rightarrow> bool" where
  "quiet_attach env \<longleftrightarrow> list_all quiet_task (ae_while_connecting env) \<and> list_all quiet_task (ae_while_writing env)
     \<and> list_all quiet_task (ae_while_waiting env) \<and> list_all quiet_task (ae_while_streaming env)
     \<and> list_all quiet_task (ae_while_synchronizing env)"

lemma attached_reply_within:
  assumes "quiet_attach env" and "within E w"
  shows "within E (snd (attached_reply sha env h v feed wire wants gen epoch rw sess w))"
    "writes (snd (attached_reply sha env h v feed wire wants gen epoch rw sess w)) = writes w"
  using assms
  by (auto simp: attached_reply_def Let_def quiet_attach_def intro!: others_within perform_within)

lemma attempt_within:
  assumes "quiet_attach env" and "within E w"
  shows "within (insert v E) (snd (attach_view_attempt sha rs env v feed w))"
    "length (writes (snd (attach_view_attempt sha rs env v feed w))) \<le> Suc (length (writes w))"
proof -
  have begin_within: "within (insert v E) (perform sha (BeginAttempt v b) w)" if "within E w" for b w
    using that by (auto simp: within_def eligible_begin)
  have weaken: "within (insert v E) w" if "within E w" for w
    using that by (auto simp: within_def)
  show "within (insert v E) (snd (attach_view_attempt sha rs env v feed w))"
    using assms
    by (auto simp: attach_view_attempt_def Let_def quiet_attach_def case_prod_beta
        intro!: others_within perform_within attached_reply_within begin_within
        intro: weaken split: option.splits attach_reply.splits)
  show "length (writes (snd (attach_view_attempt sha rs env v feed w))) \<le> Suc (length (writes w))"
    by (auto simp: attach_view_attempt_def Let_def case_prod_beta attached_reply_def
        split: option.splits attach_reply.splits)
qed

lemma abandon_fields [simp]:
  "writes (abandon_attempt sha now w) = writes w"
  by (simp add: abandon_attempt_def)

lemma feed_attached_writes [simp]: "writes (snd (feed_attached sha rs env v outcome w)) = writes w"
  by (simp add: feed_attached_def Let_def)

section \<open>The election loop\<close>

text \<open>One turn of the loop that does not elect again.\<close>

definition settle ::
  "(bytes \<Rightarrow> bytes) \<Rightarrow> remote_session \<Rightarrow> attach_env \<Rightarrow> string \<Rightarrow> attach_failure + attach_outcome \<Rightarrow> resume_world
     \<Rightarrow> (attach_failure + unit) \<times> resume_world" where
  "settle sha rs env v r w = (case r of
     Inr outcome \<Rightarrow> feed_attached sha rs env v outcome w
   | Inl (AttachFailed err) \<Rightarrow> (Inl (AttachFailed err), emit ConnectionRetired (perform sha (ViewFailed v err True) w))
   | Inl (AttachRejected err) \<Rightarrow> (Inl (AttachRejected err), perform sha (ViewFailed v err True) w)
   | Inl failure \<Rightarrow> (Inl failure, w))"

lemma settle_writes [simp]: "writes (snd (settle sha rs env v r w)) = writes w"
  by (auto simp: settle_def split: sum.splits attach_failure.splits)

lemma establish_none:
  "eligible (rw_lifecycle w) = {} \<Longrightarrow>
    establish_feed sha rs now envs w = Some (Inr (), perform sha (CommitSuspended now) (perform sha ElectFeed w))"
  by (subst establish_feed.simps) (simp add: elect_feed_eligible(1) [THEN iffD2] Let_def)

lemma establish_turn:
  assumes "fst (elect_feed (rw_lifecycle w)) = Some v"
    and "attach_view_attempt sha rs env v True (perform sha ElectFeed w) = (r, w1)"
  shows "establish_feed sha rs now (env # envs) w = (case r of
     Inl (AttachViewInvalid err) \<Rightarrow> establish_feed sha rs now envs (perform sha (ViewFailed v err True) w1)
   | _ \<Rightarrow> Some (settle sha rs env v r w1))"
  using assms
  by (subst establish_feed.simps) (auto simp: Let_def settle_def split: sum.splits attach_failure.splits)

lemma election_ends:
  "list_all quiet_attach envs \<Longrightarrow> card (eligible (rw_lifecycle w)) \<le> length envs \<Longrightarrow>
    \<exists>r w'. establish_feed sha rs now envs w = Some (r, w')
      \<and> length (writes w') \<le> length (writes w) + card (eligible (rw_lifecycle w))"
proof (induction envs arbitrary: w)
  case Nil
  then have "fst (elect_feed (rw_lifecycle w)) = None" by (simp add: elect_feed_eligible)
  then show ?case by (subst establish_feed.simps) (simp add: Let_def)
next
  case (Cons env envs)
  show ?case
  proof (cases "fst (elect_feed (rw_lifecycle w))")
    case None
    then show ?thesis by (subst establish_feed.simps) (simp add: Let_def)
  next
    case (Some v)
    let ?E = "eligible (rw_lifecycle w)"
    have v: "v \<in> ?E" by (rule elect_feed_eligible(2) [OF Some])
    obtain r w1 where att: "attach_view_attempt sha rs env v True (perform sha ElectFeed w) = (r, w1)"
      by fastforce
    have "within ?E (perform sha ElectFeed w)" by (rule perform_within) (simp_all add: within_def)
    then have w1: "within ?E w1" "length (writes w1) \<le> Suc (length (writes w))"
      using attempt_within [where env = env and E = ?E and w = "perform sha ElectFeed w" and v = v and sha = sha and rs = rs and feed = True] Cons.prems(1) att v
      by (simp_all add: insert_absorb)
    have pos: "0 < card ?E" using v by (auto simp: card_gt_0_iff)
    note turn = establish_turn [OF Some att, of now envs]
    show ?thesis
    proof (cases "\<exists>err. r = Inl (AttachViewInvalid err)")
      case True
      then obtain err where r: "r = Inl (AttachViewInvalid err)" by blast
      let ?w2 = "perform sha (ViewFailed v err True) w1"
      have "eligible (rw_lifecycle ?w2) \<subseteq> ?E - {v}"
        using w1(1) by (auto simp: within_def eligible_failed)
      then have less: "card (eligible (rw_lifecycle ?w2)) \<le> card ?E - 1"
        using card_mono [of "?E - {v}"] v by (simp add: card_Diff_singleton)
      then have "\<exists>r w'. establish_feed sha rs now envs ?w2 = Some (r, w')
          \<and> length (writes w') \<le> length (writes ?w2) + card (eligible (rw_lifecycle ?w2))"
        using Cons.prems by (intro Cons.IH) auto
      then obtain r' w' where "establish_feed sha rs now envs ?w2 = Some (r', w')"
        "length (writes w') \<le> length (writes ?w2) + card (eligible (rw_lifecycle ?w2))" by blast
      with less w1(2) pos show ?thesis by (simp add: turn r)
    next
      case False
      then have "establish_feed sha rs now (env # envs) w = Some (settle sha rs env v r w1)"
        unfolding turn by (auto split: sum.splits attach_failure.splits)
      with w1(2) pos show ?thesis
        by (intro exI [of _ "fst (settle sha rs env v r w1)"] exI [of _ "snd (settle sha rs env v r w1)"]) simp
    qed
  qed
qed

section \<open>Sessions without an eligible view\<close>

definition quiet_resume :: "resume_env \<Rightarrow> bool" where
  "quiet_resume env \<longleftrightarrow> list_all quiet_task (re_while_connecting env) \<and> list_all quiet_task (re_while_listing env)
     \<and> list_all quiet_task (re_while_asking env)"

definition quiet_engine :: "engine_env \<Rightarrow> bool" where
  "quiet_engine env \<longleftrightarrow> list_all quiet_task (ee_while_parked env) \<and> list_all quiet_task (ee_while_waiting env)
     \<and> list_all quiet_task (ee_while_checking env) \<and> list_all quiet_task (ee_while_locking env)
     \<and> quiet_resume (ee_resume env)"

text \<open>No view can be elected, the session is not live, and these attach requests were written.\<close>

definition stranded :: "attach_request list \<Rightarrow> resume_world \<Rightarrow> bool" where
  "stranded rs w \<longleftrightarrow> within {} w \<and> off_air w \<and> wrote rs w"

lemma stranded_perform: "quiet x \<Longrightarrow> stranded rs w \<Longrightarrow> stranded rs (perform sha x w)"
  by (simp add: stranded_def perform_within off_air_def wrote_def quiet_not_live)

lemma stranded_others: "list_all quiet_task ts \<Longrightarrow> stranded rs w \<Longrightarrow> stranded rs (others sha ts w)"
  by (simp add: stranded_def others_within others_off_air wrote_def)

lemma stranded_frame [simp]:
  "stranded rs (retire_session_views w) = stranded rs w"
  "written e = None \<Longrightarrow> stranded rs (emit e w) = stranded rs w"
  by (simp_all add: stranded_def off_air_def wrote_def)

lemma establish_stranded:
  "stranded rs w \<Longrightarrow> \<exists>w'. establish_feed sha sess now envs w = Some (Inr (), w') \<and> stranded rs w'"
  by (simp add: establish_none stranded_perform within_def stranded_def [of rs w])

lemma resume_once_stranded:
  assumes "stranded rs w" and "quiet_resume env"
  shows "\<exists>r w'. resume_once sha sess env w = Some (r, w') \<and> stranded rs w'"
proof -
  define w1 where "w1 = others sha (re_while_connecting env) (perform sha AdvanceGeneration (retire_session_views w))"
  define w2 where "w2 h = others sha (re_while_listing env) (perform sha (BindConnection (mh_incarnation h)) w1)"
    for h :: mesh_host
  have s: "stranded rs w1" "stranded rs (w2 h)" "stranded rs (others sha (re_while_asking env) (w2 h))" for h
    using assms by (simp_all add: w1_def w2_def quiet_resume_def stranded_others stranded_perform)
  have e: "\<exists>r w'. establish_feed sha sess now envs w = Some (r, w') \<and> stranded rs w'" if "stranded rs w" for now envs w
    using establish_stranded [OF that] by blast
  show ?thesis
    using assms(1) s
    by (auto simp: resume_once_def Let_def w1_def [symmetric] w2_def [symmetric] intro!: e split: option.splits)
qed

lemma resume_attempt_stranded:
  assumes "stranded rs w" and "quiet_resume env"
  shows "\<exists>r w'. resume_attempt sha sess env w = Some (r, w') \<and> stranded rs w'"
  using resume_once_stranded [OF assms] assms(1)
  by (auto simp: resume_attempt_def session_is_established_def stranded_def off_air_def)

text \<open>The end of a session makes its views pending, so a session that ended is not stranded.\<close>

definition off_for_good :: "attach_request list \<Rightarrow> resume_world \<Rightarrow> bool" where
  "off_for_good rs w \<longleftrightarrow> stranded rs w \<or> ls_state (rw_lifecycle w) = Ended \<and> wrote rs w"

lemma commit_ended_state [simp]: "ls_state (lifecycle_next sha (CommitEnded reason now) l) = Ended"
  by (simp add: lifecycle_next_def commit_ended_def end_session_def advance_def case_prod_beta Let_def)

lemma wrote_perform [simp]: "wrote rs (perform sha x w) = wrote rs w"
  by (simp add: wrote_def)

lemma stranded_wrote: "stranded rs w \<Longrightarrow> wrote rs w"
  by (simp add: stranded_def)

lemma engine_dial_stranded:
  assumes "stranded rs w" and "quiet_engine env"
  shows "\<exists>r w'. engine_dial sha sess env en w = Some (r, w') \<and> off_for_good rs w' \<and> (r = Returned \<or> stranded rs w')"
proof -
  have "stranded rs (others sha (ee_while_locking env) w)" "quiet_resume (ee_resume env)"
    using assms by (simp_all add: quiet_engine_def stranded_others)
  then obtain r w' where "resume_attempt sha sess (ee_resume env) (others sha (ee_while_locking env) w) = Some (r, w')"
    "stranded rs w'" using resume_attempt_stranded by blast
  then show ?thesis
    by (cases r) (auto simp: engine_dial_def off_for_good_def stranded_wrote
        split: attach_failure.splits)
qed

lemma engine_turn_stranded:
  assumes "stranded rs w" and "quiet_engine env"
  shows "\<exists>r w'. engine_turn sha sess config env en w = Some (r, w') \<and> off_for_good rs w' \<and> (r = Returned \<or> stranded rs w')"
proof -
  have "stranded rs (others sha ts (perform sha x w))" if "quiet x" "list_all quiet_task ts" for x ts
    using assms(1) that by (simp add: stranded_others stranded_perform)
  with assms engine_dial_stranded [OF _ assms(2)] show ?thesis
    by (auto simp: engine_turn_def Let_def quiet_engine_def off_for_good_def stranded_perform stranded_others)
qed

lemma engine_run_stranded:
  "list_all quiet_engine envs \<Longrightarrow> stranded rs w \<Longrightarrow>
    \<exists>r w'. engine_run sha sess config envs en w = Some (r, w') \<and> off_for_good rs w'"
proof (induction envs arbitrary: en w)
  case Nil
  then show ?case by (simp add: off_for_good_def)
next
  case (Cons env envs)
  obtain r w1 where turn: "engine_turn sha sess config env en w = Some (r, w1)" "off_for_good rs w1"
    "r = Returned \<or> stranded rs w1"
    using engine_turn_stranded [OF Cons.prems(2)] Cons.prems(1) by (metis list.pred_inject(2))
  show ?case
  proof (cases r)
    case (Turn en')
    then have "\<exists>r w'. engine_run sha sess config envs en' w1 = Some (r, w') \<and> off_for_good rs w'"
      using Cons.prems(1) turn(3) by (intro Cons.IH) auto
    with turn(1) Turn show ?thesis by simp
  next
    case Returned
    with turn show ?thesis by simp
  qed
qed

lemma reconnect_stranded:
  assumes "stranded rs w" and "quiet_resume env"
  shows "\<exists>r w'. reconnect_session sha sess engine env w = Some (r, w') \<and> off_for_good rs w'"
proof -
  define w1 where "w1 = perform sha (CommitReconnecting (re_now env)) (emit DeviceNoted
    (if ls_engine (rw_lifecycle w) = None then arm_reconnect sha engine w else w))"
  have "stranded rs w1"
    using assms(1) by (auto simp: w1_def arm_reconnect_def stranded_perform)
  then obtain r w' where "resume_attempt sha sess env w1 = Some (r, w')" "stranded rs w'"
    using resume_attempt_stranded [OF _ assms(2)] by blast
  with assms(1) show ?thesis
    by (cases r) (auto simp: reconnect_session_def Let_def w1_def [symmetric] off_for_good_def
        stranded_wrote split: attach_failure.splits)
qed

lemma perform_off_air: "quiet x \<Longrightarrow> off_air w \<Longrightarrow> off_air (perform sha x w)"
  by (simp add: off_air_def quiet_not_live)

lemma off_air_frame [simp]:
  "off_air (emit e w) = off_air w" "off_air (publish_view_entry v view w) = off_air w"
  by (simp_all add: off_air_def)

lemma attached_reply_off_air:
  assumes "quiet_attach env" and "off_air w"
  shows "off_air (snd (attached_reply sha env h v feed wire wants gen epoch rw sess w))"
  using assms
  by (auto simp: attached_reply_def Let_def quiet_attach_def perform_off_air intro!: others_off_air)

lemma begin_not_live: "ls_state (lifecycle_next sha (BeginAttempt v b) l) = ls_state l"
  by (simp add: lifecycle_next_def begin_view_attempt_def Let_def)

lemma attempt_off_air:
  assumes "quiet_attach env" and "off_air w"
  shows "off_air (snd (attach_view_attempt sha rs env v feed w))"
proof -
  have p: "off_air (perform sha (BeginAttempt v b) w)" if "off_air w" for b w
    using that by (simp add: off_air_def begin_not_live)
  show ?thesis
    using assms
    by (auto simp: attach_view_attempt_def Let_def quiet_attach_def case_prod_beta
        intro!: others_off_air attached_reply_off_air perform_off_air p split: option.splits attach_reply.splits)
qed

lemma failed_attempt_strands:
  assumes "attach_view_attempt sha rs env v True (perform sha ElectFeed w) = (Inl failure, w1)"
    and "failure = AttachFailed err \<or> failure = AttachRejected err"
    and "fst (elect_feed (rw_lifecycle w)) = Some v" and "eligible (rw_lifecycle w) = {v}"
    and "ls_state (rw_lifecycle w) \<noteq> Live" and "quiet_attach env"
    and "establish_feed sha rs now (env # envs) w = Some (outcome, w2)"
  shows "within {} w2 \<and> off_air w2"
proof -
  let ?w = "perform sha ElectFeed w"
  have "within {v} ?w" "off_air ?w"
    using assms(4,5) quiet_eligible [of ElectFeed sha "rw_lifecycle w"] by (auto simp: within_def off_air_def quiet_not_live)
  then have "within (insert v {v}) w1" "off_air w1"
    using attempt_within(1) [OF assms(6), where E = "{v}" and w = ?w and v = v and sha = sha and rs = rs and feed = True]
      attempt_off_air [OF assms(6), where w = ?w and v = v and sha = sha and rs = rs and feed = True] assms(1)
    by simp_all
  moreover have "w2 = emit ConnectionRetired (perform sha (ViewFailed v err True) w1)
      \<or> w2 = perform sha (ViewFailed v err True) w1"
    using assms(2,7) establish_turn [OF assms(3,1), of now envs] by (auto simp: settle_def)
  ultimately show ?thesis
    by (auto simp: within_def eligible_failed perform_off_air)
qed

section \<open>A session resumed\<close>

text \<open>The operations of other tasks that leave generation, feed and view table alone.\<close>

fun steady :: "lifecycle_op \<Rightarrow> bool" where
  "steady AdvanceGeneration = False"
| "steady ElectFeed = False"
| "steady (ReleaseFeed _) = False"
| "steady _ = True"

fun steady_task :: "other_task \<Rightarrow> bool" where
  "steady_task (Lifecycle_Op x) = steady x"
| "steady_task (Retire v) = False"

definition steady_attach :: "attach_env \<Rightarrow> bool" where
  "steady_attach env \<longleftrightarrow> list_all steady_task (ae_while_connecting env) \<and> list_all steady_task (ae_while_writing env)
     \<and> list_all steady_task (ae_while_waiting env) \<and> list_all steady_task (ae_while_streaming env)
     \<and> list_all steady_task (ae_while_synchronizing env)"

lemma steady_step:
  "steady x \<Longrightarrow> ls_generation (lifecycle_next sha x l) = ls_generation l
     \<and> ls_feed_view_id (lifecycle_next sha x l) = ls_feed_view_id l"
  by (cases x)
    (simp_all add: lifecycle_next_def transition_defs view_op_defs case_prod_beta Let_def split: option.splits)

definition fed_by :: "string option \<Rightarrow> u64 \<Rightarrow> (string, remote_view) fmap \<Rightarrow> resume_world \<Rightarrow> bool" where
  "fed_by feed g vs w \<longleftrightarrow> ls_feed_view_id (rw_lifecycle w) = feed \<and> ls_generation (rw_lifecycle w) = g \<and> rw_views w = vs"

interpretation other_fed: guarded_system "other_step sha" steady_task "fed_by feed g vs" for sha feed g vs
proof
  fix x :: other_task and w
  assume "steady_task x" "fed_by feed g vs w"
  then show "fed_by feed g vs (other_step sha x w)" by (cases x) (auto simp: fed_by_def steady_step)
qed

lemma others_fed:
  assumes "list_all steady_task ts"
  shows "ls_generation (rw_lifecycle (others sha ts w)) = ls_generation (rw_lifecycle w)"
    "ls_feed_view_id (rw_lifecycle (others sha ts w)) = ls_feed_view_id (rw_lifecycle w)"
    "rw_views (others sha ts w) = rw_views w"
  using other_fed.guarded_run [OF assms, of "ls_feed_view_id (rw_lifecycle w)" "ls_generation (rw_lifecycle w)" "rw_views w" w sha]
  by (simp_all add: others_def fed_by_def)

lemma attempt_feed:
  assumes "steady_attach env"
  shows "ls_feed_view_id (rw_lifecycle (snd (attach_view_attempt sha rs env v feed w))) = ls_feed_view_id (rw_lifecycle w)"
  using assms
  by (auto simp: attach_view_attempt_def attached_reply_def Let_def case_prod_beta steady_attach_def others_fed
      steady_step split: option.splits attach_reply.splits)

lemma attempt_published:
  assumes "attach_view_attempt sha rs env v feed w = (Inr outcome, w')"
  shows "\<exists>view. fmlookup (rw_views w') v = Some view \<and> rem_feed view = feed
    \<and> rem_state_generation view = ls_generation (rw_lifecycle w')
    \<and> rem_attachment_epoch view = ao_attachment_epoch outcome \<and> rem_read_write view = ao_read_write outcome"
  using assms
  by (auto simp: attach_view_attempt_def attached_reply_def Let_def case_prod_beta
      split: option.splits attach_reply.splits if_splits prod.splits)

lemma commit_live_state: "ls_state (lifecycle_next sha (CommitLive now) l) = (if ls_state l = Ended then Ended else Live)"
  by (simp add: lifecycle_next_def commit_live_def advance_def Let_def)

lemma feed_attached_established:
  assumes "feed_attached sha rs env v outcome w = (Inr u, w')" and "steady_attach env"
    and "ls_feed_view_id (rw_lifecycle w) = Some v" and "fmlookup (rw_views w) v = Some view"
    and "rem_feed view" and "rem_state_generation view = ls_generation (rw_lifecycle w)"
  shows "session_is_established w' \<or> ls_state (rw_lifecycle w') = Ended"
  using assms
  by (auto simp: feed_attached_def Let_def session_is_established_def steady_attach_def others_fed steady_step
      commit_live_state split: if_splits)

lemma commit_suspended_state:
  "ls_state (lifecycle_next sha (CommitSuspended now) l) = (if ls_state l = Ended then Ended else Suspended)"
  by (simp add: lifecycle_next_def commit_suspended_def advance_def Let_def)

definition resumed :: "resume_world \<Rightarrow> bool" where
  "resumed w \<longleftrightarrow> session_is_established w \<or> ls_state (rw_lifecycle w) \<in> {Suspended, Ended}"

lemma establish_resumed:
  "establish_feed sha rs now envs w = Some (Inr u, w') \<Longrightarrow> list_all steady_attach envs \<Longrightarrow> resumed w'"
proof (induction envs arbitrary: w)
  case Nil
  then show ?case
    by (subst (asm) establish_feed.simps) (auto simp: Let_def resumed_def commit_suspended_state split: option.splits)
next
  case (Cons env envs)
  show ?case
  proof (cases "fst (elect_feed (rw_lifecycle w))")
    case None
    then show ?thesis
      using Cons.prems(1)
      by (subst (asm) establish_feed.simps) (auto simp: Let_def resumed_def commit_suspended_state)
  next
    case (Some v)
    obtain r w1 where att: "attach_view_attempt sha rs env v True (perform sha ElectFeed w) = (r, w1)" by fastforce
    have "ls_feed_view_id (rw_lifecycle (perform sha ElectFeed w)) = Some v"
      using Some by (simp add: lifecycle_next_def elect_feed_def Let_def)
    then have feed: "ls_feed_view_id (rw_lifecycle w1) = Some v"
      using attempt_feed [of env sha rs v True "perform sha ElectFeed w"] Cons.prems(2) att by simp
    note turn = establish_turn [OF Some att, of now envs]
    show ?thesis
    proof (cases r)
      case (Inl failure)
      with turn Cons.prems have "\<exists>w2. establish_feed sha rs now envs w2 = Some (Inr u, w')"
        by (auto simp: settle_def split: attach_failure.splits)
      then show ?thesis using Cons.IH Cons.prems(2) by auto
    next
      case (Inr outcome)
      with turn Cons.prems(1) have "feed_attached sha rs env v outcome w1 = (Inr u, w')"
        by (simp add: settle_def)
      moreover obtain view where "fmlookup (rw_views w1) v = Some view" "rem_feed view"
        "rem_state_generation view = ls_generation (rw_lifecycle w1)"
        using attempt_published [OF att [unfolded Inr]] by auto
      ultimately show ?thesis
        using feed_attached_established [of sha rs env v outcome w1 u w' view] feed Cons.prems(2)
        by (auto simp: resumed_def)
    qed
  qed
qed

lemma resume_once_resumed:
  "resume_once sha rs env w = Some (Inr u, w') \<Longrightarrow> list_all steady_attach (re_attach env) \<Longrightarrow> resumed w'"
  by (auto simp: resume_once_def Let_def dest: establish_resumed split: if_splits option.splits)

section \<open>The engine\<close>

lemma engine_dial_returns:
  assumes "engine_dial sha rs env en w = Some (Returned, w')"
  shows "ls_state (rw_lifecycle w') \<in> {Live, Ended}"
proof -
  obtain r w1 where res: "resume_attempt sha rs (ee_resume env) (others sha (ee_while_locking env) w) = Some (r, w1)"
    using assms by (auto simp: engine_dial_def)
  show ?thesis
  proof (cases r)
    case (Inl failure)
    with assms res show ?thesis by (cases failure) (auto simp: engine_dial_def)
  next
    case (Inr u)
    with assms res show ?thesis by (auto simp: engine_dial_def split: if_splits)
  qed
qed

lemma engine_turn_returns:
  assumes "engine_turn sha rs config env en w = Some (Returned, w')"
  shows "ls_state (rw_lifecycle w') \<in> {Live, Ended}
    \<or> cf_suspend_after config \<le> ee_now env - en_absent_since en \<and> \<not> ee_woken env"
  using assms engine_dial_returns
  by (auto simp: engine_turn_def Let_def split: if_splits)

lemma backoff_delay_le: "backoff_delay config n j \<le> max (backoff_window config n) (cf_backoff_floor config)"
  by (simp add: backoff_delay_def Let_def min.coboundedI2)

lemma engine_run_returns:
  "engine_run sha rs config envs en w = Some (Returned, w') \<Longrightarrow> list_all ee_woken envs \<Longrightarrow>
    ls_state (rw_lifecycle w') \<in> {Live, Ended}"
proof (induction envs arbitrary: en w)
  case Nil
  then show ?case by simp
next
  case (Cons env envs)
  then show ?case
    using engine_turn_returns [of sha rs config env en w w']
    by (auto split: option.splits engine_result.splits)
qed

section \<open>The backoff window\<close>

lemma sat_pow_2: "n \<le> 31 \<Longrightarrow> unat (sat_pow 2 n) = 2 ^ n"
proof -
  assume "n \<le> 31"
  then have "(2::nat) ^ n \<le> 2 ^ 31" by (intro power_increasing) simp_all
  then have "(2::nat) ^ n < 2 ^ 32" by simp
  moreover from this have "unat ((2::u32) ^ n) = 2 ^ n"   proof -
    have "(2::u32) ^ n = of_nat (2 ^ n)" by simp
    then have "unat ((2::u32) ^ n) = 2 ^ n mod 2 ^ 32" by (simp only: unat_of_nat) simp
    with \<open>(2::nat) ^ n < 2 ^ 32\<close> show ?thesis by simp
  qed
  ultimately show ?thesis by (simp add: sat_pow_def)
qed

lemma unat_min_31: "unat (min n 31) = min (unat n) 31"
  for n :: u32
  by (simp add: min_def word_le_nat_alt)

lemma backoff_window_eq:
  "backoff_window config n =
    min (min (cf_backoff_base config * 2 ^ min (unat n) 31) MAX_DURATION) (cf_backoff_cap config)"
  by (simp add: backoff_window_def duration_mul_def unat_min_31 sat_pow_2)

end
