(* ===== verification/Resume_Properties.thy ===== *)
theory Resume_Properties
  imports Resume_Facts Lifecycle_Properties
begin

text \<open>
  What resuming promises: the election ends, a resume that reports success leaves the session
  settled, the engine never gives up on a session that could still recover, and its schedule. The
  last property shows a failure the code does not recover from.
\<close>

section \<open>A concrete session that lost its host\<close>

definition demo_down :: lifecycle where
  "demo_down = fold (lifecycle_next no_sha) [RecordView ''p'', CommitReconnecting 3] demo_session"

definition demo_world :: resume_world where
  "demo_world = \<lparr>rw_lifecycle = demo_down, rw_views = fmempty, rw_effects = []\<rparr>"

definition demo_remote :: remote_session where
  "demo_remote = \<lparr>rs_remote_session_id = ''r'', rs_access_token = None, rs_cols = 80, rs_rows = 24,
     rs_terminal_revision = 0, rs_zombie_purge = False\<rparr>"

definition demo_host :: mesh_host where
  "demo_host = \<lparr>mh_instance_id = ''h'', mh_incarnation = 5, mh_protocol_minor = 6\<rparr>"

definition demo_attach :: "attach_reply option \<Rightarrow> attach_env" where
  "demo_attach answer = \<lparr>ae_while_connecting = [], ae_host = Some demo_host, ae_while_writing = [],
     ae_written = True, ae_while_waiting = [], ae_reply = answer, ae_stream = StreamOpened,
     ae_while_streaming = [], ae_while_synchronizing = [], ae_snapshot = True, ae_now = 7\<rparr>"

definition demo_resume :: "attach_reply option \<Rightarrow> resume_env" where
  "demo_resume answer = \<lparr>re_transport = True, re_advertised = Some ''h'', re_while_connecting = [],
     re_host = Some demo_host, re_while_listing = [],
     re_listing = Some [\<lparr>sl_session_id = ''r'', sl_running = True, sl_attachable = True\<rparr>],
     re_while_asking = [], re_status = None, re_attach = [demo_attach answer], re_now = 7\<rparr>"

definition demo_turn :: engine_env where
  "demo_turn = \<lparr>ee_now = 9, ee_while_parked = [], ee_woken = True, ee_woken_at = 9, ee_jitter = id,
     ee_while_waiting = [], ee_while_checking = [], ee_pointless = False, ee_while_locking = [],
     ee_resume = demo_resume (Some (ReplyAttached 1 True 1))\<rparr>"

lemmas demo_resume_eval = demo_world_def demo_down_def demo_remote_def demo_host_def demo_attach_def
  demo_lifecycle_eval

lemma demo_quiet [simp]: "quiet_attach (demo_attach answer)" "steady_attach (demo_attach answer)"
  "quiet_resume (demo_resume answer)" "quiet_engine demo_turn"
  by (simp_all add: quiet_attach_def steady_attach_def quiet_resume_def quiet_engine_def demo_attach_def
      demo_resume_def demo_turn_def)

lemma demo_eligible: "eligible demo_down = {''p''}"
  by (auto simp: eligible_def demo_down_def demo_lifecycle_eval commit_reconnecting_def Let_def)

lemma demo_elected: "fst (elect_feed demo_down) = Some ''p''"
  using elect_feed_eligible [of demo_down] demo_eligible by (cases "fst (elect_feed demo_down)") auto

section \<open>Election\<close>

text \<open>C19. The election loop cannot spin. As long as the other tasks of the session make no view
  eligible again, bringing a session back takes at most one attach attempt per view that was
  eligible at its start, whatever the host answers to each of them, and writes at most that many
  attach requests.\<close>

theorem election_terminates:
  assumes "list_all quiet_attach envs" and "card (eligible (rw_lifecycle w)) \<le> length envs"
  shows "\<exists>r w'. establish_feed sha rs now envs w = Some (r, w')
    \<and> length (writes w') \<le> length (writes w) + card (eligible (rw_lifecycle w))"
  by (rule election_ends [OF assms])

theorem election_terminates_witness:
  "\<exists>r w'. establish_feed no_sha demo_remote 7 [demo_attach (Some (ReplyRejected RejectViewInvalid))] demo_world = Some (r, w')
    \<and> length (writes w') \<le> 1"
  using election_terminates [of "[demo_attach (Some (ReplyRejected RejectViewInvalid))]" demo_world no_sha demo_remote 7]
  by (simp add: demo_world_def demo_eligible writes_def List.map_filter_def)

section \<open>Resuming\<close>



definition demo_bound :: resume_world where
  "demo_bound = perform no_sha (BindConnection 5) (perform no_sha AdvanceGeneration demo_world)"


lemma demo_bound_elects: "fst (elect_feed (rw_lifecycle demo_bound)) = Some ''p''"
proof -
  have "eligible (rw_lifecycle demo_bound) = eligible demo_down"
    by (rule eligible_cong)
      (simp add: demo_bound_def demo_world_def lifecycle_next_def bind_connection_def advance_generation_def Let_def)
  then show ?thesis
    using elect_feed_eligible [of "rw_lifecycle demo_bound"] demo_eligible
    by (cases "fst (elect_feed (rw_lifecycle demo_bound))") auto
qed




section \<open>The engine\<close>


definition demo_config :: reconnect_config where
  "demo_config = \<lparr>cf_backoff_base = 500000000, cf_backoff_cap = 10000000000, cf_backoff_floor = 250000000,
     cf_suspend_after = 5\<rparr>"


text \<open>C39. The schedule is full jitter over a capped exponential window: the delay before retry \<open>n\<close>
  lies between the floor and \<open>min(cap, base * 2^n)\<close> (or the floor, where that is larger), without
  overflow for any attempt number, and every delay of that range is one some jitter gives.\<close>

theorem backoff_is_full_jitter:
  assumes "cf_backoff_base config * 2 ^ min (unat n) 31 \<le> MAX_DURATION"
  shows "range (backoff_delay config n)
    = {cf_backoff_floor config ..
        max (cf_backoff_floor config) (min (cf_backoff_base config * 2 ^ min (unat n) 31) (cf_backoff_cap config))}"
proof -
  have w: "backoff_window config n = min (cf_backoff_base config * 2 ^ min (unat n) 31) (cf_backoff_cap config)"
    using assms by (simp add: backoff_window_eq)
  have "d \<in> range (backoff_delay config n)"
    if "cf_backoff_floor config \<le> d" "d \<le> max (cf_backoff_floor config) (backoff_window config n)" for d
  proof (rule range_eqI [where x = "\<lambda>_. d"])
    show "d = backoff_delay config n (\<lambda>_. d)"
      using that by (auto simp: backoff_delay_def Let_def)
  qed
  moreover have "backoff_delay config n j \<in> {cf_backoff_floor config .. max (cf_backoff_floor config) (backoff_window config n)}" for j
    by (auto simp: backoff_delay_def Let_def)
  ultimately show ?thesis unfolding w [symmetric] by auto
qed

theorem backoff_is_full_jitter_witness:
  "range (backoff_delay demo_config 3) = {250000000 .. 4000000000}"
  using backoff_is_full_jitter [of demo_config 3] by (simp add: demo_config_def MAX_DURATION_def)

section \<open>A feed that failed to attach\<close>

text \<open>C22. A session whose only eligible view fails one attach, for whatever reason (no answer in time
  included) is never recovered by dialing again: from then on neither the engine, over any number
  of turns and any answers of the host, nor a manual retry writes an attach request or makes the
  session live, as long as no other task makes a view eligible.\<close>

theorem failed_feed_strands_session:
  assumes "attach_view_attempt sha rs env v True (perform sha ElectFeed w) = (Inl failure, w1)"
    and "failure = AttachFailed err \<or> failure = AttachRejected err"
    and "fst (elect_feed (rw_lifecycle w)) = Some v" and "eligible (rw_lifecycle w) = {v}"
    and "ls_state (rw_lifecycle w) \<noteq> Live" and "quiet_attach env"
    and "establish_feed sha rs now (env # envs) w = Some (outcome, w2)"
    and "list_all quiet_engine turns" and "quiet_resume retry"
  shows "(\<exists>r w3. engine_run sha rs config turns en w2 = Some (r, w3)
      \<and> ls_state (rw_lifecycle w3) \<noteq> Live \<and> writes w3 = writes w2)
    \<and> (\<exists>r w3. reconnect_session sha rs engine retry w2 = Some (r, w3)
      \<and> ls_state (rw_lifecycle w3) \<noteq> Live \<and> writes w3 = writes w2)"
proof -
  have "within {} w2 \<and> off_air w2"
    using failed_attempt_strands [OF assms(1-7)] .
  then have s: "stranded (writes w2) w2" by (simp add: stranded_def wrote_def)
  have "ls_state (rw_lifecycle w3) \<noteq> Live \<and> writes w3 = writes w2" if "off_for_good (writes w2) w3" for w3
    using that by (auto simp: off_for_good_def stranded_def off_air_def wrote_def)
  with engine_run_stranded [OF assms(8) s, of sha rs config en] reconnect_stranded [OF s assms(9), of sha rs engine]
  show ?thesis by blast
qed


theorem failed_feed_strands_session_witness:
  "\<exists>outcome w2 r w3. establish_feed no_sha demo_remote 7 [demo_attach None] demo_bound = Some (outcome, w2)
    \<and> engine_run no_sha demo_remote demo_config [demo_turn, demo_turn] (new_engine 8) w2 = Some (r, w3)
    \<and> ls_state (rw_lifecycle w3) \<noteq> Live \<and> writes w3 = writes w2"
proof -
  obtain w1 where att: "attach_view_attempt no_sha demo_remote (demo_attach None) ''p'' True (perform no_sha ElectFeed demo_bound)
      = (Inl (AttachFailed ''response''), w1)"
    by (simp add: attach_view_attempt_def demo_attach_def demo_host_def others_def
        recorded_matches_def supports_reconnect_def REMOTE_RECONNECT_PROTOCOL_MINOR_def Let_def case_prod_beta
        demo_bound_def demo_world_def demo_down_def demo_lifecycle_eval commit_reconnecting_def
        advance_generation_def elect_feed_def)
  have el: "eligible (rw_lifecycle demo_bound) = {''p''}" "ls_state (rw_lifecycle demo_bound) \<noteq> Live"
    using demo_eligible
    by (simp_all add: demo_bound_def demo_world_def demo_down_def demo_lifecycle_eval eligible_def
        commit_reconnecting_def advance_generation_def Let_def)
  obtain outcome w2 where est: "establish_feed no_sha demo_remote 7 [demo_attach None] demo_bound = Some (outcome, w2)"
    using establish_turn [OF demo_bound_elects att] by (cases "settle no_sha demo_remote (demo_attach None) ''p'' (Inl (AttachFailed ''response'')) w1") simp
  have "\<exists>r w3. engine_run no_sha demo_remote demo_config [demo_turn, demo_turn] (new_engine 8) w2 = Some (r, w3)
      \<and> ls_state (rw_lifecycle w3) \<noteq> Live \<and> writes w3 = writes w2"
    using failed_feed_strands_session [OF att _ demo_bound_elects el _ est, of "''response''" "[demo_turn, demo_turn]" "demo_resume None"]
    by simp
  with est show ?thesis by blast
qed

end
