(* ===== verification/Mesh_Connections.thy ===== *)
theory Mesh_Connections
  imports Session_Resume "HOL-Library.Product_Lexorder"
begin

text \<open>
  The viewer's connections to its hosts (\<open>MeshRuntime\<close> of \<open>ghosttea-truffle/src/lib.rs\<close>): the
  cache of one connection per device, its retirement, what the death of a connection does to the
  sessions riding it, and the heartbeat that decides that death. A connection is named by its
  incarnation, which \<open>Arc::ptr_eq\<close> compares: every dial mints a new one. Its \<open>healthy\<close> flag is
  shared by everyone who holds it, so the flags that were cleared are part of the state.
\<close>

section \<open>State\<close>

record mesh_connection =
  mc_incarnation :: u64
  mc_instance_id :: string
  mc_protocol_minor :: u16

record mesh =
  me_connections :: "(string, mesh_connection) fmap"
  me_unhealthy :: "u64 list"
  me_closed :: "u64 list"
  me_sessions :: "(string, lifecycle) fmap"
  me_views :: "(string \<times> string, remote_view) fmap"
  me_cancelled :: "remote_view list"
  me_effects :: "effect list"
  me_heartbeats :: "u64 list"

definition healthy :: "mesh \<Rightarrow> mesh_connection \<Rightarrow> bool" where
  "healthy m c \<longleftrightarrow> mc_incarnation c \<notin> set (me_unhealthy m)"

definition close_connection :: "mesh_connection \<Rightarrow> mesh \<Rightarrow> mesh" where
  "close_connection c m = m\<lparr>me_closed := me_closed m @ [mc_incarnation c]\<rparr>"

definition mark_unhealthy :: "mesh_connection \<Rightarrow> mesh \<Rightarrow> mesh" where
  "mark_unhealthy c m = m\<lparr>me_unhealthy := me_unhealthy m @ [mc_incarnation c]\<rparr>"

section \<open>The cache\<close>

definition connection_is_reusable :: "string \<Rightarrow> bool \<Rightarrow> string \<Rightarrow> bool" where
  "connection_is_reusable cached_host_instance_id is_healthy advertised_host_instance_id \<longleftrightarrow>
     is_healthy \<and> cached_host_instance_id = advertised_host_instance_id"

definition reusable_connection :: "string \<Rightarrow> string \<Rightarrow> mesh \<Rightarrow> mesh_connection option \<times> mesh" where
  "reusable_connection device advertised m =
     (case fmlookup (me_connections m) device of
        None \<Rightarrow> (None, m)
      | Some c \<Rightarrow>
          if connection_is_reusable (mc_instance_id c) (healthy m c) advertised then (Some c, m)
          else (None, close_connection c (m\<lparr>me_connections := fmdrop device (me_connections m)\<rparr>)))"

text \<open>The second half of \<open>remote_connection\<close>, once \<open>remote\<close> has been dialed off the lock.\<close>

definition publish_connection ::
  "string \<Rightarrow> string \<Rightarrow> mesh_connection \<Rightarrow> mesh \<Rightarrow> mesh_connection \<times> mesh" where
  "publish_connection device advertised remote m =
     (let insert_remote = (\<lambda>m.
            (remote, m\<lparr>me_connections := fmupd device remote (me_connections m),
                me_heartbeats := me_heartbeats m @
                  (if REMOTE_RECONNECT_PROTOCOL_MINOR \<le> mc_protocol_minor remote then [mc_incarnation remote] else [])\<rparr>))
      in case fmlookup (me_connections m) device of
           None \<Rightarrow> insert_remote m
         | Some existing \<Rightarrow>
             if connection_is_reusable (mc_instance_id existing) (healthy m existing) advertised
             then (existing, close_connection remote m)
             else insert_remote (close_connection existing (mark_unhealthy existing m)))"

text \<open>\<open>expected\<close> is \<open>None\<close> or the connection the cached one must be.\<close>

definition invalidate_connection :: "string \<Rightarrow> mesh_connection option \<Rightarrow> mesh \<Rightarrow> mesh" where
  "invalidate_connection device expected m =
     (case fmlookup (me_connections m) device of
        None \<Rightarrow> m
      | Some cached \<Rightarrow>
          if (case expected of None \<Rightarrow> True | Some e \<Rightarrow> mc_incarnation cached = mc_incarnation e)
          then close_connection cached (mark_unhealthy cached
                 (m\<lparr>me_connections := fmdrop device (me_connections m)\<rparr>))
          else m)"

definition note_connection_failure :: "string \<Rightarrow> mesh_connection \<Rightarrow> mesh \<Rightarrow> mesh" where
  "note_connection_failure device host m = invalidate_connection device (Some host) (mark_unhealthy host m)"

section \<open>The sessions on a connection\<close>

text \<open>One lifecycle operation on one session; an unknown session is left alone.\<close>

definition on_session :: "string \<Rightarrow> (lifecycle \<Rightarrow> lifecycle \<times> effect list) \<Rightarrow> mesh \<Rightarrow> mesh" where
  "on_session sid f m = (case fmlookup (me_sessions m) sid of
     None \<Rightarrow> m
   | Some l \<Rightarrow> (let (l, es) = f l in
       m\<lparr>me_sessions := fmupd sid l (me_sessions m), me_effects := me_effects m @ es\<rparr>))"

definition session_ids :: "mesh \<Rightarrow> string list" where
  "session_ids m = sorted_list_of_fset (fmdom (me_sessions m))"

definition on_sessions :: "(lifecycle \<Rightarrow> lifecycle \<times> effect list) \<Rightarrow> mesh \<Rightarrow> mesh" where
  "on_sessions f m = fold (\<lambda>sid. on_session sid f) (session_ids m) m"

definition quietest_contact :: "mesh_connection \<Rightarrow> instant \<Rightarrow> mesh \<Rightarrow> duration option" where
  "quietest_contact host now m =
     (let ages = List.map_filter (\<lambda>sid. Option.bind (fmlookup (me_sessions m) sid) (contact_age (mc_incarnation host) now))
          (session_ids m)
      in if ages = [] then None else Some (Min (set ages)))"

definition note_contact_all :: "mesh_connection \<Rightarrow> instant \<Rightarrow> mesh \<Rightarrow> mesh" where
  "note_contact_all host now = on_sessions (\<lambda>l. (snd (note_contact (mc_incarnation host) now l), []))"

definition commit_host_shutdown_all :: "mesh_connection \<Rightarrow> instant \<Rightarrow> mesh \<Rightarrow> mesh" where
  "commit_host_shutdown_all host now = on_sessions (\<lambda>l. snd (commit_host_shutdown (mc_incarnation host) now l))"

definition doomed_views :: "mesh_connection \<Rightarrow> mesh \<Rightarrow> ((string \<times> string) \<times> remote_view) list" where
  "doomed_views host m =
     List.map_filter (\<lambda>k. case fmlookup (me_views m) k of
        None \<Rightarrow> None | Some v \<Rightarrow> if rem_incarnation v = mc_incarnation host then Some (k, v) else None)
       (sorted_list_of_fset (fmdom (me_views m)))"

text \<open>
  The report of each doomed view to its session, then the engine of every session for which the
  report committed; \<open>engine\<close> is the task spawned for a session.
\<close>

definition report_disconnect :: "instant \<Rightarrow> string \<times> remote_view \<Rightarrow> string list \<times> mesh \<Rightarrow> string list \<times> mesh" where
  "report_disconnect now x acc = (case x of (sid, view) \<Rightarrow> case acc of (committed, m) \<Rightarrow>
     (case fmlookup (me_sessions m) sid of
        None \<Rightarrow> (committed, m)
      | Some l \<Rightarrow> (let (b, _) = commit_disconnect (rem_state_generation view) (rem_incarnation view) now l in
          (if b then committed @ [sid] else committed,
           on_session sid (\<lambda>l. snd (commit_disconnect (rem_state_generation view) (rem_incarnation view) now l)) m))))"

definition arm_reconnect_for :: "(string \<Rightarrow> engine) \<Rightarrow> string \<Rightarrow> mesh \<Rightarrow> mesh" where
  "arm_reconnect_for spawned sid =
     on_session sid (\<lambda>l. if ls_state l = Ended then (l, []) else arm_engine (spawned sid) l)"

definition fail_connection :: "(string \<Rightarrow> engine) \<Rightarrow> instant \<Rightarrow> string \<Rightarrow> mesh_connection \<Rightarrow> mesh \<Rightarrow> mesh" where
  "fail_connection spawned now device host m =
     (let m = invalidate_connection device (Some host) m;
          doomed = doomed_views host m;
          m = m\<lparr>me_views := fold (\<lambda>(k, v). fmdrop k) doomed (me_views m),
                me_cancelled := me_cancelled m @ map snd doomed\<rparr>;
          (committed, m) = fold (report_disconnect now) (map (\<lambda>(k, v). (fst k, v)) doomed) ([], m)
      in fold (arm_reconnect_for spawned) committed m)"

section \<open>The heartbeat\<close>

record heartbeat_config =
  hc_idle :: duration
  hc_fail :: duration

definition heartbeat_tick :: "heartbeat_config \<Rightarrow> duration" where
  "heartbeat_tick config = max (hc_idle config div 3) 10000000"

record heartbeat =
  hb_outstanding :: "u64 option"
  hb_nonce :: u64

definition new_heartbeat :: heartbeat where
  "new_heartbeat = \<lparr>hb_outstanding = None, hb_nonce = 0\<rparr>"

text \<open>
  What a turn of the loop gets: a message, the end of the stream or its failure, or the tick.
  \<open>ok\<close> tells whether the write the turn makes, if any, succeeds.
\<close>

datatype heartbeat_input = Received heartbeat_message | StreamEnd | StreamError | Ticked

datatype heartbeat_action = Probed u64 | Answered u64 | Contact | ShutdownSeen | Dead

definition heartbeat_turn ::
  "heartbeat_config \<Rightarrow> bool \<Rightarrow> heartbeat_input \<Rightarrow> duration option \<Rightarrow> bool \<Rightarrow> heartbeat
     \<Rightarrow> heartbeat_action list \<times> heartbeat option" where
  "heartbeat_turn config is_healthy event quiet ok hb =
     (if \<not> is_healthy then ([], None)
      else case event of
        StreamEnd \<Rightarrow> ([], None)
      | StreamError \<Rightarrow> ([Dead], None)
      | Received (Pong echoed) \<Rightarrow>
          if hb_outstanding hb = Some echoed then ([Contact], Some (hb\<lparr>hb_outstanding := None\<rparr>)) else ([], Some hb)
      | Received HostShutdownNotice \<Rightarrow> ([ShutdownSeen], None)
      | Received (Ping probed) \<Rightarrow> if ok then ([Answered probed], Some hb) else ([Dead], None)
      | Ticked \<Rightarrow>
          (case quiet of
             None \<Rightarrow> ([], Some (hb\<lparr>hb_outstanding := None\<rparr>))
           | Some silence \<Rightarrow>
               if hc_fail config \<le> silence then ([Dead], None)
               else if hc_idle config \<le> silence \<and> hb_outstanding hb = None then
                 let nonce = sat_add (hb_nonce hb) 1
                 in if ok then ([Probed nonce], Some \<lparr>hb_outstanding = Some nonce, hb_nonce = nonce\<rparr>)
                    else ([Dead], None)
               else ([], Some hb)))"

text \<open>
  The task of one connection on the mesh: \<open>heartbeat_loop\<close> with \<open>run_heartbeat\<close>, one turn at a
  time. The turn reads the mesh as it is then, and its actions are committed on it.
\<close>

fun commit_action ::
  "(string \<Rightarrow> engine) \<Rightarrow> instant \<Rightarrow> string \<Rightarrow> mesh_connection \<Rightarrow> heartbeat_action \<Rightarrow> mesh \<Rightarrow> mesh" where
  "commit_action spawned now device host Contact m = note_contact_all host now m"
| "commit_action spawned now device host ShutdownSeen m = commit_host_shutdown_all host now m"
| "commit_action spawned now device host Dead m = fail_connection spawned now device host m"
| "commit_action spawned now device host (Probed n) m = m"
| "commit_action spawned now device host (Answered n) m = m"

definition heartbeat_step ::
  "heartbeat_config \<Rightarrow> (string \<Rightarrow> engine) \<Rightarrow> instant \<Rightarrow> string \<Rightarrow> mesh_connection \<Rightarrow> heartbeat_input \<Rightarrow> bool
     \<Rightarrow> heartbeat \<times> mesh \<Rightarrow> heartbeat_action list \<times> heartbeat option \<times> mesh" where
  "heartbeat_step config spawned now device host event ok s =
     (case s of (hb, m) \<Rightarrow>
        let (actions, hb') = heartbeat_turn config (healthy m host) event (quietest_contact host now m) ok hb
        in (actions, hb', fold (commit_action spawned now device host) actions m))"

text \<open>\<open>devices_with_live_sessions\<close> and its like read the state only; \<open>has_sessions_on\<close> is one.\<close>

definition is_off_air :: "lifecycle \<Rightarrow> bool" where
  "is_off_air l \<longleftrightarrow> ls_state l = Ended \<or> ls_state l = Suspended"

definition devices_with_live_sessions :: "mesh \<Rightarrow> string list" where
  "devices_with_live_sessions m = sorted_list_of_set (set (List.map_filter
     (\<lambda>sid. case fmlookup (me_sessions m) sid of
        None \<Rightarrow> None | Some l \<Rightarrow> if is_off_air l then None else Some (ls_device_id l)) (session_ids m)))"

definition has_sessions_on :: "string \<Rightarrow> mesh \<Rightarrow> bool" where
  "has_sessions_on device m \<longleftrightarrow> list_ex (\<lambda>sid. case fmlookup (me_sessions m) sid of
     None \<Rightarrow> False | Some l \<Rightarrow> ls_device_id l = device \<and> \<not> is_off_air l) (session_ids m)"

end
