(* ===== verification/Mesh_Facts.thy ===== *)
theory Mesh_Facts
  imports Mesh_Connections Lifecycle_Runs
begin

text \<open>
  What the operations on connections leave alone, who closes a connection, and what a heartbeat
  commits.
\<close>

section \<open>Confinement\<close>

definition incarnation_of :: "mesh \<Rightarrow> string \<Rightarrow> u64 option" where
  "incarnation_of m sid = map_option ls_incarnation (fmlookup (me_sessions m) sid)"

text \<open>From \<open>m\<close> to \<open>m'\<close> nothing changed that does not belong to incarnation \<open>i\<close>.\<close>

definition spares :: "u64 \<Rightarrow> mesh \<Rightarrow> mesh \<Rightarrow> bool" where
  "spares i m m' \<longleftrightarrow>
     (\<forall>sid. incarnation_of m' sid = incarnation_of m sid
       \<and> (incarnation_of m sid \<noteq> Some i \<longrightarrow> fmlookup (me_sessions m') sid = fmlookup (me_sessions m) sid))
     \<and> (\<forall>device c. fmlookup (me_connections m) device = Some c \<longrightarrow> mc_incarnation c \<noteq> i \<longrightarrow>
          fmlookup (me_connections m') device = Some c)
     \<and> (\<forall>k v. fmlookup (me_views m) k = Some v \<longrightarrow> rem_incarnation v \<noteq> i \<longrightarrow> fmlookup (me_views m') k = Some v)"

lemma spares_refl [simp]: "spares i m m"
  by (simp add: spares_def)

lemma spares_trans: "spares i m m' \<Longrightarrow> spares i m' m'' \<Longrightarrow> spares i m m''"
  by (simp add: spares_def)

lemma fold_spares: "(\<And>x m. x \<in> set xs \<Longrightarrow> spares i m (f x m)) \<Longrightarrow> spares i m (fold f xs m)"
proof (induction xs arbitrary: m)
  case Nil
  then show ?case by simp
next
  case (Cons x xs)
  then have "spares i m (f x m)" "spares i (f x m) (fold f xs (f x m))" by auto
  then show ?case by (simp add: spares_trans)
qed

lemma on_session_fields [simp]:
  "me_connections (on_session sid f m) = me_connections m" "me_views (on_session sid f m) = me_views m"
  "fmlookup (me_sessions (on_session sid f m)) k =
     (if k = sid then map_option (\<lambda>l. fst (f l)) (fmlookup (me_sessions m) sid) else fmlookup (me_sessions m) k)"
  "me_closed (on_session sid f m) = me_closed m" "me_unhealthy (on_session sid f m) = me_unhealthy m"
  "me_heartbeats (on_session sid f m) = me_heartbeats m"
  by (auto simp: on_session_def case_prod_beta Let_def split: option.splits)

lemma on_session_spares:
  assumes "\<And>l. ls_incarnation (fst (f l)) = ls_incarnation l"
    and "incarnation_of m sid = Some i \<or> (\<forall>l. ls_incarnation l \<noteq> i \<longrightarrow> fst (f l) = l)"
  shows "spares i m (on_session sid f m)"
  using assms by (cases "fmlookup (me_sessions m) sid") (auto simp: spares_def incarnation_of_def)

lemma on_sessions_spares:
  assumes "\<And>l. ls_incarnation (fst (f l)) = ls_incarnation l" and "\<And>l. ls_incarnation l \<noteq> i \<Longrightarrow> fst (f l) = l"
  shows "spares i m (on_sessions f m)"
  unfolding on_sessions_def using assms by (intro fold_spares on_session_spares) auto

lemma end_session_incarnation [simp]: "ls_incarnation (fst (end_session r now l)) = ls_incarnation l"
  by (simp add: end_session_def advance_def case_prod_beta Let_def)

lemma contact_spares: "spares (mc_incarnation host) m (note_contact_all host now m)"
  unfolding note_contact_all_def by (rule on_sessions_spares) (simp_all add: note_contact_def)

lemma shutdown_spares: "spares (mc_incarnation host) m (commit_host_shutdown_all host now m)"
  unfolding commit_host_shutdown_all_def
  by (rule on_sessions_spares) (simp_all add: commit_host_shutdown_def case_prod_beta Let_def)

lemma invalidate_spares: "spares (mc_incarnation host) m (invalidate_connection device (Some host) m)"
  by (auto simp: spares_def invalidate_connection_def incarnation_of_def close_connection_def mark_unhealthy_def
      split: option.splits)

lemma disconnect_incarnation [simp]: "ls_incarnation (fst (snd (commit_disconnect g i now l))) = ls_incarnation l"
  by (simp add: commit_disconnect_def mark_views_pending_def advance_def case_prod_beta Let_def)

lemma report_spares:
  assumes "rem_incarnation (snd x) = i"
  shows "spares i (snd acc) (snd (report_disconnect now x acc))"
    "set (fst (report_disconnect now x acc)) \<subseteq> set (fst acc) \<union> {sid. incarnation_of (snd acc) sid = Some i}"
proof -
  obtain sid view where x: "x = (sid, view)" by (cases x)
  have "fst (snd (commit_disconnect (rem_state_generation view) i now l)) = l"
    "\<not> fst (commit_disconnect (rem_state_generation view) i now l)"
    if "ls_incarnation l \<noteq> i" for l
    using that by (simp_all add: commit_disconnect_def)
  with assms show "spares i (snd acc) (snd (report_disconnect now x acc))"
    "set (fst (report_disconnect now x acc)) \<subseteq> set (fst acc) \<union> {sid. incarnation_of (snd acc) sid = Some i}"
    by (auto simp: report_disconnect_def x case_prod_beta Let_def incarnation_of_def split: option.splits
        intro!: on_session_spares)
qed

lemma reports_spare:
  assumes "\<And>x. x \<in> set xs \<Longrightarrow> rem_incarnation (snd x) = i"
  shows "spares i (snd acc) (snd (fold (report_disconnect now) xs acc))
    \<and> set (fst (fold (report_disconnect now) xs acc)) \<subseteq> set (fst acc) \<union> {sid. incarnation_of (snd acc) sid = Some i}"
  using assms
proof (induction xs arbitrary: acc)
  case Nil
  then show ?case by simp
next
  case (Cons x xs)
  let ?acc = "report_disconnect now x acc"
  have head: "spares i (snd acc) (snd ?acc)"
    "set (fst ?acc) \<subseteq> set (fst acc) \<union> {sid. incarnation_of (snd acc) sid = Some i}"
    using report_spares [of x i] Cons.prems by auto
  then have "incarnation_of (snd ?acc) = incarnation_of (snd acc)" by (auto simp: spares_def)
  with head Cons.IH [of ?acc] Cons.prems show ?case by (auto intro: spares_trans)
qed

lemma doomed_incarnation: "x \<in> set (doomed_views host m) \<Longrightarrow>
    rem_incarnation (snd x) = mc_incarnation host \<and> fmlookup (me_views m) (fst x) = Some (snd x)"
  by (auto simp: doomed_views_def List.map_filter_def split: option.splits if_splits)

lemma fold_drop_lookup: "k \<notin> fst ` set xs \<Longrightarrow> fmlookup (fold (\<lambda>(k, v). fmdrop k) xs vs) k = fmlookup vs k"
  by (induction xs arbitrary: vs) auto

lemma fail_spares: "spares (mc_incarnation host) m (fail_connection spawned now device host m)"
proof -
  let ?i = "mc_incarnation host"
  define m1 where "m1 = invalidate_connection device (Some host) m"
  define doomed where "doomed = doomed_views host m1"
  define m2 where "m2 = m1\<lparr>me_views := fold (\<lambda>(k, v). fmdrop k) doomed (me_views m1),
    me_cancelled := me_cancelled m1 @ map snd doomed\<rparr>"
  define acc where "acc = fold (report_disconnect now) (map (\<lambda>(k, v). (fst k, v)) doomed) ([], m2)"
  have fail: "fail_connection spawned now device host m = fold (arm_reconnect_for spawned) (fst acc) (snd acc)"
    by (simp add: fail_connection_def m1_def doomed_def m2_def acc_def case_prod_beta Let_def)
  have doom: "fmlookup (me_views m1) k = Some v \<Longrightarrow> rem_incarnation v \<noteq> ?i \<Longrightarrow> k \<notin> fst ` set doomed" for k v
    using doomed_incarnation [of _ host m1] by (fastforce simp: doomed_def)
  have "spares ?i m m1" by (simp add: m1_def invalidate_spares)
  moreover have "spares ?i m1 m2"
    using doom by (auto simp: spares_def m2_def incarnation_of_def fold_drop_lookup)
  moreover have "rem_incarnation (snd x) = ?i" if "x \<in> set (map (\<lambda>(k, v). (fst k, v)) doomed)" for x
    using that by (auto simp: doomed_def dest: doomed_incarnation)
  then have reports: "spares ?i m2 (snd acc)" "set (fst acc) \<subseteq> {sid. incarnation_of m2 sid = Some ?i}"
    using reports_spare [of "map (\<lambda>(k, v). (fst k, v)) doomed" ?i "([], m2)" now]
    by (simp_all add: acc_def)
  moreover have "spares ?i (snd acc) (fold (arm_reconnect_for spawned) (fst acc) (snd acc))"
  proof -
    have arm: "ls_incarnation (fst (if ls_state l = Ended then (l, []) else arm_engine e l)) = ls_incarnation l" for l e
      by (simp add: arm_engine_def)
    have "spares ?i m' (fold (arm_reconnect_for spawned) sids m')"
      if "\<forall>sid \<in> set sids. incarnation_of m' sid = Some ?i" for sids m'
      using that
    proof (induction sids arbitrary: m')
      case Nil
      then show ?case by simp
    next
      case (Cons sid sids)
      have "spares ?i m' (arm_reconnect_for spawned sid m')"
        unfolding arm_reconnect_for_def using Cons.prems arm by (intro on_session_spares) auto
      moreover from this have "\<forall>s \<in> set sids. incarnation_of (arm_reconnect_for spawned sid m') s = Some ?i"
        using Cons.prems by (auto simp: spares_def)
      ultimately show ?case using Cons.IH by (auto intro: spares_trans)
    qed
    moreover have "\<forall>sid \<in> set (fst acc). incarnation_of (snd acc) sid = Some ?i"
      using reports by (auto simp: spares_def)
    ultimately show ?thesis by blast
  qed
  ultimately show ?thesis unfolding fail by (blast intro: spares_trans)
qed

lemma action_spares: "spares (mc_incarnation host) m (commit_action spawned now device host a m)"
  by (cases a) (simp_all add: contact_spares shutdown_spares fail_spares)

section \<open>Who closes a connection\<close>

text \<open>
  The operations of the runtime on its connections; a dial that succeeded hands its connection
  to \<open>publish_connection\<close>.
\<close>

datatype mesh_op =
    Reuse string string
  | Publish string string mesh_connection
  | Invalidate string "mesh_connection option"
  | ConnectionFailure string mesh_connection
  | FailConnection instant string mesh_connection
  | NoteContactAll instant mesh_connection
  | HostShutdownAll instant mesh_connection

fun mesh_step :: "(string \<Rightarrow> engine) \<Rightarrow> mesh_op \<Rightarrow> mesh \<Rightarrow> mesh" where
  "mesh_step spawned (Reuse device advertised) m = snd (reusable_connection device advertised m)"
| "mesh_step spawned (Publish device advertised remote) m = snd (publish_connection device advertised remote m)"
| "mesh_step spawned (Invalidate device expected) m = invalidate_connection device expected m"
| "mesh_step spawned (ConnectionFailure device host) m = note_connection_failure device host m"
| "mesh_step spawned (FailConnection now device host) m = fail_connection spawned now device host m"
| "mesh_step spawned (NoteContactAll now host) m = note_contact_all host now m"
| "mesh_step spawned (HostShutdownAll now host) m = commit_host_shutdown_all host now m"

fun dialed :: "mesh_op list \<Rightarrow> u64 list" where
  "dialed [] = []"
| "dialed (Publish device advertised remote # ops) = mc_incarnation remote # dialed ops"
| "dialed (_ # ops) = dialed ops"

text \<open>Where a connection is: cached for a device, or closed.\<close>

definition cached_at :: "mesh \<Rightarrow> string \<Rightarrow> u64 option" where
  "cached_at m device = map_option mc_incarnation (fmlookup (me_connections m) device)"

definition owned :: "u64 list \<Rightarrow> mesh \<Rightarrow> bool" where
  "owned ds m \<longleftrightarrow> distinct (me_closed m) \<and> set (me_closed m) \<subseteq> set ds
     \<and> (\<forall>i \<in> set ds. i \<in> set (me_closed m) \<or> (\<exists>device. cached_at m device = Some i))
     \<and> (\<forall>device i. cached_at m device = Some i \<longrightarrow> i \<in> set ds \<and> i \<notin> set (me_closed m))
     \<and> (\<forall>device device' i. cached_at m device = Some i \<longrightarrow> cached_at m device' = Some i \<longrightarrow> device = device')
     \<and> distinct (me_heartbeats m) \<and> set (me_heartbeats m) \<subseteq> set ds"

lemma owned_same_cache:
  "me_connections m' = me_connections m \<Longrightarrow> me_closed m' = me_closed m \<Longrightarrow> me_heartbeats m' = me_heartbeats m \<Longrightarrow>
    owned ds m' = owned ds m"
  by (simp add: owned_def cached_at_def)

lemma owned_unhealthy [simp]: "owned ds (mark_unhealthy c m) = owned ds m"
  by (rule owned_same_cache) (simp_all add: mark_unhealthy_def)

lemma ownedD:
  assumes "owned ds m"
  shows "distinct (me_closed m)" "set (me_closed m) \<subseteq> set ds" "distinct (me_heartbeats m)" "set (me_heartbeats m) \<subseteq> set ds"
    "i \<in> set ds \<Longrightarrow> i \<notin> set (me_closed m) \<Longrightarrow> \<exists>device. cached_at m device = Some i"
    "cached_at m device = Some i \<Longrightarrow> i \<in> set ds" "cached_at m device = Some i \<Longrightarrow> i \<notin> set (me_closed m)"
    "cached_at m device = Some i \<Longrightarrow> cached_at m device' = Some i \<Longrightarrow> device = device'"
  using assms by (auto simp: owned_def)

lemma owned_drop:
  assumes "owned ds m" and "fmlookup (me_connections m) device = Some c"
  shows "owned ds (close_connection c (m\<lparr>me_connections := fmdrop device (me_connections m)\<rparr>))"
proof -
  let ?m = "close_connection c (m\<lparr>me_connections := fmdrop device (me_connections m)\<rparr>)" and ?i = "mc_incarnation c"
  note own = ownedD [OF assms(1)]
  have c: "cached_at m device = Some ?i" using assms(2) by (simp add: cached_at_def)
  have at: "cached_at ?m d = (if d = device then None else cached_at m d)" for d
    by (simp add: cached_at_def close_connection_def)
  have closed: "me_closed ?m = me_closed m @ [?i]" "me_heartbeats ?m = me_heartbeats m"
    by (simp_all add: close_connection_def)
  have "distinct (me_closed ?m)" "set (me_closed ?m) \<subseteq> set ds"
    using own(1,2) own(6,7) [OF c] by (simp_all add: closed)
  moreover have "\<exists>d. cached_at ?m d = Some i" if i: "i \<in> set ds" "i \<notin> set (me_closed ?m)" for i
  proof -
    have "i \<notin> set (me_closed m)" using i by (simp add: closed)
    then obtain d where d: "cached_at m d = Some i" using own(5) i(1) by blast
    moreover have "d \<noteq> device" using d c i(2) by (auto simp: closed)
    ultimately show ?thesis by (intro exI [of _ d]) (simp add: at)
  qed
  moreover have "i \<in> set ds \<and> i \<notin> set (me_closed ?m)" if d: "cached_at ?m d = Some i" for d i
  proof -
    have d': "d \<noteq> device" "cached_at m d = Some i" using d by (simp_all add: at split: if_splits)
    then have "i \<noteq> ?i" using own(8) [OF _ c] by blast
    then show ?thesis using own(6,7) [OF d'(2)] by (simp add: closed)
  qed
  moreover have "d = d'" if "cached_at ?m d = Some i" "cached_at ?m d' = Some i" for d d' i
    using that own(8) [of d i d'] by (auto simp: at split: if_splits)
  ultimately show ?thesis using own(3,4) unfolding owned_def closed(2) by blast
qed

lemma owned_insert:
  assumes "owned ds m" and "mc_incarnation c \<notin> set ds" and "fmlookup (me_connections m) device = None"
    and "set hs \<subseteq> {mc_incarnation c}" and "distinct hs"
  shows "owned (mc_incarnation c # ds)
    (m\<lparr>me_connections := fmupd device c (me_connections m), me_heartbeats := me_heartbeats m @ hs\<rparr>)"
proof -
  let ?m = "m\<lparr>me_connections := fmupd device c (me_connections m), me_heartbeats := me_heartbeats m @ hs\<rparr>"
    and ?i = "mc_incarnation c"
  note own = ownedD [OF assms(1)]
  have at: "cached_at ?m d = (if d = device then Some ?i else cached_at m d)" for d
    by (simp add: cached_at_def)
  have none: "cached_at m device = None" using assms(3) by (simp add: cached_at_def)
  have "\<exists>d. cached_at ?m d = Some i" if i: "i \<in> set (?i # ds)" "i \<notin> set (me_closed ?m)" for i
  proof (cases "i = ?i")
    case True
    then show ?thesis using at by metis
  next
    case False
    then have "i \<in> set ds" "i \<notin> set (me_closed m)" using i by simp_all
    then obtain d where "cached_at m d = Some i" using own(5) by blast
    moreover from this none have "d \<noteq> device" by auto
    ultimately show ?thesis using at by metis
  qed
  moreover have "i \<in> set (?i # ds) \<and> i \<notin> set (me_closed ?m)" if "cached_at ?m d = Some i" for d i
    using that own(2) own(6,7) [of d i] assms(2) by (auto simp: at split: if_splits)
  moreover have "d = d'" if "cached_at ?m d = Some i" "cached_at ?m d' = Some i" for d d' i
    using that own(8) [of d i d'] own(6) [of d i] own(6) [of d' i] assms(2) by (auto simp: at split: if_splits)
  moreover have "distinct (me_closed ?m)" "set (me_closed ?m) \<subseteq> set (?i # ds)" using own(1,2) by auto
  moreover have "distinct (me_heartbeats ?m)" "set (me_heartbeats ?m) \<subseteq> set (?i # ds)"
    using own(3,4) assms(2,4,5) by auto
  ultimately show ?thesis unfolding owned_def by blast
qed

lemma owned_close_new:
  assumes "owned ds m" and "mc_incarnation c \<notin> set ds"
  shows "owned (mc_incarnation c # ds) (close_connection c m)"
proof -
  have at: "cached_at (close_connection c m) = cached_at m"
    by (rule ext) (simp add: cached_at_def close_connection_def)
  have "me_closed (close_connection c m) = me_closed m @ [mc_incarnation c]"
    "me_heartbeats (close_connection c m) = me_heartbeats m" by (simp_all add: close_connection_def)
  with ownedD [OF assms(1)] assms(2) show ?thesis unfolding owned_def at by auto
qed

lemma owned_close_unhealthy [simp]:
  "owned ds (close_connection c (mark_unhealthy c' m)) = owned ds (close_connection c m)"
  by (rule owned_same_cache) (simp_all add: close_connection_def mark_unhealthy_def)

lemma invalidate_owned: "owned ds m \<Longrightarrow> owned ds (invalidate_connection device expected m)"
  by (auto simp: invalidate_connection_def owned_drop split: option.splits)

lemma reusable_owned: "owned ds m \<Longrightarrow> owned ds (snd (reusable_connection device advertised m))"
  by (auto simp: reusable_connection_def owned_drop split: option.splits)

lemma publish_owned:
  assumes "owned ds m" and "mc_incarnation remote \<notin> set ds"
  shows "owned (mc_incarnation remote # ds) (snd (publish_connection device advertised remote m))"
proof (cases "fmlookup (me_connections m) device")
  case None
  let ?hs = "if REMOTE_RECONNECT_PROTOCOL_MINOR \<le> mc_protocol_minor remote then [mc_incarnation remote] else []"
  have "owned (mc_incarnation remote # ds)
      (m\<lparr>me_connections := fmupd device remote (me_connections m), me_heartbeats := me_heartbeats m @ ?hs\<rparr>)"
    by (rule owned_insert [OF assms None]) auto
  with None show ?thesis
    by (simp only: publish_connection_def Let_def option.case snd_conv)
next
  case (Some existing)
  let ?dropped = "close_connection existing (m\<lparr>me_connections := fmdrop device (me_connections m)\<rparr>)"
  show ?thesis
  proof (cases "connection_is_reusable (mc_instance_id existing) (healthy m existing) advertised")
    case True
    with Some assms show ?thesis by (simp add: publish_connection_def Let_def owned_close_new)
  next
    case False
    let ?hs = "if REMOTE_RECONNECT_PROTOCOL_MINOR \<le> mc_protocol_minor remote then [mc_incarnation remote] else []"
    let ?target = "?dropped\<lparr>me_connections := fmupd device remote (me_connections ?dropped),
      me_heartbeats := me_heartbeats ?dropped @ ?hs\<rparr>"
    have "owned (mc_incarnation remote # ds) ?target"
      by (rule owned_insert [OF owned_drop [OF assms(1) Some] assms(2)]) (auto simp: close_connection_def)
    moreover have "fmupd device remote (fmdrop device cs) = fmupd device remote cs" for cs :: "(string, mesh_connection) fmap"
      by (rule fmap_ext) simp
    then have "owned ds' (snd (publish_connection device advertised remote m)) = owned ds' ?target" for ds'
      using Some False
      by (intro owned_same_cache) (simp_all add: publish_connection_def Let_def close_connection_def mark_unhealthy_def)
    ultimately show ?thesis by simp
  qed
qed

lemma sessions_owned:
  "owned ds (on_session sid f m) = owned ds m"
  by (rule owned_same_cache) simp_all

lemma fold_owned: "(\<And>x m. owned ds (f x m) = owned ds m) \<Longrightarrow> owned ds (fold f xs m) = owned ds m"
  by (induction xs arbitrary: m) simp_all

lemma on_sessions_owned [simp]: "owned ds (on_sessions f m) = owned ds m"
  unfolding on_sessions_def by (rule fold_owned) (rule sessions_owned)

lemma reports_owned: "owned ds (snd (fold (report_disconnect now) xs acc)) = owned ds (snd acc)"
proof (induction xs arbitrary: acc)
  case (Cons x xs)
  have "owned ds (snd (report_disconnect now x acc)) = owned ds (snd acc)"
    by (auto simp: report_disconnect_def case_prod_beta Let_def sessions_owned split: option.splits)
  with Cons show ?case by simp
qed simp

lemma arm_owned: "owned ds (arm_reconnect_for spawned sid m) = owned ds m"
  by (simp add: arm_reconnect_for_def sessions_owned)

lemma fail_owned: "owned ds m \<Longrightarrow> owned ds (fail_connection spawned now device host m)"
proof -
  assume "owned ds m"
  then have "owned ds (invalidate_connection device (Some host) m)" by (rule invalidate_owned)
  then have "owned ds ((invalidate_connection device (Some host) m)\<lparr>me_views := vs, me_cancelled := cs\<rparr>)" for vs cs
    by (subst owned_same_cache) simp_all
  then show ?thesis
    by (simp add: fail_connection_def case_prod_beta Let_def reports_owned fold_owned [OF arm_owned])
qed

lemma mesh_step_owned:
  assumes "owned ds m" and "distinct (dialed [x] @ ds)"
  shows "owned (dialed [x] @ ds) (mesh_step spawned x m)"
  using assms
  by (cases x) (simp_all add: reusable_owned publish_owned invalidate_owned fail_owned note_connection_failure_def
      note_contact_all_def commit_host_shutdown_all_def)

lemma dialed_Cons: "dialed (x # xs) = dialed [x] @ dialed xs"
  by (cases x) simp_all

lemma mesh_run_owned:
  "owned ds m \<Longrightarrow> distinct (dialed ops @ ds) \<Longrightarrow>
    \<exists>ds'. set ds' = set ds \<union> set (dialed ops) \<and> owned ds' (fold (mesh_step spawned) ops m)"
proof (induction ops arbitrary: ds m)
  case Nil
  then show ?case by auto
next
  case (Cons x ops)
  have "distinct (dialed [x] @ ds)" "distinct (dialed ops @ (dialed [x] @ ds))"
    using Cons.prems(2) unfolding dialed_Cons [of x ops] by auto
  from Cons.IH [OF mesh_step_owned [OF Cons.prems(1) this(1)] this(2)] show ?case
    unfolding dialed_Cons [of x ops] by (auto simp: Un_ac)
qed

section \<open>What a heartbeat takes for contact\<close>

fun probes :: "heartbeat_action list \<Rightarrow> u64 list" where
  "probes [] = []"
| "probes (Probed n # as) = n # probes as"
| "probes (_ # as) = probes as"

text \<open>One turn's input: the flag, the event, the quietest contact and whether a write succeeds.\<close>

type_synonym turn_input = "bool \<times> heartbeat_input \<times> duration option \<times> bool"

text \<open>The nonces of the answered probes: the pongs a turn took for contact.\<close>

definition contact_nonce :: "turn_input \<Rightarrow> heartbeat_action list \<Rightarrow> u64 list" where
  "contact_nonce x actions = (case x of (_, event, _) \<Rightarrow>
     case event of Received (Pong n) \<Rightarrow> if Contact \<in> set actions then [n] else [] | _ \<Rightarrow> [])"

fun heartbeat_run ::
  "heartbeat_config \<Rightarrow> turn_input list \<Rightarrow> heartbeat option \<Rightarrow> heartbeat_action list \<times> u64 list \<times> heartbeat option" where
  "heartbeat_run config [] hb = ([], [], hb)"
| "heartbeat_run config (x # xs) None = ([], [], None)"
| "heartbeat_run config (x # xs) (Some hb) = (case x of (h, event, quiet, ok) \<Rightarrow>
     let (as, hb') = heartbeat_turn config h event quiet ok hb;
         (bs, ns, hb'') = heartbeat_run config xs hb'
     in (as @ bs, contact_nonce x as @ ns, hb''))"

definition hb_ok :: "heartbeat \<Rightarrow> bool" where
  "hb_ok hb \<longleftrightarrow> hb_outstanding hb \<in> {None, Some (hb_nonce hb)}"

text \<open>The least nonce a later pong can be taken for contact with.\<close>

definition hb_next :: "heartbeat \<Rightarrow> nat" where
  "hb_next hb = (if hb_outstanding hb = None then Suc (unat (hb_nonce hb)) else unat (hb_nonce hb))"

lemma turn_cases:
  assumes "hb_ok hb" and "unat (hb_nonce hb) < 2 ^ 64 - 1"
    and "heartbeat_turn config h event quiet ok hb = (as, Some hb')"
  shows "hb_ok hb' \<and> (
      probes as = [] \<and> contact_nonce (h, event, quiet, ok) as = [] \<and> hb_nonce hb' = hb_nonce hb
        \<and> hb_next hb \<le> hb_next hb' \<and> hb_outstanding hb' \<in> {None, hb_outstanding hb}
    \<or> probes as = [] \<and> contact_nonce (h, event, quiet, ok) as = [hb_nonce hb] \<and> hb_nonce hb' = hb_nonce hb
        \<and> hb_outstanding hb = Some (hb_nonce hb) \<and> hb_outstanding hb' = None
    \<or> probes as = [hb_nonce hb'] \<and> contact_nonce (h, event, quiet, ok) as = []
        \<and> unat (hb_nonce hb') = Suc (unat (hb_nonce hb)) \<and> hb_outstanding hb = None)"
proof -
  have "unat (sat_add (hb_nonce hb) 1) = Suc (unat (hb_nonce hb))"
    using assms(2) by (simp add: unat_sat_add)
  with assms(1,3) show ?thesis
    by (auto simp: heartbeat_turn_def hb_ok_def hb_next_def contact_nonce_def Let_def
        split: if_splits heartbeat_input.splits heartbeat_message.splits option.splits)
qed

lemma turn_ends:
  "heartbeat_turn config h event quiet ok hb = (as, None) \<Longrightarrow> probes as = [] \<and> contact_nonce (h, event, quiet, ok) as = []"
  by (auto simp: heartbeat_turn_def contact_nonce_def Let_def
      split: if_splits heartbeat_input.splits heartbeat_message.splits option.splits)

lemma probes_append [simp]: "probes (as @ bs) = probes as @ probes bs"
  by (induction as rule: probes.induct) simp_all

definition run_evidence :: "heartbeat \<Rightarrow> heartbeat_action list \<Rightarrow> u64 list \<Rightarrow> bool" where
  "run_evidence hb as ns \<longleftrightarrow> sorted_wrt (<) (map unat (probes as)) \<and> (\<forall>p \<in> set (probes as). unat (hb_nonce hb) < unat p)
     \<and> sorted_wrt (<) (map unat ns) \<and> (\<forall>n \<in> set ns. hb_next hb \<le> unat n)
     \<and> set ns \<subseteq> set (probes as) \<union> set_option (hb_outstanding hb)"

lemma heartbeat_run_evidence:
  "hb_ok hb \<Longrightarrow> unat (hb_nonce hb) + length xs < 2 ^ 64 \<Longrightarrow> heartbeat_run config xs (Some hb) = (as, ns, hb'') \<Longrightarrow>
    run_evidence hb as ns"
proof (induction xs arbitrary: hb as ns hb'')
  case Nil
  then show ?case by (simp add: run_evidence_def)
next
  case (Cons x xs)
  obtain h event quiet ok where x: "x = (h, event, quiet, ok)" by (cases x)
  obtain as1 r where turn: "heartbeat_turn config h event quiet ok hb = (as1, r)" by fastforce
  show ?case
  proof (cases r)
    case None
    have "heartbeat_run config ys None = ([], [], None)" for ys by (cases ys) simp_all
    with None Cons.prems(3) turn turn_ends [of config h event quiet ok hb as1] show ?thesis
      by (auto simp: x run_evidence_def)
  next
    case (Some hb1)
    obtain bs ns1 z where rest: "heartbeat_run config xs (Some hb1) = (bs, ns1, z)" by (metis prod_cases3)
    have eq: "as = as1 @ bs" "ns = contact_nonce x as1 @ ns1"
      using Cons.prems(3) turn Some rest by (auto simp: x)
    have lt: "unat (hb_nonce hb) < 2 ^ 64 - 1" using Cons.prems(2) by simp
    note cases = turn_cases [OF Cons.prems(1) lt turn [unfolded Some], folded x]
    then have "unat (hb_nonce hb1) + length xs < 2 ^ 64" "hb_ok hb1" using Cons.prems(2) by auto
    then have ih: "run_evidence hb1 bs ns1" using Cons.IH [OF _ _ rest] by blast
    from cases consider
        (still) "probes as1 = []" "contact_nonce x as1 = []" "hb_nonce hb1 = hb_nonce hb"
          "hb_next hb \<le> hb_next hb1" "hb_outstanding hb1 \<in> {None, hb_outstanding hb}"
      | (pong) "probes as1 = []" "contact_nonce x as1 = [hb_nonce hb]" "hb_nonce hb1 = hb_nonce hb"
          "hb_outstanding hb = Some (hb_nonce hb)" "hb_outstanding hb1 = None"
      | (ping) "probes as1 = [hb_nonce hb1]" "contact_nonce x as1 = []"
          "unat (hb_nonce hb1) = Suc (unat (hb_nonce hb))" "hb_outstanding hb = None" "hb_ok hb1"
      by (elim conjE disjE) simp_all
    then show ?thesis
    proof cases
      case still
      with ih show ?thesis by (auto simp: run_evidence_def eq)
    next
      case pong
      with ih show ?thesis by (fastforce simp: run_evidence_def eq hb_next_def)
    next
      case ping
      with ih show ?thesis by (fastforce simp: run_evidence_def eq hb_next_def hb_ok_def)
    qed
  qed
qed

end
