(* ===== verification/Mesh_Properties.thy ===== *)
theory Mesh_Properties
  imports Mesh_Facts Lifecycle_Properties
begin



section \<open>Connections\<close>







section \<open>Evidence of contact\<close>

text \<open>C36. Only an answer to a probe of this connection is contact. Over any run of the loop, the nonces
  it probes with are strictly increasing, and the pongs it takes for contact carry strictly
  increasing nonces it had probed with: an unsolicited, replayed or reordered pong refreshes
  nothing.\<close>

theorem contact_answers_a_probe:
  assumes "heartbeat_run config xs (Some new_heartbeat) = (actions, contacts, hb)" and "length xs < 2 ^ 64"
  shows "sorted_wrt (<) (map unat (probes actions)) \<and> sorted_wrt (<) (map unat contacts)
    \<and> set contacts \<subseteq> set (probes actions)"
proof -
  have "run_evidence new_heartbeat actions contacts"
    using assms by (intro heartbeat_run_evidence) (simp_all add: hb_ok_def new_heartbeat_def)
  then show ?thesis by (simp add: run_evidence_def new_heartbeat_def)
qed

definition replayed_pong :: "turn_input list" where
  "replayed_pong = [(True, Ticked, Some 4, True), (True, Received (Pong 1), None, True),
     (True, Received (Pong 1), None, True), (True, Ticked, Some 5, True), (True, Received (Pong 2), None, True)]"

theorem contact_answers_a_probe_witness:
  "\<exists>actions contacts hb. heartbeat_run \<lparr>hc_idle = 3, hc_fail = 6\<rparr> replayed_pong (Some new_heartbeat) = (actions, contacts, hb)
    \<and> contacts = [1, 2] \<and> set contacts \<subseteq> set (probes actions)"
proof -
  have run: "heartbeat_run \<lparr>hc_idle = 3, hc_fail = 6\<rparr> replayed_pong (Some new_heartbeat)
      = ([Probed 1, Contact, Probed 2, Contact], [1, 2], Some \<lparr>hb_outstanding = None, hb_nonce = 2\<rparr>)"
    by (simp add: replayed_pong_def heartbeat_turn_def new_heartbeat_def contact_nonce_def sat_add_def)
  have "set [1, 2] \<subseteq> set (probes [Probed 1, Contact, Probed 2, Contact])"
    using contact_answers_a_probe [OF run] by (simp add: replayed_pong_def)
  with run show ?thesis by blast
qed

end
