(* ===== verification/Spec2Isabelle.thy ===== *)
theory Spec2Isabelle
  imports Lifecycle_Properties Framing_Properties Codec_Properties Frame_Properties Replica_Properties Reply_Properties Tombstone_Properties
    Resume_Properties Mesh_Properties
begin

text \<open>
  A verification development for ghosttea, a terminal runtime in Rust: the implementation is
  below \<open>src/native/ghosttea/\<close>. A host runs terminal sessions; viewers on other devices attach
  to them over a mesh, replicate the terminal's state and send input back. This theory imports
  every other theory and holds their map. Paths below are relative to \<open>src/native/ghosttea/\<close>;
  \<open>truffle\<close> stands for \<open>crates/ghosttea-truffle/src/lib.rs\<close> and \<open>core\<close> for
  \<open>crates/ghosttea-core/src/\<close>.

  \<^bold>\<open>The parts and how they meet\<close>

  On the host, \<open>ViewAuthority\<close> decides which request of which view may read, type, resize or
  control a session; the terminal's snapshots become logical snapshots and patches, encoded by
  the compact codec and framed by the tunnel protocol; what the terminal answers to its
  program waits in the reply queue; a session that ends leaves a tombstone that says why. On the
  viewer, a connection per device is dialed, watched by a heartbeat and shared by the sessions
  opened on it; each session has one \<open>SessionLifecycle\<close>, which serializes its transitions and
  its views' attachments; an engine resumes a session whose connection was lost; the received
  state feeds a replica, and its rendered rows leave as binary frames for the renderer.

  \<^item> \<open>Prelude\<close>: machine integers with Rust's saturating operations, byte strings, finite maps
    under their \<open>HashMap\<close> names, results as sums. \<open>Step_Systems\<close>: the contracts of the stateful
    components, as locales over a step function and sequences of operations.
  \<^item> \<open>View_Authority\<close> models \<open>core/authority.rs\<close>: the record \<open>view_authority\<close> is the struct
    \<open>ViewAuthority\<close>, with one definition per method; \<open>authority_next\<close> issues them as operations.
    \<open>Authority_Runs\<close>: its invariant and frames; \<open>Authority_Properties\<close>: a superseded attachment
    epoch stays powerless, stale attaches are refused, checked control claims compare and set,
    accepted inputs increase, layout epochs identify the terminal's size.
  \<^item> \<open>Session_Lifecycle\<close> models \<open>LifecycleState\<close>, \<open>ViewRecord\<close> and \<open>SessionLifecycle\<close> of
    \<open>truffle\<close>, each method one step that returns the events it publishes. \<open>Lifecycle_Runs\<close>,
    \<open>Lifecycle_Properties\<close>: published transitions are a gap-free log, a retired generation is
    silent, a disconnect commits once, attach generations are never reused, an ended session is
    left by one operation only.
  \<^item> \<open>Tunnel_Framing\<close> models the frames and readers of \<open>src/tunnel_protocol.rs\<close> and the packet
    framing of \<open>src/service.rs\<close>. \<open>Framing_Facts\<close>, \<open>Framing_Properties\<close>: what is read depends on
    the unread bytes, not on how they were chunked.
  \<^item> \<open>Logical_State\<close> has the types of \<open>core/logical.rs\<close>; \<open>Compact_Codec\<close> the serializers and
    deserializers of the compact state messages in \<open>src/tunnel_protocol.rs\<close>. \<open>Codec_Facts\<close>,
    \<open>Codec_Properties\<close>: a message is decoded as it was encoded, and what is refused.
  \<^item> \<open>Frame_Encoder\<close> models \<open>core/frame.rs\<close>. \<open>Frame_Facts\<close>, \<open>Frame_Properties\<close>: sections are
    read back at the announced offsets, the style table defines every style used, and the two
    ways of preparing styles write the same frame.
  \<^item> \<open>Logical_Replica\<close> models \<open>LogicalReplicaModel\<close> of \<open>core/replica.rs\<close> and the host-side
    \<open>logical_patch\<close> of \<open>truffle\<close>. \<open>Replica_Facts\<close>, \<open>Replica_Properties\<close>: the viewer holds one
    of the host's snapshots, patches are all or nothing, the cache is coherent, nothing panics.
  \<^item> \<open>Reply_Queue\<close> models \<open>src/session/replies.rs\<close> as an inductive step relation over the
    interleavings of its threads; \<open>Reply_Properties\<close>: replies leave in ticket order and every
    producer returns.
  \<^item> \<open>Session_Tombstones\<close> models \<open>SessionTombstones\<close> and the end status of \<open>src/session.rs\<close>;
    \<open>Tombstone_Properties\<close>: verdicts rest on evidence and are final, and map and deque refine
    one list in order of last use.
  \<^item> \<open>Session_Resume\<close>, \<open>Reconnect_Engine\<close> model attaching, electing a feed, resuming and the
    engine with its backoff in \<open>truffle\<close>. \<open>Resume_Facts\<close>, \<open>Resume_Properties\<close>: the election
    ends, success means settled, the engine gives up only on settled sessions, and one failure
    the code does not recover from.
  \<^item> \<open>Mesh_Connections\<close> models the connection cache and the heartbeat of \<open>truffle\<close>.
    \<open>Mesh_Facts\<close>, \<open>Mesh_Properties\<close>: every connection has one owner or was closed once, a
    heartbeat is confined to its incarnation, and pongs count once.

  \<^bold>\<open>How a component is written\<close>

  A struct is a record with a prefix for its fields, an enum a datatype, an integer a word of
  its width (\<open>usize\<close> is a natural number where it only counts what is in memory), a \<open>HashMap\<close> or
  \<open>BTreeMap\<close> a finite map. A method is a definition that returns the new state and its result; an
  early return, a rejection or a panic is a value. A method that holds a mutex for its body is
  one step; what other tasks do while a method awaits is an explicit list of steps in its
  environment. Clocks, random numbers, transports' chunks and answers of the peer are arguments.

  \<^bold>\<open>Interfaces\<close>

  \<open>guarded_system\<close> (a property kept by the operations a guard allows), \<open>step_system\<close> (an
  invariant), \<open>ranked_system\<close> (a number that never falls), \<open>versioned_system\<close> (a version that
  identifies what it versions) and \<open>refined_system\<close> (an implementation that answers like its
  specification) are stated in \<open>Step_Systems\<close> and interpreted on the authority, the lifecycle,
  the replica, the tombstones and the registry, and on the tasks that run beside a resume.
  \<open>frame_codec\<close> in \<open>Framing_Facts\<close> is the contract between an encoder and the reader of a
  buffered stream, interpreted on prefaces, messages and compact messages.

  \<^bold>\<open>Loops and bounds\<close>

  Every loop of the sources that is modelled is a structural recursion: over a list, over the
  chunks a transport delivers, or over the answers an environment supplies (an engine runs once
  per answer it awaits). The one loop the code bounds by nothing but its own effect, the
  election of a feed, takes its answers from a list; \<open>election_terminates\<close> shows that no list
  longer than the number of eligible views is ever used up. There is no fuel elsewhere.

  \<^bold>\<open>Parameters\<close>

  \<open>serde_json\<close>'s text, SHA-256, the derived serializers of types from other crates, the text
  shaper (a function of its state, a text and its spans) and Ghostty's default palette are
  arguments of the definitions that use them. A property that needs a law of one of them states
  it as a hypothesis, and its witness instantiates it.

  \<^bold>\<open>Not modelled\<close>

  The VT core (\<open>ghosttea-vt\<close> wraps libghostty, which is not in the repository), font shaping and
  rasterization (\<open>ghosttea-text\<close>), PTY and process control, sockets and their security, the FFI
  crates, configuration files, the control loop of the local service, device discovery, and the
  benchmarks. Poisoned mutexes, allocation failure and log messages have no counterpart.
\<close>

end
